theory Spec2Isabelle
  imports Complex_Main "HOL-Library.Word" "HOL-Library.Signed_Division" "HOL-Library.Monad_Syntax"
begin

unbundle bit_operations_syntax

section \<open>The HiveServer2 result-set codec of \<^verbatim>\<open>be/src/service/hs2-util.cc\<close>\<close>

text \<open>
  The functions of \<^verbatim>\<open>hs2-util.cc\<close> are embedded one by one, under their own names.
  A function that mutates its argument through a pointer returns the new value. A run
  that stops in a failed \<^verbatim>\<open>DCHECK\<close>, in an exception of the standard library or in
  undefined behaviour (a signed overflow, an index outside a container) has the result
  \<open>None\<close>; a run that returns has the result \<open>Some\<close> of the new state.

  \<^verbatim>\<open>uint32_t\<close> values are naturals below \<open>2 ^ 32\<close>, and every unsigned addition of the source
  is written with its wrap-around. \<^verbatim>\<open>int\<close> values are integers between \<open>INT_MIN\<close> and
  \<open>INT_MAX\<close>. The bytes of a null bitmap (the \<^verbatim>\<open>char\<close>s of a \<^verbatim>\<open>std::string\<close>) are 8-bit
  words.
\<close>

subsection \<open>Machine integers and containers\<close>

type_synonym bytes = "8 word list"

definition INT_MAX :: int where
  "INT_MAX = 2 ^ 31 - 1"

text \<open>The conversion of a \<^verbatim>\<open>uint32_t\<close> to \<^verbatim>\<open>int\<close>: values from \<open>2 ^ 31\<close> on become negative.\<close>

definition to_int :: "nat \<Rightarrow> int" where
  "to_int u = (if u mod 2 ^ 32 < 2 ^ 31 then int (u mod 2 ^ 32) else int (u mod 2 ^ 32) - 2 ^ 32)"

text \<open>The conversion of an \<^verbatim>\<open>int\<close> to \<^verbatim>\<open>uint32_t\<close>, as in the usual arithmetic conversions.\<close>

definition to_uint32 :: "int \<Rightarrow> nat" where
  "to_uint32 i = nat (i mod 2 ^ 32)"

text \<open>
  \<^verbatim>\<open>std::string::resize(n)\<close> and \<^verbatim>\<open>std::vector::resize(n)\<close> with an \<^verbatim>\<open>int\<close> or \<^verbatim>\<open>uint32_t\<close>
  argument: the argument is converted to \<^verbatim>\<open>size_t\<close>, so that a negative \<^verbatim>\<open>int\<close> asks for more
  than \<^verbatim>\<open>max_size()\<close> and \<^verbatim>\<open>std::length_error\<close> is thrown. Otherwise the container is cut or
  filled with value-initialised elements.
\<close>

definition resize :: "int \<Rightarrow> 'a \<Rightarrow> 'a list \<Rightarrow> 'a list option" where
  "resize n z xs =
     (if n < 0 then None else Some (take (nat n) xs @ replicate (nat n - length xs) z))"

text \<open>
  A \<^verbatim>\<open>for (int i = ...; i < n; ++i)\<close> loop whose bound \<open>n\<close> is a \<^verbatim>\<open>uint32_t\<close>: the comparison
  converts \<open>i\<close> to \<^verbatim>\<open>uint32_t\<close>, and \<^verbatim>\<open>++i\<close> on \<open>INT_MAX\<close> is a signed overflow.
\<close>

function for_loop :: "int \<Rightarrow> nat \<Rightarrow> (int \<Rightarrow> 's \<Rightarrow> 's option) \<Rightarrow> 's \<Rightarrow> 's option" where
  "for_loop i n body s =
     (if to_uint32 i < n then
        (case body i s of
           None \<Rightarrow> None
         | Some s' \<Rightarrow> if INT_MAX \<le> i then None else for_loop (i + 1) n body s')
      else Some s)"
  by pat_completeness auto
termination
  by (relation "measure (\<lambda>(i, n, body, s). nat (INT_MAX - i))") auto

declare for_loop.simps [simp del]

subsection \<open>The null bitmap\<close>

text \<open>
  \<^verbatim>\<open>inline int GetNullsRequiredSize(int numVals) { return (numvals + 7) / 8; }\<close>
  (the source spells the variable \<^verbatim>\<open>numvals\<close> in the body). The addition is a signed
  overflow above \<open>INT_MAX - 7\<close>; the division truncates.
\<close>

definition GetNullsRequiredSize :: "int \<Rightarrow> int option" where
  "GetNullsRequiredSize numVals =
     (if INT_MAX < numVals + 7 then None else Some ((numVals + 7) sdiv 8))"

text \<open>\<^verbatim>\<open>DCHECK_LE(a, nulls->size())\<close> with \<open>a\<close> an \<^verbatim>\<open>int\<close>: \<open>a\<close> is converted to \<^verbatim>\<open>size_t\<close>.\<close>

definition DCHECK_LE_size :: "int \<Rightarrow> nat \<Rightarrow> unit option" where
  "DCHECK_LE_size a sz = (if 0 \<le> a \<and> nat a \<le> sz then Some () else None)"

definition SetNullsSize :: "nat \<Rightarrow> bytes \<Rightarrow> bytes option" where
  "SetNullsSize new_size nulls =
     do { n \<leftarrow> GetNullsRequiredSize (to_int new_size); resize n 0 nulls }"

text \<open>
  \<^verbatim>\<open>(*nulls)[row_idx / 8] |= (1 << mod_8) * is_null\<close>: the byte is promoted to \<^verbatim>\<open>int\<close>,
  or-ed with the mask and cut back to a byte. An index outside the string is undefined.
\<close>

definition or_bit :: "nat \<Rightarrow> bool \<Rightarrow> bytes \<Rightarrow> bytes option" where
  "or_bit row_idx is_null nulls =
     (let mod_8 = row_idx mod 8 in
      if row_idx div 8 < length nulls
      then Some (nulls[row_idx div 8 :=
             word_of_int (sint (nulls ! (row_idx div 8)) OR push_bit mod_8 1 * of_bool is_null)])
      else None)"

definition SetNullBit :: "nat \<Rightarrow> bool \<Rightarrow> bytes \<Rightarrow> bytes option" where
  "SetNullBit row_idx is_null nulls =
     do {
       r \<leftarrow> GetNullsRequiredSize (to_int row_idx);
       _ \<leftarrow> DCHECK_LE_size r (length nulls);
       or_bit row_idx is_null (if row_idx mod 8 = 0 then nulls @ [0] else nulls)
     }"

definition SetNullBitNoResize :: "nat \<Rightarrow> bool \<Rightarrow> bytes \<Rightarrow> bytes option" where
  "SetNullBitNoResize row_idx is_null nulls =
     do {
       r \<leftarrow> GetNullsRequiredSize (to_int ((row_idx + 1) mod 2 ^ 32));
       _ \<leftarrow> DCHECK_LE_size r (length nulls);
       or_bit row_idx is_null nulls
     }"

definition GetNullBit :: "bytes \<Rightarrow> nat \<Rightarrow> bool option" where
  "GetNullBit nulls row_idx =
     do {
       r \<leftarrow> GetNullsRequiredSize (to_int ((row_idx + 1) mod 2 ^ 32));
       _ \<leftarrow> DCHECK_LE_size r (length nulls);
       if row_idx div 8 < length nulls
       then Some (sint (nulls ! (row_idx div 8)) AND push_bit (row_idx mod 8) 1 \<noteq> 0)
       else None
     }"

text \<open>
  \<^verbatim>\<open>StitchNulls\<close>: \<^verbatim>\<open>to->reserve(...)\<close> changes the capacity only; the loop copies bit by bit.
  In \<^verbatim>\<open>num_rows_before + i\<close> and \<^verbatim>\<open>i + start_idx\<close> the \<^verbatim>\<open>int\<close> \<open>i\<close> is converted to
  \<^verbatim>\<open>uint32_t\<close> and the sum wraps.
\<close>

definition StitchNulls :: "nat \<Rightarrow> nat \<Rightarrow> nat \<Rightarrow> bytes \<Rightarrow> bytes \<Rightarrow> bytes option" where
  "StitchNulls num_rows_before num_rows_added start_idx from_nulls to_nulls =
     for_loop 0 num_rows_added
       (\<lambda>i to_nulls. do {
          b \<leftarrow> GetNullBit from_nulls (to_uint32 (i + int start_idx));
          SetNullBit (to_uint32 (int num_rows_before + i)) b to_nulls
        })
       to_nulls"

subsection \<open>Thrift types\<close>

text \<open>
  The Thrift structures that \<^verbatim>\<open>hs2-util.cc\<close> reads and writes are declared in generated
  headers outside the file; they are records here. A field keeps its Thrift name behind a
  prefix for its structure (\<open>st_\<close> for \<^verbatim>\<open>TScalarType\<close>, \<open>tn_\<close> for \<^verbatim>\<open>TTypeNode\<close>, \<open>col_\<close> for the
  typed columns \<^verbatim>\<open>TBoolColumn\<close>, ..., \<^verbatim>\<open>TStringColumn\<close>, \<open>val_\<close> for the typed values
  \<^verbatim>\<open>TBoolValue\<close>, ..., \<^verbatim>\<open>TStringValue\<close>, \<open>cv_\<close> for the HiveServer2 \<^verbatim>\<open>TColumnValue\<close>), and a
  member \<^verbatim>\<open>__isset.f\<close> is the field \<open>isset_f\<close>. A \<^verbatim>\<open>double\<close> is a real number and a \<^verbatim>\<open>float\<close>
  is the real number it widens to; no function of this file computes with them.
\<close>

datatype TPrimitiveType =
  INVALID_TYPE | NULL_TYPE | BOOLEAN | TINYINT | SMALLINT | INT | BIGINT | FLOAT | DOUBLE
  | DATE | DATETIME | TIMESTAMP | STRING | BINARY | DECIMAL | CHAR | VARCHAR

datatype TTypeNodeType = SCALAR | ARRAY | MAP | STRUCT

record TScalarType =
  st_type :: TPrimitiveType
  st_len :: int
  st_precision :: int
  st_scale :: int

record TTypeNode =
  tn_type :: TTypeNodeType
  tn_scalar_type :: TScalarType
  tn_isset_scalar_type :: bool

record TColumnType =
  types :: "TTypeNode list"

text \<open>Impala's own \<^verbatim>\<open>TColumnValue\<close>, the pre-decoded value of one row.\<close>

record TColumnValue =
  bool_val :: bool
  byte_val :: "8 word"
  short_val :: "16 word"
  int_val :: "32 word"
  long_val :: "64 word"
  double_val :: real
  string_val :: string
  isset_bool_val :: bool
  isset_byte_val :: bool
  isset_short_val :: bool
  isset_int_val :: bool
  isset_long_val :: bool
  isset_double_val :: bool
  isset_string_val :: bool

text \<open>HiveServer2's columnar \<^verbatim>\<open>TColumn\<close>: for each family a value array and a null bitmap.\<close>

record 'a TTypedColumn =
  col_values :: "'a list"
  col_nulls :: bytes

record TColumn =
  boolVal :: "bool TTypedColumn"
  byteVal :: "8 word TTypedColumn"
  i16Val :: "16 word TTypedColumn"
  i32Val :: "32 word TTypedColumn"
  i64Val :: "64 word TTypedColumn"
  doubleVal :: "real TTypedColumn"
  stringVal :: "string TTypedColumn"

text \<open>HiveServer2's legacy \<^verbatim>\<open>TColumnValue\<close>: for each variant a selection flag and a typed value.\<close>

record 'a TValue =
  val_value :: 'a
  val_isset_value :: bool

record hs2_TColumnValue =
  cv_boolVal :: "bool TValue"
  cv_byteVal :: "8 word TValue"
  cv_i16Val :: "16 word TValue"
  cv_i32Val :: "32 word TValue"
  cv_i64Val :: "64 word TValue"
  cv_doubleVal :: "real TValue"
  cv_stringVal :: "string TValue"
  cv_isset_boolVal :: bool
  cv_isset_byteVal :: bool
  cv_isset_i16Val :: bool
  cv_isset_i32Val :: bool
  cv_isset_i64Val :: bool
  cv_isset_doubleVal :: bool
  cv_isset_stringVal :: bool

subsection \<open>Values of the execution engine\<close>

text \<open>
  An expression value is a \<^verbatim>\<open>void*\<close>: \<^verbatim>\<open>NULL\<close> (\<open>None\<close>) or a pointer to a value whose layout
  the column type decides. The pointee is one of the layouts that the file casts to. A
  \<^verbatim>\<open>char*\<close> is the string of the characters that can be read from it.
\<close>

type_synonym TimestampValue = "64 word \<times> 32 word"

datatype StringValue = StringValue string int

datatype raw_value =
  Bool bool | Int8 "8 word" | Int16 "16 word" | Int32 "32 word" | Int64 "64 word"
  | Float real | Double real | Timestamp TimestampValue | String StringValue | CharSlot string
  | Decimal4 "32 word" | Decimal8 "64 word" | Decimal16 "128 word"

text \<open>
  \<^verbatim>\<open>*reinterpret_cast<const T*>(value)\<close>: the model has a result where the pointee has the
  layout \<open>T\<close>, and none where the cast would read another layout.
\<close>

fun as_bool :: "raw_value \<Rightarrow> bool option" where
  "as_bool (Bool b) = Some b" | "as_bool _ = None"

fun as_int8 :: "raw_value \<Rightarrow> 8 word option" where
  "as_int8 (Int8 x) = Some x" | "as_int8 _ = None"

fun as_int16 :: "raw_value \<Rightarrow> 16 word option" where
  "as_int16 (Int16 x) = Some x" | "as_int16 _ = None"

fun as_int32 :: "raw_value \<Rightarrow> 32 word option" where
  "as_int32 (Int32 x) = Some x" | "as_int32 _ = None"

fun as_int64 :: "raw_value \<Rightarrow> 64 word option" where
  "as_int64 (Int64 x) = Some x" | "as_int64 _ = None"

fun as_float :: "raw_value \<Rightarrow> real option" where
  "as_float (Float x) = Some x" | "as_float _ = None"

fun as_double :: "raw_value \<Rightarrow> real option" where
  "as_double (Double x) = Some x" | "as_double _ = None"

fun as_timestamp :: "raw_value \<Rightarrow> TimestampValue option" where
  "as_timestamp (Timestamp x) = Some x" | "as_timestamp _ = None"

fun as_string :: "raw_value \<Rightarrow> StringValue option" where
  "as_string (String x) = Some x" | "as_string _ = None"

fun as_decimal4 :: "raw_value \<Rightarrow> 32 word option" where
  "as_decimal4 (Decimal4 x) = Some x" | "as_decimal4 _ = None"

fun as_decimal8 :: "raw_value \<Rightarrow> 64 word option" where
  "as_decimal8 (Decimal8 x) = Some x" | "as_decimal8 _ = None"

fun as_decimal16 :: "raw_value \<Rightarrow> 128 word option" where
  "as_decimal16 (Decimal16 x) = Some x" | "as_decimal16 _ = None"

text \<open>
  \<^verbatim>\<open>std::string::assign(const char* s, size_t n)\<close> with an \<^verbatim>\<open>int\<close> count: a negative count is
  converted to more than \<^verbatim>\<open>max_size()\<close>, and a count beyond the characters at \<open>s\<close> reads outside
  the buffer.
\<close>

definition assign :: "string \<Rightarrow> int \<Rightarrow> string option" where
  "assign s n = (if 0 \<le> n \<and> nat n \<le> length s then Some (take (nat n) s) else None)"

text \<open>
  Modelled from the spec: \<^verbatim>\<open>ColumnType\<close>, \<^verbatim>\<open>ColumnType::CreateCharType\<close> and
  \<^verbatim>\<open>ColumnType::FromThrift\<close> (\<^verbatim>\<open>runtime/types.h\<close>) are not in the source. A column type carries
  the tag, the length of \<open>char(N)\<close> and the precision and scale of \<open>decimal(P,S)\<close>, as the
  Thrift scalar type does.
\<close>

type_synonym ColumnType = TScalarType

definition CreateCharType :: "int \<Rightarrow> ColumnType" where
  "CreateCharType n =
     \<lparr>st_type = TPrimitiveType.CHAR, st_len = n, st_precision = - 1, st_scale = - 1\<rparr>"

definition FromThrift :: "TTypeNode \<Rightarrow> ColumnType" where
  "FromThrift node = tn_scalar_type node"

text \<open>
  Modelled from the spec: \<^verbatim>\<open>StringValue::CharSlotToPtr\<close> (\<^verbatim>\<open>runtime/string-value.h\<close>) is not in
  the source. It is the length-aware slot accessor: it yields the pointer to the characters
  of a fixed-width character slot.
\<close>

fun CharSlotToPtr :: "raw_value \<Rightarrow> ColumnType \<Rightarrow> string option" where
  "CharSlotToPtr (CharSlot s) char_type = Some s"
| "CharSlotToPtr _ char_type = None"

text \<open>
  The formatters that the file calls and does not define are parameters: the timestamp
  printer \<^verbatim>\<open>RawValue::PrintValue(value, TYPE_TIMESTAMP, -1, &str)\<close>, the three
  \<^verbatim>\<open>DecimalValue::ToString\<close>, \<^verbatim>\<open>ColumnType::GetByteSize\<close>, and the \<^verbatim>\<open>operator<<\<close> of a stream
  for a \<^verbatim>\<open>double\<close>.
\<close>

record host =
  PrintValue_TIMESTAMP :: "TimestampValue \<Rightarrow> string"
  Decimal4Value_ToString :: "32 word \<Rightarrow> ColumnType \<Rightarrow> string"
  Decimal8Value_ToString :: "64 word \<Rightarrow> ColumnType \<Rightarrow> string"
  Decimal16Value_ToString :: "128 word \<Rightarrow> ColumnType \<Rightarrow> string"
  GetByteSize :: "ColumnType \<Rightarrow> int"
  print_double :: "real \<Rightarrow> string"

definition DCHECK :: "bool \<Rightarrow> unit option" where
  "DCHECK b = (if b then Some () else None)"

text \<open>\<^verbatim>\<open>type.types[0]\<close>: the first element of the vector, undefined on an empty one.\<close>

definition types_0 :: "TColumnType \<Rightarrow> TTypeNode option" where
  "types_0 type = (case types type of [] \<Rightarrow> None | node # _ \<Rightarrow> Some node)"

text \<open>
  The decimal branch shared by the converters of expression values:
  \<^verbatim>\<open>switch (decimalType.GetByteSize())\<close> with the cases 4, 8 and 16 and a \<^verbatim>\<open>DCHECK(false)\<close>
  default.
\<close>

definition decimal_ToString :: "host \<Rightarrow> ColumnType \<Rightarrow> raw_value \<Rightarrow> string option" where
  "decimal_ToString h decimalType v =
     (if GetByteSize h decimalType = 4 then
        do { d \<leftarrow> as_decimal4 v; Some (Decimal4Value_ToString h d decimalType) }
      else if GetByteSize h decimalType = 8 then
        do { d \<leftarrow> as_decimal8 v; Some (Decimal8Value_ToString h d decimalType) }
      else if GetByteSize h decimalType = 16 then
        do { d \<leftarrow> as_decimal16 v; Some (Decimal16Value_ToString h d decimalType) }
      else None)"

subsection \<open>The legacy converters (protocol versions 1 to 5)\<close>

text \<open>
  \<^verbatim>\<open>ColumnType::FromThrift(type)\<close> reads the scalar type of the first node.
\<close>

definition FromThrift_type :: "TColumnType \<Rightarrow> ColumnType option" where
  "FromThrift_type type = map_option FromThrift (types_0 type)"

text \<open>
  \<^verbatim>\<open>if (not_null) lhs = rhs(value);\<close> gives the new content of \<open>lhs\<close>: the old content for a
  \<^verbatim>\<open>NULL\<close> value, and otherwise what the right-hand side reads through the pointer.
\<close>

definition if_not_null :: "raw_value option \<Rightarrow> (raw_value \<Rightarrow> 'a option) \<Rightarrow> 'a \<Rightarrow> 'a option" where
  "if_not_null value rhs old = (case value of None \<Rightarrow> Some old | Some p \<Rightarrow> rhs p)"

definition assign_StringValue :: "raw_value \<Rightarrow> string option" where
  "assign_StringValue p =
     do { str_val \<leftarrow> as_string p; case str_val of StringValue ptr len \<Rightarrow> assign ptr len }"

definition assign_CharSlot :: "ColumnType \<Rightarrow> raw_value \<Rightarrow> string option" where
  "assign_CharSlot char_type p =
     do { ptr \<leftarrow> CharSlotToPtr p char_type; assign ptr (st_len char_type) }"

definition PrintValue_timestamp :: "host \<Rightarrow> raw_value \<Rightarrow> string option" where
  "PrintValue_timestamp h p = map_option (PrintValue_TIMESTAMP h) (as_timestamp p)"

definition TColumnValueToHS2TColumnValue ::
  "TColumnValue \<Rightarrow> TColumnType \<Rightarrow> hs2_TColumnValue \<Rightarrow> hs2_TColumnValue option" where
  "TColumnValueToHS2TColumnValue col_val type hs2_col_val =
     do {
       _ \<leftarrow> DCHECK (length (types type) = 1);
       node \<leftarrow> types_0 type;
       _ \<leftarrow> DCHECK (tn_type node = SCALAR);
       _ \<leftarrow> DCHECK (tn_isset_scalar_type node);
       let string_case = Some (hs2_col_val
             \<lparr>cv_isset_stringVal := True,
              cv_stringVal := \<lparr>val_value = (if isset_string_val col_val then string_val col_val
                                             else val_value (cv_stringVal hs2_col_val)),
                              val_isset_value = isset_string_val col_val\<rparr>\<rparr>);
           double_case = Some (hs2_col_val
             \<lparr>cv_isset_doubleVal := True,
              cv_doubleVal := \<lparr>val_value = double_val col_val,
                              val_isset_value = isset_double_val col_val\<rparr>\<rparr>)
       in
       case st_type (tn_scalar_type node) of
         TPrimitiveType.BOOLEAN \<Rightarrow>
           Some (hs2_col_val
             \<lparr>cv_isset_boolVal := True,
              cv_boolVal := \<lparr>val_value = bool_val col_val,
                            val_isset_value = isset_bool_val col_val\<rparr>\<rparr>)
       | TPrimitiveType.TINYINT \<Rightarrow>
           Some (hs2_col_val
             \<lparr>cv_isset_byteVal := True,
              cv_byteVal := \<lparr>val_value = byte_val col_val,
                            val_isset_value = isset_byte_val col_val\<rparr>\<rparr>)
       | TPrimitiveType.SMALLINT \<Rightarrow>
           Some (hs2_col_val
             \<lparr>cv_isset_i16Val := True,
              cv_i16Val := \<lparr>val_value = short_val col_val,
                           val_isset_value = isset_short_val col_val\<rparr>\<rparr>)
       | TPrimitiveType.INT \<Rightarrow>
           Some (hs2_col_val
             \<lparr>cv_isset_i32Val := True,
              cv_i32Val := \<lparr>val_value = int_val col_val,
                           val_isset_value = isset_int_val col_val\<rparr>\<rparr>)
       | TPrimitiveType.BIGINT \<Rightarrow>
           Some (hs2_col_val
             \<lparr>cv_isset_i64Val := True,
              cv_i64Val := \<lparr>val_value = long_val col_val,
                           val_isset_value = isset_long_val col_val\<rparr>\<rparr>)
       | TPrimitiveType.FLOAT \<Rightarrow> double_case
       | TPrimitiveType.DOUBLE \<Rightarrow> double_case
       | TPrimitiveType.DECIMAL \<Rightarrow> string_case
       | TPrimitiveType.STRING \<Rightarrow> string_case
       | TPrimitiveType.TIMESTAMP \<Rightarrow> string_case
       | TPrimitiveType.VARCHAR \<Rightarrow> string_case
       | TPrimitiveType.CHAR \<Rightarrow> string_case
       | _ \<Rightarrow> None
     }"

definition ExprValueToHS2TColumnValue ::
  "host \<Rightarrow> raw_value option \<Rightarrow> TColumnType \<Rightarrow> hs2_TColumnValue \<Rightarrow> hs2_TColumnValue option" where
  "ExprValueToHS2TColumnValue h value type hs2_col_val =
     (let not_null = (value \<noteq> None) in
      do {
        _ \<leftarrow> DCHECK (length (types type) = 1);
        node \<leftarrow> types_0 type;
        _ \<leftarrow> DCHECK (tn_type node = SCALAR);
        _ \<leftarrow> DCHECK (tn_isset_scalar_type node);
        let string_case = (\<lambda>rhs. do {
              x \<leftarrow> if_not_null value rhs (val_value (cv_stringVal hs2_col_val));
              Some (hs2_col_val
                \<lparr>cv_isset_stringVal := True,
                 cv_stringVal := \<lparr>val_value = x, val_isset_value = not_null\<rparr>\<rparr>)
            });
            double_case = (\<lambda>rhs. do {
              x \<leftarrow> if_not_null value rhs (val_value (cv_doubleVal hs2_col_val));
              Some (hs2_col_val
                \<lparr>cv_isset_doubleVal := True,
                 cv_doubleVal := \<lparr>val_value = x, val_isset_value = not_null\<rparr>\<rparr>)
            })
        in
        case st_type (tn_scalar_type node) of
          TPrimitiveType.NULL_TYPE \<Rightarrow>
            Some (hs2_col_val
              \<lparr>cv_isset_boolVal := True,
               cv_boolVal := (cv_boolVal hs2_col_val)\<lparr>val_isset_value := False\<rparr>\<rparr>)
        | TPrimitiveType.BOOLEAN \<Rightarrow> do {
            x \<leftarrow> if_not_null value as_bool (val_value (cv_boolVal hs2_col_val));
            Some (hs2_col_val
              \<lparr>cv_isset_boolVal := True,
               cv_boolVal := \<lparr>val_value = x, val_isset_value = not_null\<rparr>\<rparr>)
          }
        | TPrimitiveType.TINYINT \<Rightarrow> do {
            x \<leftarrow> if_not_null value as_int8 (val_value (cv_byteVal hs2_col_val));
            Some (hs2_col_val
              \<lparr>cv_isset_byteVal := True,
               cv_byteVal := \<lparr>val_value = x, val_isset_value = not_null\<rparr>\<rparr>)
          }
        | TPrimitiveType.SMALLINT \<Rightarrow> do {
            x \<leftarrow> if_not_null value as_int16 (val_value (cv_i16Val hs2_col_val));
            Some (hs2_col_val
              \<lparr>cv_isset_i16Val := True,
               cv_i16Val := \<lparr>val_value = x, val_isset_value = not_null\<rparr>\<rparr>)
          }
        | TPrimitiveType.INT \<Rightarrow> do {
            x \<leftarrow> if_not_null value as_int32 (val_value (cv_i32Val hs2_col_val));
            Some (hs2_col_val
              \<lparr>cv_isset_i32Val := True,
               cv_i32Val := \<lparr>val_value = x, val_isset_value = not_null\<rparr>\<rparr>)
          }
        | TPrimitiveType.BIGINT \<Rightarrow> do {
            x \<leftarrow> if_not_null value as_int64 (val_value (cv_i64Val hs2_col_val));
            Some (hs2_col_val
              \<lparr>cv_isset_i64Val := True,
               cv_i64Val := \<lparr>val_value = x, val_isset_value = not_null\<rparr>\<rparr>)
          }
        | TPrimitiveType.FLOAT \<Rightarrow> double_case as_float
        | TPrimitiveType.DOUBLE \<Rightarrow> double_case as_double
        | TPrimitiveType.STRING \<Rightarrow> string_case assign_StringValue
        | TPrimitiveType.VARCHAR \<Rightarrow> string_case assign_StringValue
        | TPrimitiveType.CHAR \<Rightarrow>
            string_case (assign_CharSlot (CreateCharType (st_len (tn_scalar_type node))))
        | TPrimitiveType.TIMESTAMP \<Rightarrow> string_case (PrintValue_timestamp h)
        | TPrimitiveType.DECIMAL \<Rightarrow> do {
            decimalType \<leftarrow> FromThrift_type type;
            string_case (decimal_ToString h decimalType)
          }
        | _ \<Rightarrow> None
      })"

subsection \<open>The printer of a legacy value\<close>

text \<open>
  \<^verbatim>\<open>stream << n\<close> for an integer \<open>n\<close>, in the default decimal format of a stream: the digits,
  after a minus sign for a negative number.
\<close>

fun nat_digits :: "nat \<Rightarrow> string" where
  "nat_digits n =
     (if n < 10 then [''0123456789'' ! n]
      else nat_digits (n div 10) @ [''0123456789'' ! (n mod 10)])"

definition print_int :: "int \<Rightarrow> string" where
  "print_int i = (if i < 0 then CHR ''-'' # nat_digits (nat (- i)) else nat_digits (nat i))"

text \<open>
  \<^verbatim>\<open>PrintVal<T>\<close>: the template takes the \<^verbatim>\<open>operator<<\<close> of \<open>T\<close>; a stream is the text written
  to it so far.
\<close>

definition PrintVal :: "('a \<Rightarrow> string) \<Rightarrow> 'a TValue \<Rightarrow> string \<Rightarrow> string" where
  "PrintVal shift val ss =
     (if val_isset_value val then ss @ shift (val_value val) else ss @ ''NULL'')"

text \<open>The specialisation for \<^verbatim>\<open>TByteValue\<close>, with its \<^verbatim>\<open>static_cast<int16_t>\<close>.\<close>

definition PrintVal_TByteValue :: "8 word TValue \<Rightarrow> string \<Rightarrow> string" where
  "PrintVal_TByteValue val ss =
     (if val_isset_value val then ss @ print_int (sint (scast (val_value val) :: 16 word))
      else ss @ ''NULL'')"

definition PrintTColumnValue :: "host \<Rightarrow> hs2_TColumnValue \<Rightarrow> string \<Rightarrow> string" where
  "PrintTColumnValue h colval out =
     (if cv_isset_boolVal colval then
        (if val_isset_value (cv_boolVal colval)
         then out @ (if val_value (cv_boolVal colval) then ''true'' else ''false'')
         else out @ ''NULL'')
      else if cv_isset_doubleVal colval then PrintVal (print_double h) (cv_doubleVal colval) out
      else if cv_isset_byteVal colval then PrintVal_TByteValue (cv_byteVal colval) out
      else if cv_isset_i32Val colval then PrintVal (\<lambda>x. print_int (sint x)) (cv_i32Val colval) out
      else if cv_isset_i16Val colval then PrintVal (\<lambda>x. print_int (sint x)) (cv_i16Val colval) out
      else if cv_isset_i64Val colval then PrintVal (\<lambda>x. print_int (sint x)) (cv_i64Val colval) out
      else if cv_isset_stringVal colval then PrintVal (\<lambda>x. x) (cv_stringVal colval) out
      else out @ ''NULL'')"

declare nat_digits.simps [simp del]

subsection \<open>The variants of a legacy value, in the words of the specification\<close>

text \<open>
  The variants of the legacy value, the selection flag and the value-presence flag of each,
  and the printer as the specification describes it: the first selected variant in the
  order boolean, double, byte, int32, int16, int64, text is rendered, and \<open>NULL\<close> is
  written if there is none or if its value is absent.
\<close>

datatype variant =
  BoolVariant | DoubleVariant | ByteVariant | I32Variant | I16Variant | I64Variant | StringVariant

fun selected :: "hs2_TColumnValue \<Rightarrow> variant \<Rightarrow> bool" where
  "selected c BoolVariant = cv_isset_boolVal c"
| "selected c DoubleVariant = cv_isset_doubleVal c"
| "selected c ByteVariant = cv_isset_byteVal c"
| "selected c I32Variant = cv_isset_i32Val c"
| "selected c I16Variant = cv_isset_i16Val c"
| "selected c I64Variant = cv_isset_i64Val c"
| "selected c StringVariant = cv_isset_stringVal c"

fun present :: "hs2_TColumnValue \<Rightarrow> variant \<Rightarrow> bool" where
  "present c BoolVariant = val_isset_value (cv_boolVal c)"
| "present c DoubleVariant = val_isset_value (cv_doubleVal c)"
| "present c ByteVariant = val_isset_value (cv_byteVal c)"
| "present c I32Variant = val_isset_value (cv_i32Val c)"
| "present c I16Variant = val_isset_value (cv_i16Val c)"
| "present c I64Variant = val_isset_value (cv_i64Val c)"
| "present c StringVariant = val_isset_value (cv_stringVal c)"

definition spec_printer_order :: "variant list" where
  "spec_printer_order =
     [BoolVariant, DoubleVariant, ByteVariant, I32Variant, I16Variant, I64Variant, StringVariant]"

fun spec_render :: "host \<Rightarrow> hs2_TColumnValue \<Rightarrow> variant \<Rightarrow> string" where
  "spec_render h c BoolVariant = (if val_value (cv_boolVal c) then ''true'' else ''false'')"
| "spec_render h c DoubleVariant = print_double h (val_value (cv_doubleVal c))"
| "spec_render h c ByteVariant = print_int (sint (val_value (cv_byteVal c)))"
| "spec_render h c I32Variant = print_int (sint (val_value (cv_i32Val c)))"
| "spec_render h c I16Variant = print_int (sint (val_value (cv_i16Val c)))"
| "spec_render h c I64Variant = print_int (sint (val_value (cv_i64Val c)))"
| "spec_render h c StringVariant = val_value (cv_stringVal c)"

definition spec_print :: "host \<Rightarrow> hs2_TColumnValue \<Rightarrow> string" where
  "spec_print h c =
     (case find (selected c) spec_printer_order of
        None \<Rightarrow> ''NULL''
      | Some v \<Rightarrow> if present c v then spec_render h c v else ''NULL'')"

text \<open>A default-constructed legacy value, and formatters for the examples.\<close>

definition hs2_TColumnValue_default :: hs2_TColumnValue where
  "hs2_TColumnValue_default =
     \<lparr>cv_boolVal = \<lparr>val_value = False, val_isset_value = False\<rparr>,
      cv_byteVal = \<lparr>val_value = 0, val_isset_value = False\<rparr>,
      cv_i16Val = \<lparr>val_value = 0, val_isset_value = False\<rparr>,
      cv_i32Val = \<lparr>val_value = 0, val_isset_value = False\<rparr>,
      cv_i64Val = \<lparr>val_value = 0, val_isset_value = False\<rparr>,
      cv_doubleVal = \<lparr>val_value = 0, val_isset_value = False\<rparr>,
      cv_stringVal = \<lparr>val_value = [], val_isset_value = False\<rparr>,
      cv_isset_boolVal = False, cv_isset_byteVal = False, cv_isset_i16Val = False,
      cv_isset_i32Val = False, cv_isset_i64Val = False, cv_isset_doubleVal = False,
      cv_isset_stringVal = False\<rparr>"

definition sample_host :: host where
  "sample_host =
     \<lparr>PrintValue_TIMESTAMP = (\<lambda>ts. ''1970-01-01 00:00:00''),
      Decimal4Value_ToString = (\<lambda>d t. print_int (sint d)),
      Decimal8Value_ToString = (\<lambda>d t. print_int (sint d)),
      Decimal16Value_ToString = (\<lambda>d t. print_int (sint d)),
      GetByteSize = (\<lambda>t. if st_precision t \<le> 9 then 4 else if st_precision t \<le> 18 then 8 else 16),
      print_double = (\<lambda>x. ''0'')\<rparr>"

subsection \<open>Families, payloads and well-typed pointers\<close>

text \<open>
  The family of a type tag in the words of the specification: decimal, timestamp, char and
  varchar share the text variant with string, and float shares the double variant with
  double. \<^verbatim>\<open>NULL_TYPE\<close> and the tags that the file does not handle have no family.
\<close>

definition spec_family :: "TPrimitiveType \<Rightarrow> variant option" where
  "spec_family t =
     (case t of
        TPrimitiveType.BOOLEAN \<Rightarrow> Some BoolVariant
      | TPrimitiveType.TINYINT \<Rightarrow> Some ByteVariant
      | TPrimitiveType.SMALLINT \<Rightarrow> Some I16Variant
      | TPrimitiveType.INT \<Rightarrow> Some I32Variant
      | TPrimitiveType.BIGINT \<Rightarrow> Some I64Variant
      | TPrimitiveType.FLOAT \<Rightarrow> Some DoubleVariant
      | TPrimitiveType.DOUBLE \<Rightarrow> Some DoubleVariant
      | TPrimitiveType.STRING \<Rightarrow> Some StringVariant
      | TPrimitiveType.VARCHAR \<Rightarrow> Some StringVariant
      | TPrimitiveType.CHAR \<Rightarrow> Some StringVariant
      | TPrimitiveType.TIMESTAMP \<Rightarrow> Some StringVariant
      | TPrimitiveType.DECIMAL \<Rightarrow> Some StringVariant
      | _ \<Rightarrow> None)"

text \<open>
  The payload of a variant of a legacy value, the corresponding field and flag of an Impala
  \<^verbatim>\<open>TColumnValue\<close>, and the conversion of an expression value that the specification gives
  for each family.
\<close>

datatype payload =
  BoolPayload bool | BytePayload "8 word" | I16Payload "16 word" | I32Payload "32 word"
  | I64Payload "64 word" | DoublePayload real | StringPayload string

fun payload_of :: "hs2_TColumnValue \<Rightarrow> variant \<Rightarrow> payload" where
  "payload_of c BoolVariant = BoolPayload (val_value (cv_boolVal c))"
| "payload_of c DoubleVariant = DoublePayload (val_value (cv_doubleVal c))"
| "payload_of c ByteVariant = BytePayload (val_value (cv_byteVal c))"
| "payload_of c I32Variant = I32Payload (val_value (cv_i32Val c))"
| "payload_of c I16Variant = I16Payload (val_value (cv_i16Val c))"
| "payload_of c I64Variant = I64Payload (val_value (cv_i64Val c))"
| "payload_of c StringVariant = StringPayload (val_value (cv_stringVal c))"

fun source_isset :: "TColumnValue \<Rightarrow> variant \<Rightarrow> bool" where
  "source_isset c BoolVariant = isset_bool_val c"
| "source_isset c DoubleVariant = isset_double_val c"
| "source_isset c ByteVariant = isset_byte_val c"
| "source_isset c I32Variant = isset_int_val c"
| "source_isset c I16Variant = isset_short_val c"
| "source_isset c I64Variant = isset_long_val c"
| "source_isset c StringVariant = isset_string_val c"

fun source_payload :: "TColumnValue \<Rightarrow> variant \<Rightarrow> payload" where
  "source_payload c BoolVariant = BoolPayload (bool_val c)"
| "source_payload c DoubleVariant = DoublePayload (double_val c)"
| "source_payload c ByteVariant = BytePayload (byte_val c)"
| "source_payload c I32Variant = I32Payload (int_val c)"
| "source_payload c I16Variant = I16Payload (short_val c)"
| "source_payload c I64Variant = I64Payload (long_val c)"
| "source_payload c StringVariant = StringPayload (string_val c)"

fun spec_convert :: "host \<Rightarrow> TScalarType \<Rightarrow> raw_value \<Rightarrow> payload" where
  "spec_convert h st (Bool b) = BoolPayload b"
| "spec_convert h st (Int8 x) = BytePayload x"
| "spec_convert h st (Int16 x) = I16Payload x"
| "spec_convert h st (Int32 x) = I32Payload x"
| "spec_convert h st (Int64 x) = I64Payload x"
| "spec_convert h st (Float x) = DoublePayload x"
| "spec_convert h st (Double x) = DoublePayload x"
| "spec_convert h st (Timestamp ts) = StringPayload (PrintValue_TIMESTAMP h ts)"
| "spec_convert h st (String (StringValue ptr len)) = StringPayload (take (nat len) ptr)"
| "spec_convert h st (CharSlot s) = StringPayload (take (nat (st_len st)) s)"
| "spec_convert h st (Decimal4 d) = StringPayload (Decimal4Value_ToString h d st)"
| "spec_convert h st (Decimal8 d) = StringPayload (Decimal8Value_ToString h d st)"
| "spec_convert h st (Decimal16 d) = StringPayload (Decimal16Value_ToString h d st)"

text \<open>
  A pointer is well-typed for a scalar type if it points to a value of the layout that the
  type's branch casts to: a string value whose length is within its buffer, a character
  slot with at least \<open>N\<close> characters for \<open>char(N)\<close>, a decimal of the byte size of the type.
\<close>

definition pointee_ok :: "host \<Rightarrow> TScalarType \<Rightarrow> raw_value \<Rightarrow> bool" where
  "pointee_ok h st p =
     (case st_type st of
        TPrimitiveType.NULL_TYPE \<Rightarrow> (case p of Bool _ \<Rightarrow> True | _ \<Rightarrow> False)
      | TPrimitiveType.BOOLEAN \<Rightarrow> (case p of Bool _ \<Rightarrow> True | _ \<Rightarrow> False)
      | TPrimitiveType.TINYINT \<Rightarrow> (case p of Int8 _ \<Rightarrow> True | _ \<Rightarrow> False)
      | TPrimitiveType.SMALLINT \<Rightarrow> (case p of Int16 _ \<Rightarrow> True | _ \<Rightarrow> False)
      | TPrimitiveType.INT \<Rightarrow> (case p of Int32 _ \<Rightarrow> True | _ \<Rightarrow> False)
      | TPrimitiveType.BIGINT \<Rightarrow> (case p of Int64 _ \<Rightarrow> True | _ \<Rightarrow> False)
      | TPrimitiveType.FLOAT \<Rightarrow> (case p of Float _ \<Rightarrow> True | _ \<Rightarrow> False)
      | TPrimitiveType.DOUBLE \<Rightarrow> (case p of Double _ \<Rightarrow> True | _ \<Rightarrow> False)
      | TPrimitiveType.TIMESTAMP \<Rightarrow> (case p of Timestamp _ \<Rightarrow> True | _ \<Rightarrow> False)
      | TPrimitiveType.STRING \<Rightarrow>
          (case p of String (StringValue ptr len) \<Rightarrow> 0 \<le> len \<and> nat len \<le> length ptr
           | _ \<Rightarrow> False)
      | TPrimitiveType.VARCHAR \<Rightarrow>
          (case p of String (StringValue ptr len) \<Rightarrow> 0 \<le> len \<and> nat len \<le> length ptr
           | _ \<Rightarrow> False)
      | TPrimitiveType.CHAR \<Rightarrow>
          (case p of CharSlot s \<Rightarrow> 0 \<le> st_len st \<and> nat (st_len st) \<le> length s
           | _ \<Rightarrow> False)
      | TPrimitiveType.DECIMAL \<Rightarrow>
          (case p of Decimal4 _ \<Rightarrow> GetByteSize h st = 4
           | Decimal8 _ \<Rightarrow> GetByteSize h st = 8
           | Decimal16 _ \<Rightarrow> GetByteSize h st = 16
           | _ \<Rightarrow> False)
      | _ \<Rightarrow> False)"

text \<open>
  The type descriptor of a scalar column: one node, of kind \<^verbatim>\<open>SCALAR\<close>, with its scalar type
  set. Default-constructed Thrift values.
\<close>

definition scalar_column_type :: "TScalarType \<Rightarrow> TColumnType" where
  "scalar_column_type st =
     \<lparr>types = [\<lparr>tn_type = SCALAR, tn_scalar_type = st, tn_isset_scalar_type = True\<rparr>]\<rparr>"

definition TColumnValue_default :: TColumnValue where
  "TColumnValue_default =
     \<lparr>bool_val = False, byte_val = 0, short_val = 0, int_val = 0, long_val = 0,
      double_val = 0, string_val = [],
      isset_bool_val = False, isset_byte_val = False, isset_short_val = False,
      isset_int_val = False, isset_long_val = False, isset_double_val = False,
      isset_string_val = False\<rparr>"

subsection \<open>The columnar appenders (protocol version 6 and above)\<close>

text \<open>
  Appending one value to a typed column: \<^verbatim>\<open>values.push_back(v)\<close>, then
  \<^verbatim>\<open>SetNullBit(row_idx, is_null, nulls)\<close> at the end of the function, on the null bitmap of the
  same column.
\<close>

definition push_back_value ::
  "'a \<Rightarrow> bool \<Rightarrow> nat \<Rightarrow> 'a TTypedColumn \<Rightarrow> 'a TTypedColumn option" where
  "push_back_value v is_null row_idx col =
     do {
       nulls \<leftarrow> SetNullBit row_idx is_null (col_nulls col);
       Some \<lparr>col_values = col_values col @ [v], col_nulls = nulls\<rparr>
     }"

definition TColumnValueToHS2TColumn ::
  "TColumnValue \<Rightarrow> TColumnType \<Rightarrow> nat \<Rightarrow> TColumn \<Rightarrow> TColumn option" where
  "TColumnValueToHS2TColumn col_val type row_idx column =
     do {
       node \<leftarrow> types_0 type;
       let bool_case = do {
             c \<leftarrow> push_back_value (bool_val col_val) (\<not> isset_bool_val col_val) row_idx
                    (boolVal column);
             Some (column\<lparr>boolVal := c\<rparr>)
           };
           double_case = do {
             c \<leftarrow> push_back_value (double_val col_val) (\<not> isset_double_val col_val) row_idx
                    (doubleVal column);
             Some (column\<lparr>doubleVal := c\<rparr>)
           };
           string_case = do {
             c \<leftarrow> push_back_value (string_val col_val) (\<not> isset_string_val col_val) row_idx
                    (stringVal column);
             Some (column\<lparr>stringVal := c\<rparr>)
           }
       in
       case st_type (tn_scalar_type node) of
         TPrimitiveType.NULL_TYPE \<Rightarrow> bool_case
       | TPrimitiveType.BOOLEAN \<Rightarrow> bool_case
       | TPrimitiveType.TINYINT \<Rightarrow> do {
           c \<leftarrow> push_back_value (byte_val col_val) (\<not> isset_byte_val col_val) row_idx
                  (byteVal column);
           Some (column\<lparr>byteVal := c\<rparr>)
         }
       | TPrimitiveType.SMALLINT \<Rightarrow> do {
           c \<leftarrow> push_back_value (short_val col_val) (\<not> isset_short_val col_val) row_idx
                  (i16Val column);
           Some (column\<lparr>i16Val := c\<rparr>)
         }
       | TPrimitiveType.INT \<Rightarrow> do {
           c \<leftarrow> push_back_value (int_val col_val) (\<not> isset_int_val col_val) row_idx
                  (i32Val column);
           Some (column\<lparr>i32Val := c\<rparr>)
         }
       | TPrimitiveType.BIGINT \<Rightarrow> do {
           c \<leftarrow> push_back_value (long_val col_val) (\<not> isset_long_val col_val) row_idx
                  (i64Val column);
           Some (column\<lparr>i64Val := c\<rparr>)
         }
       | TPrimitiveType.FLOAT \<Rightarrow> double_case
       | TPrimitiveType.DOUBLE \<Rightarrow> double_case
       | TPrimitiveType.TIMESTAMP \<Rightarrow> string_case
       | TPrimitiveType.STRING \<Rightarrow> string_case
       | TPrimitiveType.CHAR \<Rightarrow> string_case
       | TPrimitiveType.VARCHAR \<Rightarrow> string_case
       | TPrimitiveType.DECIMAL \<Rightarrow> string_case
       | _ \<Rightarrow> None
     }"

text \<open>
  \<^verbatim>\<open>value == NULL ? zero : *reinterpret_cast<const T*>(value)\<close>.
\<close>

definition deref_or :: "'a \<Rightarrow> (raw_value \<Rightarrow> 'a option) \<Rightarrow> raw_value option \<Rightarrow> 'a option" where
  "deref_or zero cast value = (case value of None \<Rightarrow> Some zero | Some p \<Rightarrow> cast p)"

definition ExprValueToHS2TColumn ::
  "host \<Rightarrow> raw_value option \<Rightarrow> TColumnType \<Rightarrow> nat \<Rightarrow> TColumn \<Rightarrow> TColumn option" where
  "ExprValueToHS2TColumn h value type row_idx column =
     do {
       node \<leftarrow> types_0 type;
       let bool_case = do {
             v \<leftarrow> deref_or False as_bool value;
             c \<leftarrow> push_back_value v (value = None) row_idx (boolVal column);
             Some (column\<lparr>boolVal := c\<rparr>)
           };
           double_case = (\<lambda>cast. do {
             v \<leftarrow> deref_or 0 cast value;
             c \<leftarrow> push_back_value v (value = None) row_idx (doubleVal column);
             Some (column\<lparr>doubleVal := c\<rparr>)
           });
           string_case = (\<lambda>rhs. do {
             v \<leftarrow> if_not_null value rhs [];
             c \<leftarrow> push_back_value v (value = None) row_idx (stringVal column);
             Some (column\<lparr>stringVal := c\<rparr>)
           })
       in
       case st_type (tn_scalar_type node) of
         TPrimitiveType.NULL_TYPE \<Rightarrow> bool_case
       | TPrimitiveType.BOOLEAN \<Rightarrow> bool_case
       | TPrimitiveType.TINYINT \<Rightarrow> do {
           v \<leftarrow> deref_or 0 as_int8 value;
           c \<leftarrow> push_back_value v (value = None) row_idx (byteVal column);
           Some (column\<lparr>byteVal := c\<rparr>)
         }
       | TPrimitiveType.SMALLINT \<Rightarrow> do {
           v \<leftarrow> deref_or 0 as_int16 value;
           c \<leftarrow> push_back_value v (value = None) row_idx (i16Val column);
           Some (column\<lparr>i16Val := c\<rparr>)
         }
       | TPrimitiveType.INT \<Rightarrow> do {
           v \<leftarrow> deref_or 0 as_int32 value;
           c \<leftarrow> push_back_value v (value = None) row_idx (i32Val column);
           Some (column\<lparr>i32Val := c\<rparr>)
         }
       | TPrimitiveType.BIGINT \<Rightarrow> do {
           v \<leftarrow> deref_or 0 as_int64 value;
           c \<leftarrow> push_back_value v (value = None) row_idx (i64Val column);
           Some (column\<lparr>i64Val := c\<rparr>)
         }
       | TPrimitiveType.FLOAT \<Rightarrow> double_case as_float
       | TPrimitiveType.DOUBLE \<Rightarrow> double_case as_double
       | TPrimitiveType.TIMESTAMP \<Rightarrow> string_case (PrintValue_timestamp h)
       | TPrimitiveType.STRING \<Rightarrow> string_case assign_StringValue
       | TPrimitiveType.VARCHAR \<Rightarrow> string_case assign_StringValue
       | TPrimitiveType.CHAR \<Rightarrow>
           string_case (assign_CharSlot (CreateCharType (st_len (tn_scalar_type node))))
       | TPrimitiveType.DECIMAL \<Rightarrow> do {
           decimalType \<leftarrow> FromThrift_type type;
           string_case (decimal_ToString h decimalType)
         }
       | _ \<Rightarrow> None
     }"

text \<open>
  The bulk appenders share one text: the prologue
  \<^verbatim>\<open>new_size = result_start_idx + num_vals; source_end_idx = src_start_idx + num_vals;
  result_idx = result_start_idx; result.resize(new_size); SetNullsSize(new_size, nulls);\<close>
  and the loop
  \<^verbatim>\<open>for (int i = src_start_idx; i < source_end_idx; ++i) { value = ...; result[result_idx] = ...;
  SetNullBitNoResize(result_idx, ..., nulls); ++result_idx; }\<close>.
  An index outside \<^verbatim>\<open>result\<close> is undefined (\<open>index_in\<close>).
  It is written once, with three parameters: \<open>get\<close> reads the value of source row \<open>i\<close>,
  \<open>store\<close> gives the new content of \<^verbatim>\<open>result[result_idx]\<close> from the value and the old content,
  and \<open>flag\<close> is the third argument of \<^verbatim>\<open>SetNullBitNoResize\<close>. The \<^verbatim>\<open>int\<close> \<^verbatim>\<open>num_vals\<close> is
  converted to \<^verbatim>\<open>uint32_t\<close> in both sums.
\<close>

definition index_in :: "nat \<Rightarrow> 'a list \<Rightarrow> unit option" where
  "index_in i xs = (if i < length xs then Some () else None)"

definition append_range ::
  "(int \<Rightarrow> 'v option) \<Rightarrow> ('v \<Rightarrow> 'a \<Rightarrow> 'a option) \<Rightarrow> ('v \<Rightarrow> bool) \<Rightarrow> 'a
    \<Rightarrow> 'a list \<Rightarrow> bytes \<Rightarrow> nat \<Rightarrow> nat \<Rightarrow> int \<Rightarrow> ('a list \<times> bytes) option" where
  "append_range get store flag zero result nulls src_start_idx result_start_idx num_vals =
     (let new_size = (result_start_idx + to_uint32 num_vals) mod 2 ^ 32;
          source_end_idx = (src_start_idx + to_uint32 num_vals) mod 2 ^ 32;
          result_idx = result_start_idx
      in do {
        result \<leftarrow> resize (int new_size) zero result;
        nulls \<leftarrow> SetNullsSize new_size nulls;
        (result_idx, result, nulls) \<leftarrow>
          for_loop (to_int src_start_idx) source_end_idx
            (\<lambda>i (result_idx, result, nulls). do {
               value \<leftarrow> get i;
               _ \<leftarrow> index_in result_idx result;
               x \<leftarrow> store value (result ! result_idx);
               nulls \<leftarrow> SetNullBitNoResize result_idx (flag value) nulls;
               Some ((result_idx + 1) mod 2 ^ 32, result[result_idx := x], nulls)
             })
            (result_idx, result, nulls);
        Some (result, nulls)
      })"

text \<open>
  \<^verbatim>\<open>expr_ctx->GetValue(batch->GetRow(i))\<close>: the row batch with its expression is the list of
  the values of its rows; a row outside the batch has no value to read.
\<close>

definition GetValue :: "raw_value option list \<Rightarrow> int \<Rightarrow> raw_value option option" where
  "GetValue batch i = (if 0 \<le> i \<and> nat i < length batch then Some (batch ! nat i) else None)"

text \<open>\<^verbatim>\<open>col_vals[i]\<close>, undefined outside the vector.\<close>

definition col_vals_at :: "TColumnValue list \<Rightarrow> int \<Rightarrow> TColumnValue option" where
  "col_vals_at col_vals i =
     (if 0 \<le> i \<and> nat i < length col_vals then Some (col_vals ! nat i) else None)"

text \<open>
  \<^verbatim>\<open>AddValues<S, T>\<close>: \<open>cast\<close> reads an \<open>S\<close>, \<open>zero\<close> is \<^verbatim>\<open>static_cast<S>(0)\<close>, \<open>widen\<close> converts
  an \<open>S\<close> to the element type \<open>T\<close>, whose value-initialised element is \<open>widen zero\<close>.
\<close>

definition AddValues ::
  "(raw_value \<Rightarrow> 's option) \<Rightarrow> 's \<Rightarrow> ('s \<Rightarrow> 't) \<Rightarrow> raw_value option list \<Rightarrow> 't list \<Rightarrow> bytes
    \<Rightarrow> nat \<Rightarrow> nat \<Rightarrow> int \<Rightarrow> ('t list \<times> bytes) option" where
  "AddValues cast zero widen batch result nulls src_start_idx result_start_idx num_vals =
     append_range (GetValue batch)
       (\<lambda>value old. map_option widen (deref_or zero cast value))
       (\<lambda>value. value = None) (widen zero)
       result nulls src_start_idx result_start_idx num_vals"

definition AddDecimalValues ::
  "(raw_value \<Rightarrow> string option) \<Rightarrow> raw_value option list \<Rightarrow> string list \<Rightarrow> bytes
    \<Rightarrow> nat \<Rightarrow> nat \<Rightarrow> int \<Rightarrow> (string list \<times> bytes) option" where
  "AddDecimalValues ToString batch result nulls src_start_idx result_start_idx num_vals =
     append_range (GetValue batch)
       (\<lambda>value old. deref_or [] ToString value)
       (\<lambda>value. value = None) []
       result nulls src_start_idx result_start_idx num_vals"

definition AddTimestampValues ::
  "host \<Rightarrow> raw_value option list \<Rightarrow> string list \<Rightarrow> bytes
    \<Rightarrow> nat \<Rightarrow> nat \<Rightarrow> int \<Rightarrow> (string list \<times> bytes) option" where
  "AddTimestampValues h batch result nulls src_start_idx result_start_idx num_vals =
     append_range (GetValue batch)
       (\<lambda>value old. if_not_null value (PrintValue_timestamp h) old)
       (\<lambda>value. value = None) []
       result nulls src_start_idx result_start_idx num_vals"

definition AddStringValues ::
  "raw_value option list \<Rightarrow> string list \<Rightarrow> bytes
    \<Rightarrow> nat \<Rightarrow> nat \<Rightarrow> int \<Rightarrow> (string list \<times> bytes) option" where
  "AddStringValues batch result nulls src_start_idx result_start_idx num_vals =
     append_range (GetValue batch)
       (\<lambda>value old. if_not_null value assign_StringValue old)
       (\<lambda>value. value = None) []
       result nulls src_start_idx result_start_idx num_vals"

definition AddCharValues ::
  "raw_value option list \<Rightarrow> string list \<Rightarrow> ColumnType \<Rightarrow> bytes
    \<Rightarrow> nat \<Rightarrow> nat \<Rightarrow> int \<Rightarrow> (string list \<times> bytes) option" where
  "AddCharValues batch result char_type nulls src_start_idx result_start_idx num_vals =
     append_range (GetValue batch)
       (\<lambda>value old. if_not_null value (assign_CharSlot char_type) old)
       (\<lambda>value. value = None) []
       result nulls src_start_idx result_start_idx num_vals"

definition ExprValuesToHS2TColumn ::
  "host \<Rightarrow> raw_value option list \<Rightarrow> TColumnType \<Rightarrow> nat \<Rightarrow> nat \<Rightarrow> int \<Rightarrow> TColumn
    \<Rightarrow> TColumn option" where
  "ExprValuesToHS2TColumn h rows type src_start_idx result_start_idx num_vals column =
     do {
       node \<leftarrow> types_0 type;
       let bool_case = do {
             (result, nulls) \<leftarrow> AddValues as_bool False (\<lambda>x. x) rows
                (col_values (boolVal column)) (col_nulls (boolVal column))
                src_start_idx result_start_idx num_vals;
             Some (column\<lparr>boolVal := \<lparr>col_values = result, col_nulls = nulls\<rparr>\<rparr>)
           };
           string_values = (\<lambda>add. do {
             (result, nulls) \<leftarrow> add rows
                (col_values (stringVal column)) (col_nulls (stringVal column))
                src_start_idx result_start_idx num_vals;
             Some (column\<lparr>stringVal := \<lparr>col_values = result, col_nulls = nulls\<rparr>\<rparr>)
           })
       in
       case st_type (tn_scalar_type node) of
         TPrimitiveType.NULL_TYPE \<Rightarrow> bool_case
       | TPrimitiveType.BOOLEAN \<Rightarrow> bool_case
       | TPrimitiveType.TINYINT \<Rightarrow> do {
           (result, nulls) \<leftarrow> AddValues as_int8 0 (\<lambda>x. x) rows
              (col_values (byteVal column)) (col_nulls (byteVal column))
              src_start_idx result_start_idx num_vals;
           Some (column\<lparr>byteVal := \<lparr>col_values = result, col_nulls = nulls\<rparr>\<rparr>)
         }
       | TPrimitiveType.SMALLINT \<Rightarrow> do {
           (result, nulls) \<leftarrow> AddValues as_int16 0 (\<lambda>x. x) rows
              (col_values (i16Val column)) (col_nulls (i16Val column))
              src_start_idx result_start_idx num_vals;
           Some (column\<lparr>i16Val := \<lparr>col_values = result, col_nulls = nulls\<rparr>\<rparr>)
         }
       | TPrimitiveType.INT \<Rightarrow> do {
           (result, nulls) \<leftarrow> AddValues as_int32 0 (\<lambda>x. x) rows
              (col_values (i32Val column)) (col_nulls (i32Val column))
              src_start_idx result_start_idx num_vals;
           Some (column\<lparr>i32Val := \<lparr>col_values = result, col_nulls = nulls\<rparr>\<rparr>)
         }
       | TPrimitiveType.BIGINT \<Rightarrow> do {
           (result, nulls) \<leftarrow> AddValues as_int64 0 (\<lambda>x. x) rows
              (col_values (i64Val column)) (col_nulls (i64Val column))
              src_start_idx result_start_idx num_vals;
           Some (column\<lparr>i64Val := \<lparr>col_values = result, col_nulls = nulls\<rparr>\<rparr>)
         }
       | TPrimitiveType.FLOAT \<Rightarrow> do {
           (result, nulls) \<leftarrow> AddValues as_float 0 (\<lambda>x. x) rows
              (col_values (doubleVal column)) (col_nulls (doubleVal column))
              src_start_idx result_start_idx num_vals;
           Some (column\<lparr>doubleVal := \<lparr>col_values = result, col_nulls = nulls\<rparr>\<rparr>)
         }
       | TPrimitiveType.DOUBLE \<Rightarrow> do {
           (result, nulls) \<leftarrow> AddValues as_double 0 (\<lambda>x. x) rows
              (col_values (doubleVal column)) (col_nulls (doubleVal column))
              src_start_idx result_start_idx num_vals;
           Some (column\<lparr>doubleVal := \<lparr>col_values = result, col_nulls = nulls\<rparr>\<rparr>)
         }
       | TPrimitiveType.TIMESTAMP \<Rightarrow> string_values (AddTimestampValues h)
       | TPrimitiveType.STRING \<Rightarrow> string_values AddStringValues
       | TPrimitiveType.VARCHAR \<Rightarrow> string_values AddStringValues
       | TPrimitiveType.CHAR \<Rightarrow>
           string_values (\<lambda>rows result.
             AddCharValues rows result (CreateCharType (st_len (tn_scalar_type node))))
       | TPrimitiveType.DECIMAL \<Rightarrow> do {
           decimalType \<leftarrow> FromThrift_type type;
           if GetByteSize h decimalType = 4 then
             string_values (AddDecimalValues (\<lambda>p. do {
               d \<leftarrow> as_decimal4 p; Some (Decimal4Value_ToString h d decimalType) }))
           else if GetByteSize h decimalType = 8 then
             string_values (AddDecimalValues (\<lambda>p. do {
               d \<leftarrow> as_decimal8 p; Some (Decimal8Value_ToString h d decimalType) }))
           else if GetByteSize h decimalType = 16 then
             string_values (AddDecimalValues (\<lambda>p. do {
               d \<leftarrow> as_decimal16 p; Some (Decimal16Value_ToString h d decimalType) }))
           else None
         }
       | _ \<Rightarrow> None
     }"

text \<open>
  \<^verbatim>\<open>TColumnValuesToHS2TColumn\<close>. Each branch has the shared text inline, with
  \<^verbatim>\<open>value->__isset.f\<close> as the third argument of \<^verbatim>\<open>SetNullBitNoResize\<close>. The last branch takes
  \<^verbatim>\<open>column->stringVal.values\<close> and \<^verbatim>\<open>column->i64Val.nulls\<close>, and assigns \<^verbatim>\<open>value->long_val\<close> to
  a \<^verbatim>\<open>std::string\<close>: the assignment of a \<^verbatim>\<open>char\<close>, which makes the string of the one character
  with the low eight bits of the number.
\<close>

definition string_of_long :: "64 word \<Rightarrow> string" where
  "string_of_long x =
     [Char (bit x 0) (bit x 1) (bit x 2) (bit x 3) (bit x 4) (bit x 5) (bit x 6) (bit x 7)]"

definition TColumnValuesToHS2TColumn ::
  "TColumnValue list \<Rightarrow> TColumnType \<Rightarrow> nat \<Rightarrow> nat \<Rightarrow> int \<Rightarrow> TColumn \<Rightarrow> TColumn option" where
  "TColumnValuesToHS2TColumn col_vals type src_start_idx result_start_idx num_vals column =
     do {
       node \<leftarrow> types_0 type;
       let bool_case = do {
             (result, nulls) \<leftarrow> append_range (col_vals_at col_vals)
                (\<lambda>value old. Some (bool_val value)) isset_bool_val False
                (col_values (boolVal column)) (col_nulls (boolVal column))
                src_start_idx result_start_idx num_vals;
             Some (column\<lparr>boolVal := \<lparr>col_values = result, col_nulls = nulls\<rparr>\<rparr>)
           };
           double_case = do {
             (result, nulls) \<leftarrow> append_range (col_vals_at col_vals)
                (\<lambda>value old. Some (double_val value)) isset_double_val 0
                (col_values (doubleVal column)) (col_nulls (doubleVal column))
                src_start_idx result_start_idx num_vals;
             Some (column\<lparr>doubleVal := \<lparr>col_values = result, col_nulls = nulls\<rparr>\<rparr>)
           };
           string_case = do {
             (result, nulls) \<leftarrow> append_range (col_vals_at col_vals)
                (\<lambda>value old. Some (string_of_long (long_val value))) isset_long_val []
                (col_values (stringVal column)) (col_nulls (i64Val column))
                src_start_idx result_start_idx num_vals;
             Some (column\<lparr>stringVal := (stringVal column)\<lparr>col_values := result\<rparr>,
                          i64Val := (i64Val column)\<lparr>col_nulls := nulls\<rparr>\<rparr>)
           }
       in
       case st_type (tn_scalar_type node) of
         TPrimitiveType.NULL_TYPE \<Rightarrow> bool_case
       | TPrimitiveType.BOOLEAN \<Rightarrow> bool_case
       | TPrimitiveType.TINYINT \<Rightarrow> do {
           (result, nulls) \<leftarrow> append_range (col_vals_at col_vals)
              (\<lambda>value old. Some (byte_val value)) isset_byte_val 0
              (col_values (byteVal column)) (col_nulls (byteVal column))
              src_start_idx result_start_idx num_vals;
           Some (column\<lparr>byteVal := \<lparr>col_values = result, col_nulls = nulls\<rparr>\<rparr>)
         }
       | TPrimitiveType.SMALLINT \<Rightarrow> do {
           (result, nulls) \<leftarrow> append_range (col_vals_at col_vals)
              (\<lambda>value old. Some (short_val value)) isset_short_val 0
              (col_values (i16Val column)) (col_nulls (i16Val column))
              src_start_idx result_start_idx num_vals;
           Some (column\<lparr>i16Val := \<lparr>col_values = result, col_nulls = nulls\<rparr>\<rparr>)
         }
       | TPrimitiveType.INT \<Rightarrow> do {
           (result, nulls) \<leftarrow> append_range (col_vals_at col_vals)
              (\<lambda>value old. Some (int_val value)) isset_int_val 0
              (col_values (i32Val column)) (col_nulls (i32Val column))
              src_start_idx result_start_idx num_vals;
           Some (column\<lparr>i32Val := \<lparr>col_values = result, col_nulls = nulls\<rparr>\<rparr>)
         }
       | TPrimitiveType.BIGINT \<Rightarrow> do {
           (result, nulls) \<leftarrow> append_range (col_vals_at col_vals)
              (\<lambda>value old. Some (long_val value)) isset_long_val 0
              (col_values (i64Val column)) (col_nulls (i64Val column))
              src_start_idx result_start_idx num_vals;
           Some (column\<lparr>i64Val := \<lparr>col_values = result, col_nulls = nulls\<rparr>\<rparr>)
         }
       | TPrimitiveType.FLOAT \<Rightarrow> double_case
       | TPrimitiveType.DOUBLE \<Rightarrow> double_case
       | TPrimitiveType.TIMESTAMP \<Rightarrow> string_case
       | TPrimitiveType.STRING \<Rightarrow> string_case
       | TPrimitiveType.CHAR \<Rightarrow> string_case
       | TPrimitiveType.VARCHAR \<Rightarrow> string_case
       | TPrimitiveType.DECIMAL \<Rightarrow> string_case
       | _ \<Rightarrow> None
     }"

definition TColumn_empty :: TColumn where
  "TColumn_empty =
     \<lparr>boolVal = \<lparr>col_values = [], col_nulls = []\<rparr>,
      byteVal = \<lparr>col_values = [], col_nulls = []\<rparr>,
      i16Val = \<lparr>col_values = [], col_nulls = []\<rparr>,
      i32Val = \<lparr>col_values = [], col_nulls = []\<rparr>,
      i64Val = \<lparr>col_values = [], col_nulls = []\<rparr>,
      doubleVal = \<lparr>col_values = [], col_nulls = []\<rparr>,
      stringVal = \<lparr>col_values = [], col_nulls = []\<rparr>\<rparr>"

subsection \<open>Columns and cells, in the words of the specification\<close>

text \<open>
  The placeholder of a family for a null row (zero or the empty text), the cell that the
  specification requires for a row value, and the value array and the null bitmap of a
  family in a column.
\<close>

fun spec_placeholder :: "variant \<Rightarrow> payload" where
  "spec_placeholder BoolVariant = BoolPayload False"
| "spec_placeholder DoubleVariant = DoublePayload 0"
| "spec_placeholder ByteVariant = BytePayload 0"
| "spec_placeholder I32Variant = I32Payload 0"
| "spec_placeholder I16Variant = I16Payload 0"
| "spec_placeholder I64Variant = I64Payload 0"
| "spec_placeholder StringVariant = StringPayload []"

definition spec_cell :: "host \<Rightarrow> TScalarType \<Rightarrow> variant \<Rightarrow> raw_value option \<Rightarrow> payload" where
  "spec_cell h st v value =
     (case value of None \<Rightarrow> spec_placeholder v | Some p \<Rightarrow> spec_convert h st p)"

fun column_payloads :: "variant \<Rightarrow> TColumn \<Rightarrow> payload list" where
  "column_payloads BoolVariant column = map BoolPayload (col_values (boolVal column))"
| "column_payloads DoubleVariant column = map DoublePayload (col_values (doubleVal column))"
| "column_payloads ByteVariant column = map BytePayload (col_values (byteVal column))"
| "column_payloads I32Variant column = map I32Payload (col_values (i32Val column))"
| "column_payloads I16Variant column = map I16Payload (col_values (i16Val column))"
| "column_payloads I64Variant column = map I64Payload (col_values (i64Val column))"
| "column_payloads StringVariant column = map StringPayload (col_values (stringVal column))"

fun column_nulls :: "variant \<Rightarrow> TColumn \<Rightarrow> bytes" where
  "column_nulls BoolVariant column = col_nulls (boolVal column)"
| "column_nulls DoubleVariant column = col_nulls (doubleVal column)"
| "column_nulls ByteVariant column = col_nulls (byteVal column)"
| "column_nulls I32Variant column = col_nulls (i32Val column)"
| "column_nulls I16Variant column = col_nulls (i16Val column)"
| "column_nulls I64Variant column = col_nulls (i64Val column)"
| "column_nulls StringVariant column = col_nulls (stringVal column)"

text \<open>The content of a payload of a known variant.\<close>

fun bool_of :: "payload \<Rightarrow> bool" where
  "bool_of (BoolPayload x) = x" | "bool_of _ = False"

fun byte_of :: "payload \<Rightarrow> 8 word" where
  "byte_of (BytePayload x) = x" | "byte_of _ = 0"

fun i16_of :: "payload \<Rightarrow> 16 word" where
  "i16_of (I16Payload x) = x" | "i16_of _ = 0"

fun i32_of :: "payload \<Rightarrow> 32 word" where
  "i32_of (I32Payload x) = x" | "i32_of _ = 0"

fun i64_of :: "payload \<Rightarrow> 64 word" where
  "i64_of (I64Payload x) = x" | "i64_of _ = 0"

fun double_of :: "payload \<Rightarrow> real" where
  "double_of (DoublePayload x) = x" | "double_of _ = 0"

fun string_of :: "payload \<Rightarrow> string" where
  "string_of (StringPayload x) = x" | "string_of _ = []"

text \<open>
  A scalar type that the columnar appenders accept: a decimal has one of the three byte
  sizes.
\<close>

definition type_ok :: "host \<Rightarrow> TScalarType \<Rightarrow> bool" where
  "type_ok h st \<longleftrightarrow>
     (st_type st = TPrimitiveType.DECIMAL \<longrightarrow>
        GetByteSize h st = 4 \<or> GetByteSize h st = 8 \<or> GetByteSize h st = 16)"

subsection \<open>Callers of the bitmap functions\<close>

text \<open>
  The streaming appender: \<^verbatim>\<open>SetNullBit\<close> called for successive increasing values of
  \<^verbatim>\<open>row_idx\<close>, one call for each row, as its comment in the source requires.
\<close>

fun SetNullBit_rows :: "nat \<Rightarrow> bool list \<Rightarrow> bytes \<Rightarrow> bytes option" where
  "SetNullBit_rows row_idx [] nulls = Some nulls"
| "SetNullBit_rows row_idx (is_null # rest) nulls =
     do { nulls' \<leftarrow> SetNullBit row_idx is_null nulls; SetNullBit_rows (Suc row_idx) rest nulls' }"

text \<open>
  A sequence of writes at one row index. Each write is a pair: whether the resizing
  setter \<^verbatim>\<open>SetNullBit\<close> is called (otherwise \<^verbatim>\<open>SetNullBitNoResize\<close>), and \<^verbatim>\<open>is_null\<close>.
\<close>

fun set_bit_writes :: "nat \<Rightarrow> (bool \<times> bool) list \<Rightarrow> bytes \<Rightarrow> bytes option" where
  "set_bit_writes row_idx [] nulls = Some nulls"
| "set_bit_writes row_idx ((resizing, is_null) # rest) nulls =
     do {
       nulls' \<leftarrow> (if resizing then SetNullBit row_idx is_null nulls
                 else SetNullBitNoResize row_idx is_null nulls);
       set_bit_writes row_idx rest nulls'
     }"

subsection \<open>Views used in the proofs\<close>

text \<open>Bit \<open>j\<close> of a bitmap, the least significant bit of a byte first.\<close>

definition test_bit :: "bytes \<Rightarrow> nat \<Rightarrow> bool" where
  "test_bit nulls j = bit (nulls ! (j div 8)) (j mod 8)"

text \<open>
  A bitmap that holds exactly the first \<open>r\<close> flags of \<open>P\<close>: it has the bytes that \<open>r\<close> rows
  need, and a bit is set if and only if it is the bit of a row below \<open>r\<close> whose flag is set.
\<close>

definition bitmap_prefix :: "nat \<Rightarrow> (nat \<Rightarrow> bool) \<Rightarrow> bytes \<Rightarrow> bool" where
  "bitmap_prefix r P nulls \<longleftrightarrow>
     length nulls = (r + 7) div 8 \<and> (\<forall>j < 8 * length nulls. test_bit nulls j = (j < r \<and> P j))"

text \<open>
  A bitmap of \<open>nb\<close> bytes whose set bits are exactly the set flags below \<open>r\<close>.
\<close>

definition bitmap_prefix_in :: "nat \<Rightarrow> nat \<Rightarrow> (nat \<Rightarrow> bool) \<Rightarrow> bytes \<Rightarrow> bool" where
  "bitmap_prefix_in nb r P nulls \<longleftrightarrow>
     length nulls = nb \<and> (\<forall>j < 8 * nb. test_bit nulls j = (j < r \<and> P j))"

section \<open>Properties\<close>

subsection \<open>Arithmetic\<close>

lemma ceil8_mult: "r mod 8 = 0 \<Longrightarrow> 8 * ((r + 7) div 8) = (r::nat)"
  by arith

lemma ceil8_Suc:
  "(Suc r + 7) div 8 = (if r mod 8 = 0 then Suc ((r + 7) div 8) else (r + 7) div 8)"
  by arith

lemma div_mod_8_eq: "(i::nat) div 8 = j div 8 \<Longrightarrow> i mod 8 = j mod 8 \<Longrightarrow> i = j"
  by (metis div_mult_mod_eq)

lemma div8_less_ceil:
  fixes j k :: nat
  assumes "j < k"
  shows "j div 8 < (k + 7) div 8"
proof -
  from assms have "j + 8 \<le> k + 7" by simp
  then have "(j + 8) div 8 \<le> (k + 7) div 8" by (rule div_le_mono)
  then show ?thesis by simp
qed

lemma div8_less_imp_less:
  fixes j n :: nat
  assumes "j div 8 < n"
  shows "j < 8 * n"
  using assms by (simp add: div_less_iff_less_mult mult.commute)

lemma to_int_small: "int n \<le> INT_MAX \<Longrightarrow> to_int n = int n"
  by (simp add: to_int_def INT_MAX_def)

lemma to_uint32_small: "0 \<le> i \<Longrightarrow> i \<le> INT_MAX \<Longrightarrow> to_uint32 i = nat i"
  by (simp add: to_uint32_def INT_MAX_def)

lemma GetNullsRequiredSize_nat:
  "int n + 7 \<le> INT_MAX \<Longrightarrow> GetNullsRequiredSize (to_int n) = Some (int ((n + 7) div 8))"
  by (simp add: GetNullsRequiredSize_def to_int_small zdiv_int signed_divide_int_def sgn_if)

subsection \<open>One byte\<close>

lemma byte_or_mask:
  "k < 8 \<Longrightarrow>
   (word_of_int (sint b OR push_bit k 1 * of_bool f) :: 8 word) = (if f then set_bit k b else b)"
  apply (rule bit_word_eqI)
  apply (auto simp add: bit_simps)
  done

lemma byte_and_mask:
  "k < 8 \<Longrightarrow> (sint (b :: 8 word) AND push_bit k 1 \<noteq> 0) = bit b k"
  by (simp add: push_bit_of_1 and_exp_eq_0_iff_not_bit bit_sint_iff)

subsection \<open>The setters and the getter inside their contract\<close>

lemma or_bit_Some:
  "row_idx div 8 < length nulls \<Longrightarrow>
   or_bit row_idx f nulls =
     Some (nulls[row_idx div 8 :=
       (if f then set_bit (row_idx mod 8) (nulls ! (row_idx div 8)) else nulls ! (row_idx div 8))])"
  unfolding or_bit_def Let_def by (simp add: byte_or_mask del: push_bit_of_1)

lemma or_bit_length: "or_bit row_idx f nulls = Some nulls' \<Longrightarrow> length nulls' = length nulls"
  by (auto simp add: or_bit_def Let_def split: if_splits)

lemma or_bit_test_bit:
  assumes "or_bit row_idx f nulls = Some nulls'" "j div 8 < length nulls"
  shows "test_bit nulls' j = (test_bit nulls j \<or> (f \<and> j = row_idx))"
proof -
  from assms(1) have cov: "row_idx div 8 < length nulls"
    by (auto simp add: or_bit_def Let_def split: if_splits)
  from assms(1) have eq: "nulls' = nulls[row_idx div 8 :=
      (if f then set_bit (row_idx mod 8) (nulls ! (row_idx div 8)) else nulls ! (row_idx div 8))]"
    by (simp add: or_bit_Some cov)
  show ?thesis
  proof (cases "j div 8 = row_idx div 8")
    case True
    then show ?thesis using cov eq
      by (auto simp add: test_bit_def bit_simps dest: div_mod_8_eq)
  next
    case False
    then show ?thesis using assms(2) eq
      by (auto simp add: test_bit_def)
  qed
qed

lemma GetNullBit_Some:
  assumes b: "int row_idx + 8 \<le> INT_MAX" and c: "row_idx div 8 < length nulls"
  shows "GetNullBit nulls row_idx = Some (test_bit nulls row_idx)"
proof -
  have m: "(row_idx + 1) mod 2 ^ 32 = row_idx + 1"
    using b by (simp add: INT_MAX_def)
  have r: "GetNullsRequiredSize (to_int (row_idx + 1)) = Some (int ((row_idx + 1 + 7) div 8))"
    using b by (intro GetNullsRequiredSize_nat) simp
  have d: "DCHECK_LE_size (int ((row_idx + 1 + 7) div 8)) (length nulls) = Some ()"
    using c by (simp add: DCHECK_LE_size_def)
  have "GetNullBit nulls row_idx =
      (if row_idx div 8 < length nulls
       then Some (sint (nulls ! (row_idx div 8)) AND push_bit (row_idx mod 8) 1 \<noteq> 0)
       else None)"
    by (simp only: GetNullBit_def m r d Option.bind.simps)
  then show ?thesis
    using c by (simp add: test_bit_def byte_and_mask del: push_bit_of_1)
qed

lemma SetNullBitNoResize_Some:
  assumes b: "int row_idx + 8 \<le> INT_MAX" and c: "row_idx div 8 < length nulls"
  shows "SetNullBitNoResize row_idx f nulls = or_bit row_idx f nulls"
proof -
  have m: "(row_idx + 1) mod 2 ^ 32 = row_idx + 1"
    using b by (simp add: INT_MAX_def)
  have r: "GetNullsRequiredSize (to_int (row_idx + 1)) = Some (int ((row_idx + 1 + 7) div 8))"
    using b by (intro GetNullsRequiredSize_nat) simp
  have d: "DCHECK_LE_size (int ((row_idx + 1 + 7) div 8)) (length nulls) = Some ()"
    using c by (simp add: DCHECK_LE_size_def)
  show ?thesis
    by (simp only: SetNullBitNoResize_def m r d Option.bind.simps)
qed

lemma SetNullBit_Some:
  "int row_idx + 7 \<le> INT_MAX \<Longrightarrow> (row_idx + 7) div 8 \<le> length nulls \<Longrightarrow>
   SetNullBit row_idx f nulls =
     or_bit row_idx f (if row_idx mod 8 = 0 then nulls @ [0] else nulls)"
  by (simp add: SetNullBit_def GetNullsRequiredSize_nat DCHECK_LE_size_def)

subsection \<open>Loops\<close>

lemma for_loop_rule:
  assumes "Inv i s" "0 \<le> i" "i \<le> int n" "int n \<le> INT_MAX"
    and "\<And>j t. i \<le> j \<Longrightarrow> j < int n \<Longrightarrow> Inv j t \<Longrightarrow> \<exists>t'. body j t = Some t' \<and> Inv (j + 1) t'"
  shows "\<exists>s'. for_loop i n body s = Some s' \<and> Inv (int n) s'"
  using assms(1-3,5)
proof (induction "nat (int n - i)" arbitrary: i s)
  case 0
  then have "i = int n" by simp
  then show ?case using 0 assms(4)
    by (subst for_loop.simps) (simp add: to_uint32_small)
next
  case (Suc k)
  then have lt: "i < int n" by linarith
  from Suc.prems(4) [of i s] lt Suc.prems(1)
  obtain t' where t': "body i s = Some t'" "Inv (i + 1) t'"
    by auto
  have "\<exists>s'. for_loop (i + 1) n body t' = Some s' \<and> Inv (int n) s'"
  proof (rule Suc.hyps(1))
    show "k = nat (int n - (i + 1))" using Suc.hyps(2) by linarith
    show "Inv (i + 1) t'" by (rule t')
    show "0 \<le> i + 1" using Suc.prems by simp
    show "i + 1 \<le> int n" using lt by simp
    show "\<And>j t. i + 1 \<le> j \<Longrightarrow> j < int n \<Longrightarrow> Inv j t
        \<Longrightarrow> \<exists>t'. body j t = Some t' \<and> Inv (j + 1) t'"
      using Suc.prems(4) by simp
  qed
  moreover have "to_uint32 i = nat i" "\<not> INT_MAX \<le> i"
    using lt Suc.prems assms(4) by (simp_all add: to_uint32_small)
  moreover have "nat i < n" using lt Suc.prems(2) by linarith
  ultimately show ?case using t'
    by (subst for_loop.simps) simp
qed

subsection \<open>The streaming appender\<close>

lemma bitmap_prefix_empty: "bitmap_prefix 0 P []"
  by (simp add: bitmap_prefix_def)

lemma test_bit_append_zero:
  "j < 8 * (length nulls + 1) \<Longrightarrow>
   test_bit (nulls @ [0]) j = (j < 8 * length nulls \<and> test_bit nulls j)"
  by (auto simp add: test_bit_def nth_append less_Suc_eq_le div_le_mono
      dest: less_mult_imp_div_less)

lemma SetNullBit_step:
  assumes b: "int r + 7 \<le> INT_MAX" and inv: "bitmap_prefix r P nulls"
  shows "\<exists>nulls'. SetNullBit r f nulls = Some nulls' \<and> bitmap_prefix (Suc r) (P(r := f)) nulls'"
proof -
  from inv have len: "length nulls = (r + 7) div 8"
    and bits: "\<And>j. j < 8 * length nulls \<Longrightarrow> test_bit nulls j = (j < r \<and> P j)"
    by (simp_all add: bitmap_prefix_def)
  let ?n = "if r mod 8 = 0 then nulls @ [0] else nulls"
  have step: "SetNullBit r f nulls = or_bit r f ?n"
    using b len by (intro SetNullBit_Some) simp_all
  have len': "length ?n = (Suc r + 7) div 8"
    using len ceil8_Suc [of r] by (simp split: if_splits)
  have cov: "r div 8 < length ?n"
    unfolding len' by simp
  have bits': "test_bit ?n j = (j < r \<and> P j)" if j: "j < 8 * length ?n" for j
  proof (cases "r mod 8 = 0")
    case True
    then have "8 * length nulls = r" using len by (simp add: ceil8_mult)
    then show ?thesis using True j bits [of j]
      by (auto simp add: test_bit_append_zero)
  next
    case False
    then show ?thesis using j bits by simp
  qed
  from cov obtain nulls' where o: "or_bit r f ?n = Some nulls'"
    by (auto simp add: or_bit_Some)
  have l: "length nulls' = length ?n" using o by (rule or_bit_length)
  have "\<forall>j < 8 * length nulls'. test_bit nulls' j = (j < Suc r \<and> (P(r := f)) j)"
  proof (intro allI impI)
    fix j assume j: "j < 8 * length nulls'"
    then have "j div 8 < length ?n"
      unfolding l by (simp add: less_mult_imp_div_less mult.commute)
    from or_bit_test_bit [OF o this] bits' [of j] j l
    show "test_bit nulls' j = (j < Suc r \<and> (P(r := f)) j)"
      by auto
  qed
  then show ?thesis using step o l len' by (simp add: bitmap_prefix_def)
qed

lemma SetNullBit_rows_prefix:
  "int (r + length flags) + 6 \<le> INT_MAX \<Longrightarrow> bitmap_prefix r P nulls \<Longrightarrow>
   \<exists>nulls'. SetNullBit_rows r flags nulls = Some nulls' \<and>
     bitmap_prefix (r + length flags) (\<lambda>j. if j < r then P j else flags ! (j - r)) nulls'"
proof (induction flags arbitrary: r P nulls)
  case Nil
  then show ?case
    by (auto simp add: bitmap_prefix_def)
next
  case (Cons f flags)
  from Cons.prems have "int r + 7 \<le> INT_MAX" by simp
  from SetNullBit_step [OF this Cons.prems(2), of f]
  obtain n1 where n1: "SetNullBit r f nulls = Some n1" "bitmap_prefix (Suc r) (P(r := f)) n1"
    by auto
  from Cons.prems have "int (Suc r + length flags) + 6 \<le> INT_MAX" by simp
  from Cons.IH [OF this n1(2)] obtain n2 where
    n2: "SetNullBit_rows (Suc r) flags n1 = Some n2"
      "bitmap_prefix (Suc r + length flags)
         (\<lambda>j. if j < Suc r then (P(r := f)) j else flags ! (j - Suc r)) n2"
    by auto
  have "\<And>j. j < Suc r + length flags \<Longrightarrow>
      (if j < Suc r then (P(r := f)) j else flags ! (j - Suc r)) =
      (if j < r then P j else (f # flags) ! (j - r))"
    by (auto simp add: nth_Cons' less_Suc_eq)
  with n2(2) have "bitmap_prefix (r + length (f # flags))
      (\<lambda>j. if j < r then P j else (f # flags) ! (j - r)) n2"
    by (simp add: bitmap_prefix_def)
  with n1 n2 show ?case by auto
qed

text \<open>
  Claim C4. Starting from the empty bitmap, \<^verbatim>\<open>SetNullBit\<close> called for the rows \<open>0, 1, ...,
  n - 1\<close> in this order returns, and leaves a bitmap of exactly \<open>ceil (n / 8)\<close> bytes, the
  value of \<^verbatim>\<open>GetNullsRequiredSize(n)\<close>. The row count is one that \<^verbatim>\<open>GetNullsRequiredSize\<close>
  accepts without signed overflow.
\<close>

theorem SetNullBit_stream_length:
  assumes "int (length flags) + 7 \<le> INT_MAX"
  shows "\<exists>nulls. SetNullBit_rows 0 flags [] = Some nulls
           \<and> length nulls = (length flags + 7) div 8
           \<and> GetNullsRequiredSize (int (length flags)) = Some (int (length nulls))"
proof -
  from assms have "int (0 + length flags) + 6 \<le> INT_MAX" by simp
  from SetNullBit_rows_prefix [OF this bitmap_prefix_empty [of "\<lambda>_. False"]]
  obtain nulls where n: "SetNullBit_rows 0 flags [] = Some nulls"
     "length nulls = (length flags + 7) div 8"
    by (auto simp add: bitmap_prefix_def)
  have "int (length flags) \<le> INT_MAX" using assms by simp
  from GetNullsRequiredSize_nat [OF assms] this
  have "GetNullsRequiredSize (int (length flags)) = Some (int ((length flags + 7) div 8))"
    by (simp add: to_int_small)
  with n show ?thesis by simp
qed

theorem SetNullBit_stream_length_witness:
  "int (length [True, False, True, False, True, False, True, False, True]) + 7 \<le> INT_MAX
   \<and> (\<exists>nulls. SetNullBit_rows 0 [True, False, True, False, True, False, True, False, True] []
          = Some nulls \<and> length nulls = 2
        \<and> GetNullsRequiredSize 9 = Some (int (length nulls)))"
  using SetNullBit_stream_length [of "[True, False, True, False, True, False, True, False, True]"]
  by (simp add: INT_MAX_def)

subsection \<open>Repeated writes at one index\<close>

lemma set_bit_write_step:
  assumes b: "int i + 8 \<le> INT_MAX" and c: "i div 8 < length nulls"
  shows "\<exists>nulls'. (if resizing then SetNullBit i f nulls else SetNullBitNoResize i f nulls) = Some nulls'
           \<and> length nulls \<le> length nulls' \<and> test_bit nulls' i = (test_bit nulls i \<or> f)"
proof -
  let ?n = "if i mod 8 = 0 then nulls @ [0] else nulls"
  have c': "i div 8 < length ?n" using c by simp
  have tb: "test_bit ?n i = test_bit nulls i"
    using c by (simp add: test_bit_def nth_append)
  have d: "(i + 7) div 8 \<le> length nulls" using c by simp
  have b': "int i + 7 \<le> INT_MAX" using b by simp
  show ?thesis
  proof (cases resizing)
    case True
    from c' obtain nulls' where o: "or_bit i f ?n = Some nulls'"
      by (auto simp add: or_bit_Some)
    from or_bit_test_bit [OF o c'] or_bit_length [OF o] tb o True
    show ?thesis
      by (simp add: SetNullBit_Some [OF b' d])
  next
    case False
    from c obtain nulls' where o: "or_bit i f nulls = Some nulls'"
      by (auto simp add: or_bit_Some)
    from or_bit_test_bit [OF o c] or_bit_length [OF o] o False
    show ?thesis
      by (simp add: SetNullBitNoResize_Some [OF b c])
  qed
qed

lemma set_bit_writes_test_bit:
  "int i + 8 \<le> INT_MAX \<Longrightarrow> i div 8 < length nulls \<Longrightarrow>
   \<exists>nulls'. set_bit_writes i ws nulls = Some nulls' \<and> length nulls \<le> length nulls'
      \<and> test_bit nulls' i = (test_bit nulls i \<or> True \<in> set (map snd ws))"
proof (induction ws arbitrary: nulls)
  case Nil
  then show ?case by simp
next
  case (Cons w ws)
  obtain resizing f where w: "w = (resizing, f)" by (cases w)
  from set_bit_write_step [OF Cons.prems, of resizing f]
  obtain n1 where n1: "(if resizing then SetNullBit i f nulls else SetNullBitNoResize i f nulls) = Some n1"
    "length nulls \<le> length n1" "test_bit n1 i = (test_bit nulls i \<or> f)"
    by blast
  from n1(2) Cons.prems(2) have "i div 8 < length n1" by simp
  from Cons.IH [OF Cons.prems(1) this]
  obtain n2 where n2: "set_bit_writes i ws n1 = Some n2" "length n1 \<le> length n2"
    "test_bit n2 i = (test_bit n1 i \<or> True \<in> set (map snd ws))"
    by blast
  have "set_bit_writes i (w # ws) nulls = Some n2"
    unfolding w using n1(1) n2(1) by (simp del: SetNullBit_rows.simps)
  moreover have "test_bit n2 i = (test_bit nulls i \<or> True \<in> set (map snd (w # ws)))"
    using n1(3) n2(3) w by auto
  ultimately show ?case using n1(2) n2(2) by auto
qed

lemma SetNullsSize_zeros:
  assumes "SetNullsSize n [] = Some fresh" and "j div 8 < length fresh"
  shows "\<not> bit (fresh ! (j div 8)) (j mod 8)"
proof -
  from assms(1) obtain m where "fresh = replicate m 0"
    by (auto simp add: SetNullsSize_def resize_def split: Option.bind_splits if_splits)
  with assms(2) show ?thesis by simp
qed

text \<open>
  Claim C5. For a row index \<open>i\<close> inside the bitmap, any sequence of writes at \<open>i\<close>, through
  \<^verbatim>\<open>SetNullBit\<close> or \<^verbatim>\<open>SetNullBitNoResize\<close>, returns, and afterwards \<^verbatim>\<open>GetNullBit\<close> at \<open>i\<close>
  returns the bit that the byte held before the writes, or-ed with every \<^verbatim>\<open>is_null\<close> written.
  So for a bit that was clear before the writes, as every bit of a bitmap that
  \<^verbatim>\<open>SetNullsSize\<close> has made from the empty one, \<^verbatim>\<open>GetNullBit\<close> returns true if and only if one
  of the writes had \<^verbatim>\<open>is_null = true\<close>: a later write of \<^verbatim>\<open>false\<close> does not clear the bit, and
  writes of \<^verbatim>\<open>false\<close> alone leave it clear.
\<close>

theorem set_bit_writes_or:
  assumes "int i + 8 \<le> INT_MAX" and "i div 8 < length nulls"
  shows "\<exists>nulls'. set_bit_writes i ws nulls = Some nulls'
           \<and> GetNullBit nulls' i
               = Some (bit (nulls ! (i div 8)) (i mod 8) \<or> True \<in> set (map snd ws))
           \<and> (\<not> bit (nulls ! (i div 8)) (i mod 8)
                \<longrightarrow> GetNullBit nulls' i = Some (True \<in> set (map snd ws)))
           \<and> (\<forall>n. SetNullsSize n [] = Some nulls
                \<longrightarrow> GetNullBit nulls' i = Some (True \<in> set (map snd ws)))"
proof -
  from set_bit_writes_test_bit [OF assms, of ws]
  obtain nulls' where n: "set_bit_writes i ws nulls = Some nulls'" "length nulls \<le> length nulls'"
    "test_bit nulls' i = (test_bit nulls i \<or> True \<in> set (map snd ws))"
    by blast
  from n(2) assms(2) have "i div 8 < length nulls'" by simp
  from GetNullBit_Some [OF assms(1) this] n(3)
  have g: "GetNullBit nulls' i
      = Some (bit (nulls ! (i div 8)) (i mod 8) \<or> True \<in> set (map snd ws))"
    by (simp add: test_bit_def)
  have z: "\<forall>n. SetNullsSize n [] = Some nulls
      \<longrightarrow> GetNullBit nulls' i = Some (True \<in> set (map snd ws))"
    using SetNullsSize_zeros [OF _ assms(2)] g by simp
  from n(1) g z show ?thesis by simp
qed

theorem set_bit_writes_or_witness:
  "int 9 + 8 \<le> INT_MAX \<and> 9 div 8 < length [0, 0 :: 8 word]
   \<and> \<not> bit ([0, 0 :: 8 word] ! (9 div 8)) (9 mod 8 :: nat)
   \<and> SetNullsSize 10 [] = Some [0, 0]
   \<and> (\<exists>nulls'. set_bit_writes 9 [(False, False), (True, False)] [0, 0] = Some nulls'
         \<and> GetNullBit nulls' 9 = Some False)
   \<and> (\<exists>nulls'. set_bit_writes 9 [(False, False), (False, True), (True, False), (False, False)]
           [0, 0] = Some nulls'
         \<and> GetNullBit nulls' 9 = Some True)
   \<and> (\<exists>nulls'. set_bit_writes 9 [(False, False), (True, False)] [0, 2] = Some nulls'
         \<and> GetNullBit nulls' 9 = Some True)"
proof -
  let ?ff = "[(False, False), (True, False)]"
  let ?tf = "[(False, False), (False, True), (True, False), (False, False)]"
  have b: "int 9 + 8 \<le> INT_MAX" by (simp add: INT_MAX_def)
  have c: "9 div 8 < length [0, 0 :: 8 word]" by simp
  have c': "9 div 8 < length [0, 2 :: 8 word]" by simp
  have z: "\<not> bit ([0, 0 :: 8 word] ! (9 div 8)) (9 mod 8 :: nat)" by simp
  have o: "bit ([0, 2 :: 8 word] ! (9 div 8)) (9 mod 8 :: nat)" by simp
  have f: "SetNullsSize 10 [] = Some [0, 0]"
  proof -
    have "int 10 + 7 \<le> INT_MAX" by (simp add: INT_MAX_def)
    then have "SetNullsSize 10 [] = Some (replicate ((10 + 7) div 8) 0)"
      by (simp add: SetNullsSize_def GetNullsRequiredSize_nat resize_def)
    moreover have "(10 + 7) div 8 = Suc (Suc 0)" by simp
    ultimately show ?thesis by (simp only: replicate.simps)
  qed
  have ff: "(True \<in> set (map snd ?ff)) = False" by simp
  have tf: "(True \<in> set (map snd ?tf)) = True" by simp
  from set_bit_writes_or [OF b c, of ?ff]
  obtain n1 where s1: "set_bit_writes 9 ?ff [0, 0] = Some n1"
    and g1: "\<not> bit ([0, 0 :: 8 word] ! (9 div 8)) (9 mod 8 :: nat)
        \<longrightarrow> GetNullBit n1 9 = Some (True \<in> set (map snd ?ff))"
    by blast
  from g1 [THEN mp, OF z] have "GetNullBit n1 9 = Some False" unfolding ff .
  with s1 have w1: "\<exists>nulls'. set_bit_writes 9 ?ff [0, 0] = Some nulls'
         \<and> GetNullBit nulls' 9 = Some False"
    by blast
  from set_bit_writes_or [OF b c, of ?tf]
  obtain n2 where s2: "set_bit_writes 9 ?tf [0, 0] = Some n2"
    and g2: "\<not> bit ([0, 0 :: 8 word] ! (9 div 8)) (9 mod 8 :: nat)
        \<longrightarrow> GetNullBit n2 9 = Some (True \<in> set (map snd ?tf))"
    by blast
  from g2 [THEN mp, OF z] have "GetNullBit n2 9 = Some True" unfolding tf .
  with s2 have w2: "\<exists>nulls'. set_bit_writes 9 ?tf [0, 0] = Some nulls'
         \<and> GetNullBit nulls' 9 = Some True"
    by blast
  from set_bit_writes_or [OF b c', of ?ff]
  obtain n3 where s3: "set_bit_writes 9 ?ff [0, 2] = Some n3"
    and g3: "GetNullBit n3 9
        = Some (bit ([0, 2 :: 8 word] ! (9 div 8)) (9 mod 8 :: nat) \<or> True \<in> set (map snd ?ff))"
    by blast
  from g3 o have "GetNullBit n3 9 = Some True" by (simp only: simp_thms)
  with s3 have w3: "\<exists>nulls'. set_bit_writes 9 ?ff [0, 2] = Some nulls'
         \<and> GetNullBit nulls' 9 = Some True"
    by blast
  show ?thesis
    by (rule conjI [OF b conjI [OF c conjI [OF z conjI [OF f conjI [OF w1 conjI [OF w2 w3]]]]]])
qed

subsection \<open>Resizing\<close>

text \<open>
  Claim C6, as stated, fails: \<^verbatim>\<open>SetNullsSize\<close> calls \<^verbatim>\<open>resize\<close>, which cuts a bitmap that is
  longer than the new row count needs. A bitmap of two bytes resized for three rows has
  one byte.
\<close>

theorem SetNullsSize_shrinks:
  "SetNullsSize 3 [0, 0] = Some [0] \<and> length [0 :: 8 word] < length [0, 0 :: 8 word]"
  by (simp add: SetNullsSize_def GetNullsRequiredSize_def to_int_def INT_MAX_def resize_def
      signed_divide_int_def)

text \<open>
  Claim C6, amended. For a row count that \<^verbatim>\<open>GetNullsRequiredSize\<close> accepts without signed
  overflow, \<^verbatim>\<open>SetNullsSize\<close> returns a bitmap of exactly \<open>ceil (new_size / 8)\<close> bytes: the old
  bytes below that length, followed by zero bytes where the old bitmap was shorter. The
  bitmap gets shorter when it had more bytes than that.
\<close>

theorem SetNullsSize_resizes:
  assumes "int new_size + 7 \<le> INT_MAX"
  shows "\<exists>nulls'. SetNullsSize new_size nulls = Some nulls'
           \<and> length nulls' = (new_size + 7) div 8
           \<and> nulls' = take ((new_size + 7) div 8) nulls
                      @ replicate ((new_size + 7) div 8 - length nulls) 0"
  using assms by (simp add: SetNullsSize_def GetNullsRequiredSize_nat resize_def)

theorem SetNullsSize_resizes_witness:
  "int 17 + 7 \<le> INT_MAX
   \<and> (\<exists>nulls'. SetNullsSize 17 [5] = Some nulls' \<and> length nulls' = 3 \<and> nulls' = [5, 0, 0])"
  using SetNullsSize_resizes [of 17 "[5]"]
  by (simp add: INT_MAX_def numeral_3_eq_3)

subsection \<open>Stitching\<close>

lemma StitchNulls_fresh:
  assumes cov: "start_idx + num_rows_added \<le> 8 * length from_nulls"
    and b: "int (start_idx + num_rows_added) + 7 \<le> INT_MAX"
  shows "\<exists>to_nulls. StitchNulls 0 num_rows_added start_idx from_nulls [] = Some to_nulls
           \<and> bitmap_prefix num_rows_added (\<lambda>q. test_bit from_nulls (start_idx + q)) to_nulls"
proof -
  let ?P = "\<lambda>q. test_bit from_nulls (start_idx + q)"
  let ?Inv = "\<lambda>j t. bitmap_prefix (nat j) ?P t"
  let ?body = "\<lambda>i to_nulls. do {
          b \<leftarrow> GetNullBit from_nulls (to_uint32 (i + int start_idx));
          SetNullBit (to_uint32 (int 0 + i)) b to_nulls
        }"
  have "\<exists>s'. for_loop 0 num_rows_added ?body [] = Some s' \<and> ?Inv (int num_rows_added) s'"
  proof (rule for_loop_rule)
    show "?Inv 0 []" by (simp add: bitmap_prefix_empty)
    show "(0::int) \<le> 0" by simp
    show "0 \<le> int num_rows_added" by simp
    show "int num_rows_added \<le> INT_MAX" using b by simp
  next
    fix j t
    assume j: "0 \<le> j" "j < int num_rows_added" and inv: "?Inv j t"
    have u1: "to_uint32 (j + int start_idx) = start_idx + nat j"
      using j b by (subst to_uint32_small) auto
    have u2: "to_uint32 (int 0 + j) = nat j"
      using j b by (subst to_uint32_small) auto
    have g: "GetNullBit from_nulls (start_idx + nat j) = Some (?P (nat j))"
    proof (rule GetNullBit_Some)
      show "int (start_idx + nat j) + 8 \<le> INT_MAX" using j b by simp
      have "start_idx + nat j < 8 * length from_nulls" using j cov by linarith
      then show "(start_idx + nat j) div 8 < length from_nulls"
        by (simp add: less_mult_imp_div_less mult.commute)
    qed
    have "int (nat j) + 7 \<le> INT_MAX" using j b by simp
    from SetNullBit_step [OF this inv, of "?P (nat j)"]
    obtain t' where t': "SetNullBit (nat j) (?P (nat j)) t = Some t'"
      "bitmap_prefix (Suc (nat j)) (?P(nat j := ?P (nat j))) t'"
      by blast
    have "?P(nat j := ?P (nat j)) = ?P" by (rule fun_upd_triv)
    moreover have "Suc (nat j) = nat (j + 1)" using j by simp
    ultimately have "?Inv (j + 1) t'" using t'(2) by simp
    then show "\<exists>t'. ?body j t = Some t' \<and> ?Inv (j + 1) t'"
      unfolding u1 u2 g using t'(1) by simp
  qed
  then show ?thesis by (simp add: StitchNulls_def)
qed

text \<open>
  Claim C3. For a source bitmap that covers the rows \<open>[start_idx, start_idx + num_rows_added)\<close>,
  \<^verbatim>\<open>StitchNulls\<close> with \<^verbatim>\<open>num_rows_before = 0\<close> into the empty bitmap returns a bitmap in which
  \<^verbatim>\<open>GetNullBit\<close> at \<open>i\<close> is \<^verbatim>\<open>GetNullBit\<close> of the source at \<open>start_idx + i\<close>, for every
  \<open>i < num_rows_added\<close>.
\<close>

theorem StitchNulls_roundtrip:
  assumes "start_idx + num_rows_added \<le> 8 * length from_nulls"
    and "int (start_idx + num_rows_added) + 7 \<le> INT_MAX"
  shows "\<exists>to_nulls. StitchNulls 0 num_rows_added start_idx from_nulls [] = Some to_nulls
           \<and> (\<forall>i < num_rows_added. \<exists>b. GetNullBit from_nulls (start_idx + i) = Some b
                  \<and> GetNullBit to_nulls i = Some b)"
proof -
  from StitchNulls_fresh [OF assms]
  obtain to_nulls where t: "StitchNulls 0 num_rows_added start_idx from_nulls [] = Some to_nulls"
    "bitmap_prefix num_rows_added (\<lambda>q. test_bit from_nulls (start_idx + q)) to_nulls"
    by blast
  have "\<exists>b. GetNullBit from_nulls (start_idx + i) = Some b \<and> GetNullBit to_nulls i = Some b"
    if i: "i < num_rows_added" for i
  proof -
    have "start_idx + i < 8 * length from_nulls" using i assms(1) by linarith
    then have c1: "(start_idx + i) div 8 < length from_nulls"
      by (simp add: less_mult_imp_div_less mult.commute)
    have b1: "int (start_idx + i) + 8 \<le> INT_MAX" using i assms(2) by simp
    have len: "length to_nulls = (num_rows_added + 7) div 8"
      using t(2) by (simp add: bitmap_prefix_def)
    have c2: "i div 8 < length to_nulls" unfolding len using i by (rule div8_less_ceil)
    then have "i < 8 * length to_nulls" by (rule div8_less_imp_less)
    with t(2) i have tb: "test_bit to_nulls i = test_bit from_nulls (start_idx + i)"
      by (simp add: bitmap_prefix_def)
    have b2: "int i + 8 \<le> INT_MAX" using i assms(2) by simp
    show ?thesis
      using GetNullBit_Some [OF b1 c1] GetNullBit_Some [OF b2 c2] tb by simp
  qed
  with t(1) show ?thesis by blast
qed

theorem StitchNulls_roundtrip_witness:
  "3 + 10 \<le> 8 * length [0xA5, 0x5A :: 8 word] \<and> int (3 + 10) + 7 \<le> INT_MAX
   \<and> (\<exists>to_nulls. StitchNulls 0 10 3 [0xA5, 0x5A] [] = Some to_nulls
           \<and> (\<forall>i < 10. \<exists>b. GetNullBit [0xA5, 0x5A] (3 + i) = Some b
                  \<and> GetNullBit to_nulls i = Some b))"
  using StitchNulls_roundtrip [of 3 10 "[0xA5, 0x5A]"]
  by (simp add: INT_MAX_def)

subsection \<open>The printer\<close>

lemma sint_scast_byte: "sint (scast (x :: 8 word) :: 16 word) = sint x"
  by (rule sint_up_scast) (simp add: is_up)

lemma PrintTColumnValue_eq_spec_print:
  "PrintTColumnValue h colval out = out @ spec_print h colval"
  by (simp add: PrintTColumnValue_def spec_print_def spec_printer_order_def PrintVal_def
      PrintVal_TByteValue_def sint_scast_byte)

lemma print_int_65: "print_int 65 = ''65''"
  by (simp add: print_int_def nat_digits.simps)

text \<open>
  Claim C8. \<^verbatim>\<open>PrintTColumnValue\<close> appends to the stream what the specification's printer
  gives: the rendering of the first selected variant in the order boolean, double, byte,
  int32, int16, int64, text. It writes \<open>NULL\<close> if no variant is selected or if the value of
  the first selected variant is absent, \<open>65\<close> for a byte variant with the value 65, and
  \<open>true\<close> for a boolean variant with the value true.
\<close>

theorem PrintTColumnValue_order:
  "PrintTColumnValue h colval out = out @ spec_print h colval
   \<and> (find (selected colval) spec_printer_order = None
        \<longrightarrow> PrintTColumnValue h colval out = out @ ''NULL'')
   \<and> (\<forall>v. find (selected colval) spec_printer_order = Some v \<and> \<not> present colval v
        \<longrightarrow> PrintTColumnValue h colval out = out @ ''NULL'')
   \<and> (find (selected colval) spec_printer_order = Some ByteVariant
        \<and> present colval ByteVariant \<and> val_value (cv_byteVal colval) = 65
        \<longrightarrow> PrintTColumnValue h colval out = out @ ''65'')
   \<and> (find (selected colval) spec_printer_order = Some BoolVariant
        \<and> present colval BoolVariant \<and> val_value (cv_boolVal colval)
        \<longrightarrow> PrintTColumnValue h colval out = out @ ''true'')"
  unfolding PrintTColumnValue_eq_spec_print
  by (simp add: spec_print_def print_int_65)

theorem PrintTColumnValue_order_witness:
  "PrintTColumnValue sample_host
     (hs2_TColumnValue_default
        \<lparr>cv_isset_byteVal := True, cv_isset_stringVal := True,
         cv_byteVal := \<lparr>val_value = 65, val_isset_value = True\<rparr>\<rparr>) [] = ''65''"
proof -
  let ?c = "hs2_TColumnValue_default
        \<lparr>cv_isset_byteVal := True, cv_isset_stringVal := True,
         cv_byteVal := \<lparr>val_value = 65, val_isset_value = True\<rparr>\<rparr>"
  have f: "find (selected ?c) spec_printer_order = Some ByteVariant"
    by (simp add: hs2_TColumnValue_default_def spec_printer_order_def)
  have p: "present ?c ByteVariant" "val_value (cv_byteVal ?c) = 65"
    by simp_all
  have "find (selected ?c) spec_printer_order = Some ByteVariant
        \<and> present ?c ByteVariant \<and> val_value (cv_byteVal ?c) = 65
        \<longrightarrow> PrintTColumnValue sample_host ?c [] = [] @ ''65''"
    using PrintTColumnValue_order [of sample_host ?c "[]"] by (elim conjE)
  with f p show ?thesis by simp
qed

subsection \<open>The legacy converters\<close>

lemma scalar_column_type_checks [simp]:
  "DCHECK (length (types (scalar_column_type st)) = 1) = Some ()"
  "types_0 (scalar_column_type st) = Some \<lparr>tn_type = SCALAR, tn_scalar_type = st, tn_isset_scalar_type = True\<rparr>"
  "FromThrift_type (scalar_column_type st) = Some st"
  by (simp_all add: scalar_column_type_def DCHECK_def types_0_def FromThrift_type_def FromThrift_def)

lemma DCHECK_True [simp]: "DCHECK True = Some ()"
  by (simp add: DCHECK_def)

lemma length_types_scalar_column_type [simp]:
  "length (types (scalar_column_type st)) = Suc 0"
  by (simp add: scalar_column_type_def)


lemma TColumnValueToHS2TColumnValue_cases:
  "st_type st = TPrimitiveType.BOOLEAN \<Longrightarrow>
   TColumnValueToHS2TColumnValue col_val (scalar_column_type st) hs2_col_val =
     Some (hs2_col_val\<lparr>cv_isset_boolVal := True,
       cv_boolVal := \<lparr>val_value = bool_val col_val, val_isset_value = isset_bool_val col_val\<rparr>\<rparr>)"
  "st_type st = TPrimitiveType.TINYINT \<Longrightarrow>
   TColumnValueToHS2TColumnValue col_val (scalar_column_type st) hs2_col_val =
     Some (hs2_col_val\<lparr>cv_isset_byteVal := True,
       cv_byteVal := \<lparr>val_value = byte_val col_val, val_isset_value = isset_byte_val col_val\<rparr>\<rparr>)"
  "st_type st = TPrimitiveType.SMALLINT \<Longrightarrow>
   TColumnValueToHS2TColumnValue col_val (scalar_column_type st) hs2_col_val =
     Some (hs2_col_val\<lparr>cv_isset_i16Val := True,
       cv_i16Val := \<lparr>val_value = short_val col_val, val_isset_value = isset_short_val col_val\<rparr>\<rparr>)"
  "st_type st = TPrimitiveType.INT \<Longrightarrow>
   TColumnValueToHS2TColumnValue col_val (scalar_column_type st) hs2_col_val =
     Some (hs2_col_val\<lparr>cv_isset_i32Val := True,
       cv_i32Val := \<lparr>val_value = int_val col_val, val_isset_value = isset_int_val col_val\<rparr>\<rparr>)"
  "st_type st = TPrimitiveType.BIGINT \<Longrightarrow>
   TColumnValueToHS2TColumnValue col_val (scalar_column_type st) hs2_col_val =
     Some (hs2_col_val\<lparr>cv_isset_i64Val := True,
       cv_i64Val := \<lparr>val_value = long_val col_val, val_isset_value = isset_long_val col_val\<rparr>\<rparr>)"
  "st_type st = TPrimitiveType.FLOAT \<or> st_type st = TPrimitiveType.DOUBLE \<Longrightarrow>
   TColumnValueToHS2TColumnValue col_val (scalar_column_type st) hs2_col_val =
     Some (hs2_col_val\<lparr>cv_isset_doubleVal := True,
       cv_doubleVal := \<lparr>val_value = double_val col_val,
                       val_isset_value = isset_double_val col_val\<rparr>\<rparr>)"
  "st_type st = TPrimitiveType.DECIMAL \<or> st_type st = TPrimitiveType.STRING
     \<or> st_type st = TPrimitiveType.TIMESTAMP \<or> st_type st = TPrimitiveType.VARCHAR
     \<or> st_type st = TPrimitiveType.CHAR \<Longrightarrow>
   TColumnValueToHS2TColumnValue col_val (scalar_column_type st) hs2_col_val =
     Some (hs2_col_val\<lparr>cv_isset_stringVal := True,
       cv_stringVal := \<lparr>val_value = (if isset_string_val col_val then string_val col_val
                                      else val_value (cv_stringVal hs2_col_val)),
                       val_isset_value = isset_string_val col_val\<rparr>\<rparr>)"
  by (auto simp add: TColumnValueToHS2TColumnValue_def Let_def)

lemma sel_all:
  "(\<forall>v'. selected out v' = (selected hs2_col_val v' \<or> v' = v)) =
    (selected out BoolVariant = (selected hs2_col_val BoolVariant \<or> BoolVariant = v)
     \<and> selected out DoubleVariant = (selected hs2_col_val DoubleVariant \<or> DoubleVariant = v)
     \<and> selected out ByteVariant = (selected hs2_col_val ByteVariant \<or> ByteVariant = v)
     \<and> selected out I32Variant = (selected hs2_col_val I32Variant \<or> I32Variant = v)
     \<and> selected out I16Variant = (selected hs2_col_val I16Variant \<or> I16Variant = v)
     \<and> selected out I64Variant = (selected hs2_col_val I64Variant \<or> I64Variant = v)
     \<and> selected out StringVariant = (selected hs2_col_val StringVariant \<or> StringVariant = v))"
  (is "?L = ?R")
proof
  assume ?L then show ?R by blast
next
  assume r: ?R
  show ?L
  proof
    fix v' show "selected out v' = (selected hs2_col_val v' \<or> v' = v)"
      using r by (cases v') blast+
  qed
qed

lemma spec_family_cases:
  assumes "spec_family t = Some v"
  obtains "t = TPrimitiveType.BOOLEAN" "v = BoolVariant"
  | "t = TPrimitiveType.TINYINT" "v = ByteVariant"
  | "t = TPrimitiveType.SMALLINT" "v = I16Variant"
  | "t = TPrimitiveType.INT" "v = I32Variant"
  | "t = TPrimitiveType.BIGINT" "v = I64Variant"
  | "t = TPrimitiveType.FLOAT" "v = DoubleVariant"
  | "t = TPrimitiveType.DOUBLE" "v = DoubleVariant"
  | "t = TPrimitiveType.STRING" "v = StringVariant"
  | "t = TPrimitiveType.VARCHAR" "v = StringVariant"
  | "t = TPrimitiveType.CHAR" "v = StringVariant"
  | "t = TPrimitiveType.TIMESTAMP" "v = StringVariant"
  | "t = TPrimitiveType.DECIMAL" "v = StringVariant"
  using assms by (cases t) (simp_all add: spec_family_def)

lemma TColumnValueToHS2TColumnValue_family:
  assumes "spec_family (st_type st) = Some v"
  shows "\<exists>out. TColumnValueToHS2TColumnValue col_val (scalar_column_type st) hs2_col_val = Some out
      \<and> (\<forall>v'. selected out v' = (selected hs2_col_val v' \<or> v' = v))
      \<and> present out v = source_isset col_val v
      \<and> payload_of out v =
          (if v = StringVariant \<and> \<not> source_isset col_val v then payload_of hs2_col_val v
           else source_payload col_val v)"
  using assms
proof (cases rule: spec_family_cases)
  case 1
  then show ?thesis by (simp add: TColumnValueToHS2TColumnValue_cases(1) sel_all)
next
  case 2
  then show ?thesis by (simp add: TColumnValueToHS2TColumnValue_cases(2) sel_all)
next
  case 3
  then show ?thesis by (simp add: TColumnValueToHS2TColumnValue_cases(3) sel_all)
next
  case 4
  then show ?thesis by (simp add: TColumnValueToHS2TColumnValue_cases(4) sel_all)
next
  case 5
  then show ?thesis by (simp add: TColumnValueToHS2TColumnValue_cases(5) sel_all)
next
  case 6
  then show ?thesis by (simp add: TColumnValueToHS2TColumnValue_cases(6) sel_all)
next
  case 7
  then show ?thesis by (simp add: TColumnValueToHS2TColumnValue_cases(6) sel_all)
next
  case 8
  then show ?thesis by (simp add: TColumnValueToHS2TColumnValue_cases(7) sel_all)
next
  case 9
  then show ?thesis by (simp add: TColumnValueToHS2TColumnValue_cases(7) sel_all)
next
  case 10
  then show ?thesis by (simp add: TColumnValueToHS2TColumnValue_cases(7) sel_all)
next
  case 11
  then show ?thesis by (simp add: TColumnValueToHS2TColumnValue_cases(7) sel_all)
next
  case 12
  then show ?thesis by (simp add: TColumnValueToHS2TColumnValue_cases(7) sel_all)
qed


lemma pointee_ok_String:
  assumes "st_type st = TPrimitiveType.STRING \<or> st_type st = TPrimitiveType.VARCHAR"
    and "pointee_ok h st p"
  obtains ptr len where "p = String (StringValue ptr len)" "0 \<le> len" "nat len \<le> length ptr"
proof -
  from assms obtain sv where p: "p = String sv"
    by (cases p) (auto simp add: pointee_ok_def)
  obtain ptr len where sv: "sv = StringValue ptr len"
    by (cases sv)
  from assms p sv have "0 \<le> len" "nat len \<le> length ptr"
    by (auto simp add: pointee_ok_def)
  with p sv that show thesis by blast
qed

lemma pointee_ok_CharSlot:
  assumes "st_type st = TPrimitiveType.CHAR" and "pointee_ok h st p"
  obtains s where "p = CharSlot s" "0 \<le> st_len st" "nat (st_len st) \<le> length s"
  using assms by (cases p) (auto simp add: pointee_ok_def)

lemma pointee_ok_Decimal:
  assumes "st_type st = TPrimitiveType.DECIMAL" and "pointee_ok h st p"
  obtains d where "p = Decimal4 d" "GetByteSize h st = 4"
  | d where "p = Decimal8 d" "GetByteSize h st = 8"
  | d where "p = Decimal16 d" "GetByteSize h st = 16"
  using assms by (cases p) (auto simp add: pointee_ok_def)

lemma assign_Some: "0 \<le> n \<Longrightarrow> nat n \<le> length s \<Longrightarrow> assign s n = Some (take (nat n) s)"
  by (simp add: assign_def)

lemma ExprValueToHS2TColumnValue_family:
  assumes fam: "spec_family (st_type st) = Some v"
    and ok: "\<forall>p. value = Some p \<longrightarrow> pointee_ok h st p"
  shows "\<exists>out. ExprValueToHS2TColumnValue h value (scalar_column_type st) hs2_col_val = Some out
      \<and> (\<forall>v'. selected out v' = (selected hs2_col_val v' \<or> v' = v))
      \<and> present out v = (value \<noteq> None)
      \<and> payload_of out v =
          (case value of None \<Rightarrow> payload_of hs2_col_val v | Some p \<Rightarrow> spec_convert h st p)"
  using fam
proof (cases rule: spec_family_cases)
  case 1
  show ?thesis
  proof (cases "value")
    case None
    with 1 show ?thesis
      by (simp add: ExprValueToHS2TColumnValue_def Let_def if_not_null_def sel_all)
  next
    case (Some p)
    with ok have pok: "pointee_ok h st p" by simp
    with 1 obtain x where "p = Bool x"
      by (cases p) (simp_all add: pointee_ok_def)
    with 1 Some show ?thesis
      by (simp add: ExprValueToHS2TColumnValue_def Let_def if_not_null_def sel_all
          PrintValue_timestamp_def)
  qed
next
  case 2
  show ?thesis
  proof (cases "value")
    case None
    with 2 show ?thesis
      by (simp add: ExprValueToHS2TColumnValue_def Let_def if_not_null_def sel_all)
  next
    case (Some p)
    with ok have pok: "pointee_ok h st p" by simp
    with 2 obtain x where "p = Int8 x"
      by (cases p) (simp_all add: pointee_ok_def)
    with 2 Some show ?thesis
      by (simp add: ExprValueToHS2TColumnValue_def Let_def if_not_null_def sel_all
          PrintValue_timestamp_def)
  qed
next
  case 3
  show ?thesis
  proof (cases "value")
    case None
    with 3 show ?thesis
      by (simp add: ExprValueToHS2TColumnValue_def Let_def if_not_null_def sel_all)
  next
    case (Some p)
    with ok have pok: "pointee_ok h st p" by simp
    with 3 obtain x where "p = Int16 x"
      by (cases p) (simp_all add: pointee_ok_def)
    with 3 Some show ?thesis
      by (simp add: ExprValueToHS2TColumnValue_def Let_def if_not_null_def sel_all
          PrintValue_timestamp_def)
  qed
next
  case 4
  show ?thesis
  proof (cases "value")
    case None
    with 4 show ?thesis
      by (simp add: ExprValueToHS2TColumnValue_def Let_def if_not_null_def sel_all)
  next
    case (Some p)
    with ok have pok: "pointee_ok h st p" by simp
    with 4 obtain x where "p = Int32 x"
      by (cases p) (simp_all add: pointee_ok_def)
    with 4 Some show ?thesis
      by (simp add: ExprValueToHS2TColumnValue_def Let_def if_not_null_def sel_all
          PrintValue_timestamp_def)
  qed
next
  case 5
  show ?thesis
  proof (cases "value")
    case None
    with 5 show ?thesis
      by (simp add: ExprValueToHS2TColumnValue_def Let_def if_not_null_def sel_all)
  next
    case (Some p)
    with ok have pok: "pointee_ok h st p" by simp
    with 5 obtain x where "p = Int64 x"
      by (cases p) (simp_all add: pointee_ok_def)
    with 5 Some show ?thesis
      by (simp add: ExprValueToHS2TColumnValue_def Let_def if_not_null_def sel_all
          PrintValue_timestamp_def)
  qed
next
  case 6
  show ?thesis
  proof (cases "value")
    case None
    with 6 show ?thesis
      by (simp add: ExprValueToHS2TColumnValue_def Let_def if_not_null_def sel_all)
  next
    case (Some p)
    with ok have pok: "pointee_ok h st p" by simp
    with 6 obtain x where "p = Float x"
      by (cases p) (simp_all add: pointee_ok_def)
    with 6 Some show ?thesis
      by (simp add: ExprValueToHS2TColumnValue_def Let_def if_not_null_def sel_all
          PrintValue_timestamp_def)
  qed
next
  case 7
  show ?thesis
  proof (cases "value")
    case None
    with 7 show ?thesis
      by (simp add: ExprValueToHS2TColumnValue_def Let_def if_not_null_def sel_all)
  next
    case (Some p)
    with ok have pok: "pointee_ok h st p" by simp
    with 7 obtain x where "p = Double x"
      by (cases p) (simp_all add: pointee_ok_def)
    with 7 Some show ?thesis
      by (simp add: ExprValueToHS2TColumnValue_def Let_def if_not_null_def sel_all
          PrintValue_timestamp_def)
  qed
next
  case 8
  show ?thesis
  proof (cases "value")
    case None
    with 8 show ?thesis
      by (simp add: ExprValueToHS2TColumnValue_def Let_def if_not_null_def sel_all)
  next
    case (Some p)
    with ok have pok: "pointee_ok h st p" by simp
    from 8(1) have "st_type st = TPrimitiveType.STRING \<or> st_type st = TPrimitiveType.VARCHAR"
      by simp
    from this pok obtain ptr len where "p = String (StringValue ptr len)" "0 \<le> len"
      "nat len \<le> length ptr"
      by (rule pointee_ok_String)
    with 8 Some show ?thesis
      by (simp add: ExprValueToHS2TColumnValue_def Let_def if_not_null_def sel_all
          assign_StringValue_def assign_Some)
  qed
next
  case 9
  show ?thesis
  proof (cases "value")
    case None
    with 9 show ?thesis
      by (simp add: ExprValueToHS2TColumnValue_def Let_def if_not_null_def sel_all)
  next
    case (Some p)
    with ok have pok: "pointee_ok h st p" by simp
    from 9(1) have "st_type st = TPrimitiveType.STRING \<or> st_type st = TPrimitiveType.VARCHAR"
      by simp
    from this pok obtain ptr len where "p = String (StringValue ptr len)" "0 \<le> len"
      "nat len \<le> length ptr"
      by (rule pointee_ok_String)
    with 9 Some show ?thesis
      by (simp add: ExprValueToHS2TColumnValue_def Let_def if_not_null_def sel_all
          assign_StringValue_def assign_Some)
  qed
next
  case 10
  show ?thesis
  proof (cases "value")
    case None
    with 10 show ?thesis
      by (simp add: ExprValueToHS2TColumnValue_def Let_def if_not_null_def sel_all)
  next
    case (Some p)
    with ok have pok: "pointee_ok h st p" by simp
    from 10(1) pok obtain s where "p = CharSlot s" "0 \<le> st_len st" "nat (st_len st) \<le> length s"
      by (rule pointee_ok_CharSlot)
    with 10 Some show ?thesis
      by (simp add: ExprValueToHS2TColumnValue_def Let_def if_not_null_def sel_all
          assign_CharSlot_def assign_Some CreateCharType_def)
  qed
next
  case 11
  show ?thesis
  proof (cases "value")
    case None
    with 11 show ?thesis
      by (simp add: ExprValueToHS2TColumnValue_def Let_def if_not_null_def sel_all)
  next
    case (Some p)
    with ok have pok: "pointee_ok h st p" by simp
    with 11 obtain x where "p = Timestamp x"
      by (cases p) (simp_all add: pointee_ok_def)
    with 11 Some show ?thesis
      by (simp add: ExprValueToHS2TColumnValue_def Let_def if_not_null_def sel_all
          PrintValue_timestamp_def)
  qed
next
  case 12
  show ?thesis
  proof (cases "value")
    case None
    with 12 show ?thesis
      by (simp add: ExprValueToHS2TColumnValue_def Let_def if_not_null_def sel_all)
  next
    case (Some p)
    with ok have pok: "pointee_ok h st p" by simp
    from 12(1) pok show ?thesis
    proof (cases rule: pointee_ok_Decimal)
      case (1 d)
      with 12 Some show ?thesis
        by (simp add: ExprValueToHS2TColumnValue_def Let_def if_not_null_def sel_all
            decimal_ToString_def)
    next
      case (2 d)
      with 12 Some show ?thesis
        by (simp add: ExprValueToHS2TColumnValue_def Let_def if_not_null_def sel_all
            decimal_ToString_def)
    next
      case (3 d)
      with 12 Some show ?thesis
        by (simp add: ExprValueToHS2TColumnValue_def Let_def if_not_null_def sel_all
            decimal_ToString_def)
    qed
  qed
qed

text \<open>
  Claim C7, as stated, fails in two places. For \<^verbatim>\<open>NULL_TYPE\<close>, \<^verbatim>\<open>ExprValueToHS2TColumnValue\<close>
  leaves the value-presence flag of the boolean variant unset although the value is
  present. And \<^verbatim>\<open>TColumnValueToHS2TColumnValue\<close> copies \<^verbatim>\<open>col_val.bool_val\<close> into the output
  although \<^verbatim>\<open>__isset.bool_val\<close> is unset: the payload of an absent value is copied.
\<close>

theorem legacy_converters_counterexample:
  "ExprValueToHS2TColumnValue sample_host (Some (Bool True))
     (scalar_column_type
        \<lparr>st_type = TPrimitiveType.NULL_TYPE, st_len = 0, st_precision = 0, st_scale = 0\<rparr>)
     hs2_TColumnValue_default
   = Some (hs2_TColumnValue_default
       \<lparr>cv_isset_boolVal := True,
        cv_boolVal := \<lparr>val_value = False, val_isset_value = False\<rparr>\<rparr>)
   \<and> TColumnValueToHS2TColumnValue (TColumnValue_default\<lparr>bool_val := True\<rparr>)
     (scalar_column_type
        \<lparr>st_type = TPrimitiveType.BOOLEAN, st_len = 0, st_precision = 0, st_scale = 0\<rparr>)
     hs2_TColumnValue_default
   = Some (hs2_TColumnValue_default
       \<lparr>cv_isset_boolVal := True,
        cv_boolVal := \<lparr>val_value = True, val_isset_value = False\<rparr>\<rparr>)
   \<and> \<not> isset_bool_val (TColumnValue_default\<lparr>bool_val := True\<rparr>)"
  by (simp add: ExprValueToHS2TColumnValue_def TColumnValueToHS2TColumnValue_def Let_def
      hs2_TColumnValue_default_def TColumnValue_default_def)

text \<open>
  Claim C7, amended. For a type tag with a family (every tag that the converters handle
  except \<^verbatim>\<open>NULL_TYPE\<close>) and a value that is \<^verbatim>\<open>NULL\<close> or points to a value of the column's
  type, both converters return; they set the selection flag of the family's variant and
  of no other variant, so that a default-constructed output has exactly one; and the
  value-presence flag of that variant is the presence of the source value.
  \<^verbatim>\<open>ExprValueToHS2TColumnValue\<close> writes the converted payload when the value is present and
  leaves the payload alone when it is \<^verbatim>\<open>NULL\<close>. \<^verbatim>\<open>TColumnValueToHS2TColumnValue\<close> copies the
  payload field of the source always, except in the text variant, where it copies it when
  it is present only. For \<^verbatim>\<open>NULL_TYPE\<close>, \<^verbatim>\<open>ExprValueToHS2TColumnValue\<close> selects the boolean
  variant and unsets its value-presence flag, whatever the value is.
\<close>

theorem legacy_converters_select_family:
  assumes "spec_family (st_type st) = Some v"
    and "\<forall>p. value = Some p \<longrightarrow> pointee_ok h st p"
  shows "(\<exists>out. ExprValueToHS2TColumnValue h value (scalar_column_type st) hs2_col_val = Some out
      \<and> (\<forall>v'. selected out v' = (selected hs2_col_val v' \<or> v' = v))
      \<and> present out v = (value \<noteq> None)
      \<and> payload_of out v =
          (case value of None \<Rightarrow> payload_of hs2_col_val v | Some p \<Rightarrow> spec_convert h st p))
    \<and> (\<exists>out. TColumnValueToHS2TColumnValue col_val (scalar_column_type st) hs2_col_val = Some out
      \<and> (\<forall>v'. selected out v' = (selected hs2_col_val v' \<or> v' = v))
      \<and> present out v = source_isset col_val v
      \<and> payload_of out v =
          (if v = StringVariant \<and> \<not> source_isset col_val v then payload_of hs2_col_val v
           else source_payload col_val v))
    \<and> (\<forall>nt. st_type nt = TPrimitiveType.NULL_TYPE \<longrightarrow>
         ExprValueToHS2TColumnValue h value (scalar_column_type nt) hs2_col_val
         = Some (hs2_col_val
             \<lparr>cv_isset_boolVal := True,
              cv_boolVal := (cv_boolVal hs2_col_val)\<lparr>val_isset_value := False\<rparr>\<rparr>))"
proof -
  have "\<forall>nt. st_type nt = TPrimitiveType.NULL_TYPE \<longrightarrow>
         ExprValueToHS2TColumnValue h value (scalar_column_type nt) hs2_col_val
         = Some (hs2_col_val
             \<lparr>cv_isset_boolVal := True,
              cv_boolVal := (cv_boolVal hs2_col_val)\<lparr>val_isset_value := False\<rparr>\<rparr>)"
    by (simp add: ExprValueToHS2TColumnValue_def Let_def)
  with ExprValueToHS2TColumnValue_family [OF assms, of hs2_col_val]
    TColumnValueToHS2TColumnValue_family [OF assms(1), of col_val hs2_col_val]
  show ?thesis by (intro conjI)
qed

theorem legacy_converters_select_family_witness:
  "spec_family (st_type
       \<lparr>st_type = TPrimitiveType.CHAR, st_len = 5, st_precision = 0, st_scale = 0\<rparr>)
     = Some StringVariant
   \<and> pointee_ok sample_host
       \<lparr>st_type = TPrimitiveType.CHAR, st_len = 5, st_precision = 0, st_scale = 0\<rparr>
       (CharSlot ''ab   '')
   \<and> (\<exists>out. ExprValueToHS2TColumnValue sample_host (Some (CharSlot ''ab   ''))
         (scalar_column_type
            \<lparr>st_type = TPrimitiveType.CHAR, st_len = 5, st_precision = 0, st_scale = 0\<rparr>)
         hs2_TColumnValue_default = Some out
      \<and> (\<forall>v'. selected out v' = (selected hs2_TColumnValue_default v' \<or> v' = StringVariant))
      \<and> present out StringVariant = (Some (CharSlot ''ab   '') \<noteq> None)
      \<and> payload_of out StringVariant = StringPayload ''ab   '')
   \<and> (\<exists>out. TColumnValueToHS2TColumnValue (TColumnValue_default\<lparr>string_val := ''xy''\<rparr>)
         (scalar_column_type
            \<lparr>st_type = TPrimitiveType.CHAR, st_len = 5, st_precision = 0, st_scale = 0\<rparr>)
         hs2_TColumnValue_default = Some out
      \<and> (\<forall>v'. selected out v' = (selected hs2_TColumnValue_default v' \<or> v' = StringVariant))
      \<and> present out StringVariant
          = source_isset (TColumnValue_default\<lparr>string_val := ''xy''\<rparr>) StringVariant
      \<and> payload_of out StringVariant = StringPayload [])"
proof -
  let ?st = "\<lparr>st_type = TPrimitiveType.CHAR, st_len = 5, st_precision = 0, st_scale = 0\<rparr>"
  let ?c = "TColumnValue_default\<lparr>string_val := ''xy''\<rparr>"
  have fam: "spec_family (st_type ?st) = Some StringVariant"
    by (simp add: spec_family_def)
  have ok: "\<forall>p. Some (CharSlot ''ab   '') = Some p \<longrightarrow> pointee_ok sample_host ?st p"
    by (simp add: pointee_ok_def)
  have e1: "(case Some (CharSlot ''ab   '') of
        None \<Rightarrow> payload_of hs2_TColumnValue_default StringVariant
      | Some p \<Rightarrow> spec_convert sample_host ?st p) = StringPayload ''ab   ''"
    by simp
  have e2: "(if StringVariant = StringVariant \<and> \<not> source_isset ?c StringVariant
       then payload_of hs2_TColumnValue_default StringVariant
       else source_payload ?c StringVariant) = StringPayload []"
    by (simp add: TColumnValue_default_def hs2_TColumnValue_default_def)
  note w = legacy_converters_select_family [OF fam ok, of hs2_TColumnValue_default ?c]
  from conjI [OF w [THEN conjunct1] w [THEN conjunct2, THEN conjunct1]]
  have "(\<exists>out. ExprValueToHS2TColumnValue sample_host (Some (CharSlot ''ab   ''))
         (scalar_column_type ?st) hs2_TColumnValue_default = Some out
      \<and> (\<forall>v'. selected out v' = (selected hs2_TColumnValue_default v' \<or> v' = StringVariant))
      \<and> present out StringVariant = (Some (CharSlot ''ab   '') \<noteq> None)
      \<and> payload_of out StringVariant = StringPayload ''ab   '')
   \<and> (\<exists>out. TColumnValueToHS2TColumnValue ?c (scalar_column_type ?st)
         hs2_TColumnValue_default = Some out
      \<and> (\<forall>v'. selected out v' = (selected hs2_TColumnValue_default v' \<or> v' = StringVariant))
      \<and> present out StringVariant = source_isset ?c StringVariant
      \<and> payload_of out StringVariant = StringPayload [])"
    unfolding e1 e2 .
  moreover have "pointee_ok sample_host ?st (CharSlot ''ab   '')"
    by (simp add: pointee_ok_def)
  ultimately show ?thesis using fam by (intro conjI) (elim conjE, assumption)+
qed

subsection \<open>The bulk appenders on a fresh column\<close>

lemma list_update_prefix_replicate:
  assumes "ri < k"
  shows "(map out [0..<ri] @ replicate (k - ri) z)[ri := out ri]
           = map out [0..<Suc ri] @ replicate (k - Suc ri) z"
proof -
  from assms obtain m where m: "k - ri = Suc m" "k - Suc ri = m"
    by (cases "k - ri") auto
  show ?thesis
    by (simp add: m list_update_append)
qed

lemma nth_prefix_replicate:
  "ri < k \<Longrightarrow> (map out [0..<ri] @ replicate (k - ri) z) ! ri = z"
  by (simp add: nth_append)

lemma SetNullsSize_fresh:
  "int k + 7 \<le> INT_MAX \<Longrightarrow> SetNullsSize k [] = Some (replicate ((k + 7) div 8) 0)"
  by (simp add: SetNullsSize_def GetNullsRequiredSize_nat resize_def)

lemma test_bit_replicate_zero:
  "j < 8 * n \<Longrightarrow> \<not> test_bit (replicate n 0) j"
  by (simp add: test_bit_def less_mult_imp_div_less mult.commute)

lemma SetNullBitNoResize_in:
  assumes bnd: "int ri + 8 \<le> INT_MAX" and rik: "ri < k"
    and bp: "bitmap_prefix_in ((k + 7) div 8) ri P nl"
  shows "\<exists>nl'. SetNullBitNoResize ri f nl = Some nl'
           \<and> bitmap_prefix_in ((k + 7) div 8) (Suc ri) (P(ri := f)) nl'"
proof -
  from bp have len: "length nl = (k + 7) div 8"
    and bits: "\<And>q. q < 8 * ((k + 7) div 8) \<Longrightarrow> test_bit nl q = (q < ri \<and> P q)"
    by (simp_all add: bitmap_prefix_in_def)
  have cov: "ri div 8 < length nl" unfolding len using rik by (rule div8_less_ceil)
  from cov obtain nl' where o: "or_bit ri f nl = Some nl'"
    by (auto simp add: or_bit_Some)
  have sn: "SetNullBitNoResize ri f nl = Some nl'"
    using SetNullBitNoResize_Some [OF bnd cov] o by simp
  have l': "length nl' = (k + 7) div 8" using or_bit_length [OF o] len by simp
  have "test_bit nl' q = (q < Suc ri \<and> (P(ri := f)) q)" if q: "q < 8 * ((k + 7) div 8)" for q
  proof -
    from q have "q div 8 < length nl"
      unfolding len by (simp add: less_mult_imp_div_less mult.commute)
    from or_bit_test_bit [OF o this] bits [OF q]
    show ?thesis by (auto simp add: less_Suc_eq)
  qed
  with sn l' show ?thesis by (simp add: bitmap_prefix_in_def)
qed

lemma append_range_fresh:
  assumes b: "int (s + k) + 7 \<le> INT_MAX"
    and get: "\<And>i. i < k \<Longrightarrow> get (int (s + i)) = Some (vals i)"
    and st: "\<And>i. i < k \<Longrightarrow> store (vals i) z = Some (out i)"
  shows "\<exists>nulls. append_range get store flag z [] [] s 0 (int k) = Some (map out [0..<k], nulls)
           \<and> bitmap_prefix k (\<lambda>i. flag (vals i)) nulls"
proof -
  let ?nb = "(k + 7) div 8"
  let ?body = "\<lambda>i (result_idx, result, nulls). do {
               value \<leftarrow> get i;
               _ \<leftarrow> index_in result_idx result;
               x \<leftarrow> store value (result ! result_idx);
               nulls \<leftarrow> SetNullBitNoResize result_idx (flag value) nulls;
               Some ((result_idx + 1) mod 2 ^ 32, result[result_idx := x], nulls)
             }"
  define Inv where "Inv = (\<lambda>j t. case t of (ri, res, nl) \<Rightarrow> j = int (s + ri) \<and> ri \<le> k
      \<and> res = map out [0..<ri] @ replicate (k - ri) z
      \<and> bitmap_prefix_in ?nb ri (\<lambda>q. flag (vals q)) nl)"
  have k32: "to_uint32 (int k) = k"
    using b by (subst to_uint32_small) simp_all
  have km: "k mod 2 ^ 32 = k" "(s + k) mod 2 ^ 32 = s + k"
    using b by (simp_all add: INT_MAX_def)
  have si: "to_int s = int s"
    using b by (intro to_int_small) simp
  have rs: "resize (int k) z [] = Some (replicate k z)"
    by (simp add: resize_def)
  have ns: "SetNullsSize k [] = Some (replicate ?nb 0)"
    using b by (intro SetNullsSize_fresh) simp
  have loop: "\<exists>t. for_loop (int s) (s + k) ?body (0, replicate k z, replicate ?nb 0) = Some t
      \<and> Inv (int (s + k)) t"
  proof (rule for_loop_rule)
    show "Inv (int s) (0, replicate k z, replicate ?nb 0)"
      by (simp add: Inv_def bitmap_prefix_in_def test_bit_replicate_zero)
    show "0 \<le> int s" by simp
    show "int s \<le> int (s + k)" by simp
    show "int (s + k) \<le> INT_MAX" using b by simp
  next
    fix j t
    assume j: "int s \<le> j" "j < int (s + k)" and inv: "Inv j t"
    obtain ri res nl where t: "t = (ri, res, nl)" by (cases t)
    from inv have jj: "j = int (s + ri)"
      and res: "res = map out [0..<ri] @ replicate (k - ri) z"
      and bp: "bitmap_prefix_in ?nb ri (\<lambda>q. flag (vals q)) nl"
      unfolding Inv_def t by simp_all
    from j jj have rik: "ri < k" by linarith
    have g: "get j = Some (vals ri)" unfolding jj using rik by (rule get)
    have ix: "index_in ri res = Some ()"
      using rik by (simp add: index_in_def res)
    have old: "res ! ri = z" unfolding res using rik by (rule nth_prefix_replicate)
    have s1: "store (vals ri) (res ! ri) = Some (out ri)" unfolding old using rik by (rule st)
    have bnd: "int ri + 8 \<le> INT_MAX" using rik b by simp
    have tr: "(\<lambda>q. flag (vals q))(ri := flag (vals ri)) = (\<lambda>q. flag (vals q))"
      by (rule fun_upd_triv)
    from SetNullBitNoResize_in [OF bnd rik bp, of "flag (vals ri)"]
    obtain nl' where sn: "SetNullBitNoResize ri (flag (vals ri)) nl = Some nl'"
      and bp': "bitmap_prefix_in ?nb (Suc ri) (\<lambda>q. flag (vals q)) nl'"
      unfolding tr by blast
    have m1: "(ri + 1) mod 2 ^ 32 = Suc ri" using bnd by (simp add: INT_MAX_def)
    have upd: "res[ri := out ri] = map out [0..<Suc ri] @ replicate (k - Suc ri) z"
      unfolding res using rik by (rule list_update_prefix_replicate)
    have "?body j t = Some (Suc ri, res[ri := out ri], nl')"
      unfolding t by (simp only: prod.case g ix s1 sn m1 Option.bind.simps)
    moreover have "j + 1 = int (s + Suc ri)" using jj by simp
    then have "Inv (j + 1) (Suc ri, res[ri := out ri], nl')"
      unfolding Inv_def prod.case using rik upd bp' by (intro conjI) simp_all
    ultimately show "\<exists>t'. ?body j t = Some t' \<and> Inv (j + 1) t'" by blast
  qed
  then obtain t where fl: "for_loop (int s) (s + k) ?body (0, replicate k z, replicate ?nb 0)
      = Some t" and inv: "Inv (int (s + k)) t"
    by blast
  obtain ri res nl where t: "t = (ri, res, nl)" by (cases t)
  from inv have "ri = k" unfolding Inv_def t by simp
  with inv have res: "res = map out [0..<k]" and bp: "bitmap_prefix k (\<lambda>i. flag (vals i)) nl"
    unfolding Inv_def t by (simp_all add: bitmap_prefix_in_def bitmap_prefix_def)
  have "append_range get store flag z [] [] s 0 (int k) = Some (res, nl)"
    unfolding append_range_def Let_def
    by (simp only: add_0 k32 km si rs ns fl t Option.bind.simps prod.case)
  with res bp show ?thesis by simp
qed

subsection \<open>The bulk appender of expression values\<close>

lemma append_rows_fresh:
  assumes b: "int (s + k) + 7 \<le> INT_MAX"
    and range: "s + k \<le> length rows"
    and st: "\<And>i. i < k \<Longrightarrow> store (rows ! (s + i)) z = Some (out i)"
  shows "\<exists>nulls. append_range (GetValue rows) store (\<lambda>value. value = None) z [] [] s 0 (int k)
             = Some (map out [0..<k], nulls)
           \<and> bitmap_prefix k (\<lambda>i. rows ! (s + i) = None) nulls"
proof (rule append_range_fresh [OF b])
  fix i assume "i < k"
  with range have "s + i < length rows" by simp
  moreover have "nat (int (s + i)) = s + i" by (rule nat_int)
  ultimately show "GetValue rows (int (s + i)) = Some (rows ! (s + i))"
    unfolding GetValue_def by (simp only: of_nat_0_le_iff simp_thms if_True)
next
  fix i assume "i < k"
  then show "store (rows ! (s + i)) z = Some (out i)" by (rule st)
qed

lemma map_wrap_cells:
  assumes "\<And>i. i < k \<Longrightarrow> wrap (un (cell i)) = cell i"
  shows "map wrap (map (\<lambda>i. un (cell i)) [0..<k]) = map cell [0..<k]"
  using assms by simp

lemma cell_BOOLEAN:
  assumes "st_type st = TPrimitiveType.BOOLEAN" and "\<forall>p. value = Some p \<longrightarrow> pointee_ok h st p"
  shows "map_option (\<lambda>x. x) (deref_or False as_bool value) = Some (bool_of (spec_cell h st BoolVariant value))"
    and "BoolPayload (bool_of (spec_cell h st BoolVariant value)) = spec_cell h st BoolVariant value"
proof -
  have "value = None \<or> (\<exists>x. value = Some (Bool x))"
  proof (cases "value")
    case None then show ?thesis by simp
  next
    case (Some p)
    with assms have "pointee_ok h st p" by simp
    with assms(1) Some show ?thesis by (cases p) (simp_all add: pointee_ok_def)
  qed
  then show "map_option (\<lambda>x. x) (deref_or False as_bool value) = Some (bool_of (spec_cell h st BoolVariant value))"
    and "BoolPayload (bool_of (spec_cell h st BoolVariant value)) = spec_cell h st BoolVariant value"
    by (auto simp add: deref_or_def spec_cell_def)
qed

lemma cell_TINYINT:
  assumes "st_type st = TPrimitiveType.TINYINT" and "\<forall>p. value = Some p \<longrightarrow> pointee_ok h st p"
  shows "map_option (\<lambda>x. x) (deref_or 0 as_int8 value) = Some (byte_of (spec_cell h st ByteVariant value))"
    and "BytePayload (byte_of (spec_cell h st ByteVariant value)) = spec_cell h st ByteVariant value"
proof -
  have "value = None \<or> (\<exists>x. value = Some (Int8 x))"
  proof (cases "value")
    case None then show ?thesis by simp
  next
    case (Some p)
    with assms have "pointee_ok h st p" by simp
    with assms(1) Some show ?thesis by (cases p) (simp_all add: pointee_ok_def)
  qed
  then show "map_option (\<lambda>x. x) (deref_or 0 as_int8 value) = Some (byte_of (spec_cell h st ByteVariant value))"
    and "BytePayload (byte_of (spec_cell h st ByteVariant value)) = spec_cell h st ByteVariant value"
    by (auto simp add: deref_or_def spec_cell_def)
qed

lemma cell_SMALLINT:
  assumes "st_type st = TPrimitiveType.SMALLINT" and "\<forall>p. value = Some p \<longrightarrow> pointee_ok h st p"
  shows "map_option (\<lambda>x. x) (deref_or 0 as_int16 value) = Some (i16_of (spec_cell h st I16Variant value))"
    and "I16Payload (i16_of (spec_cell h st I16Variant value)) = spec_cell h st I16Variant value"
proof -
  have "value = None \<or> (\<exists>x. value = Some (Int16 x))"
  proof (cases "value")
    case None then show ?thesis by simp
  next
    case (Some p)
    with assms have "pointee_ok h st p" by simp
    with assms(1) Some show ?thesis by (cases p) (simp_all add: pointee_ok_def)
  qed
  then show "map_option (\<lambda>x. x) (deref_or 0 as_int16 value) = Some (i16_of (spec_cell h st I16Variant value))"
    and "I16Payload (i16_of (spec_cell h st I16Variant value)) = spec_cell h st I16Variant value"
    by (auto simp add: deref_or_def spec_cell_def)
qed

lemma cell_INT:
  assumes "st_type st = TPrimitiveType.INT" and "\<forall>p. value = Some p \<longrightarrow> pointee_ok h st p"
  shows "map_option (\<lambda>x. x) (deref_or 0 as_int32 value) = Some (i32_of (spec_cell h st I32Variant value))"
    and "I32Payload (i32_of (spec_cell h st I32Variant value)) = spec_cell h st I32Variant value"
proof -
  have "value = None \<or> (\<exists>x. value = Some (Int32 x))"
  proof (cases "value")
    case None then show ?thesis by simp
  next
    case (Some p)
    with assms have "pointee_ok h st p" by simp
    with assms(1) Some show ?thesis by (cases p) (simp_all add: pointee_ok_def)
  qed
  then show "map_option (\<lambda>x. x) (deref_or 0 as_int32 value) = Some (i32_of (spec_cell h st I32Variant value))"
    and "I32Payload (i32_of (spec_cell h st I32Variant value)) = spec_cell h st I32Variant value"
    by (auto simp add: deref_or_def spec_cell_def)
qed

lemma cell_BIGINT:
  assumes "st_type st = TPrimitiveType.BIGINT" and "\<forall>p. value = Some p \<longrightarrow> pointee_ok h st p"
  shows "map_option (\<lambda>x. x) (deref_or 0 as_int64 value) = Some (i64_of (spec_cell h st I64Variant value))"
    and "I64Payload (i64_of (spec_cell h st I64Variant value)) = spec_cell h st I64Variant value"
proof -
  have "value = None \<or> (\<exists>x. value = Some (Int64 x))"
  proof (cases "value")
    case None then show ?thesis by simp
  next
    case (Some p)
    with assms have "pointee_ok h st p" by simp
    with assms(1) Some show ?thesis by (cases p) (simp_all add: pointee_ok_def)
  qed
  then show "map_option (\<lambda>x. x) (deref_or 0 as_int64 value) = Some (i64_of (spec_cell h st I64Variant value))"
    and "I64Payload (i64_of (spec_cell h st I64Variant value)) = spec_cell h st I64Variant value"
    by (auto simp add: deref_or_def spec_cell_def)
qed

lemma cell_FLOAT:
  assumes "st_type st = TPrimitiveType.FLOAT" and "\<forall>p. value = Some p \<longrightarrow> pointee_ok h st p"
  shows "map_option (\<lambda>x. x) (deref_or 0 as_float value) = Some (double_of (spec_cell h st DoubleVariant value))"
    and "DoublePayload (double_of (spec_cell h st DoubleVariant value)) = spec_cell h st DoubleVariant value"
proof -
  have "value = None \<or> (\<exists>x. value = Some (Float x))"
  proof (cases "value")
    case None then show ?thesis by simp
  next
    case (Some p)
    with assms have "pointee_ok h st p" by simp
    with assms(1) Some show ?thesis by (cases p) (simp_all add: pointee_ok_def)
  qed
  then show "map_option (\<lambda>x. x) (deref_or 0 as_float value) = Some (double_of (spec_cell h st DoubleVariant value))"
    and "DoublePayload (double_of (spec_cell h st DoubleVariant value)) = spec_cell h st DoubleVariant value"
    by (auto simp add: deref_or_def spec_cell_def)
qed

lemma cell_DOUBLE:
  assumes "st_type st = TPrimitiveType.DOUBLE" and "\<forall>p. value = Some p \<longrightarrow> pointee_ok h st p"
  shows "map_option (\<lambda>x. x) (deref_or 0 as_double value) = Some (double_of (spec_cell h st DoubleVariant value))"
    and "DoublePayload (double_of (spec_cell h st DoubleVariant value)) = spec_cell h st DoubleVariant value"
proof -
  have "value = None \<or> (\<exists>x. value = Some (Double x))"
  proof (cases "value")
    case None then show ?thesis by simp
  next
    case (Some p)
    with assms have "pointee_ok h st p" by simp
    with assms(1) Some show ?thesis by (cases p) (simp_all add: pointee_ok_def)
  qed
  then show "map_option (\<lambda>x. x) (deref_or 0 as_double value) = Some (double_of (spec_cell h st DoubleVariant value))"
    and "DoublePayload (double_of (spec_cell h st DoubleVariant value)) = spec_cell h st DoubleVariant value"
    by (auto simp add: deref_or_def spec_cell_def)
qed

lemma cell_STRING:
  assumes "st_type st = TPrimitiveType.STRING \<or> st_type st = TPrimitiveType.VARCHAR"
    and "\<forall>p. value = Some p \<longrightarrow> pointee_ok h st p"
  shows "if_not_null value assign_StringValue [] = Some (string_of (spec_cell h st StringVariant value))"
    and "StringPayload (string_of (spec_cell h st StringVariant value))
          = spec_cell h st StringVariant value"
proof (atomize (full), cases "value")
  case None
  then show "if_not_null value assign_StringValue []
       = Some (string_of (spec_cell h st StringVariant value))
     \<and> StringPayload (string_of (spec_cell h st StringVariant value))
          = spec_cell h st StringVariant value"
    by (simp add: if_not_null_def spec_cell_def)
next
  case (Some p)
  with assms have pok: "pointee_ok h st p" by simp
  from assms(1) pok obtain ptr len where "p = String (StringValue ptr len)" "0 \<le> len"
      "nat len \<le> length ptr"
    by (rule pointee_ok_String)
  with Some show "if_not_null value assign_StringValue []
       = Some (string_of (spec_cell h st StringVariant value))
     \<and> StringPayload (string_of (spec_cell h st StringVariant value))
          = spec_cell h st StringVariant value"
    by (simp add: if_not_null_def spec_cell_def assign_StringValue_def assign_Some)
qed

lemma cell_CHAR:
  assumes "st_type st = TPrimitiveType.CHAR"
    and "\<forall>p. value = Some p \<longrightarrow> pointee_ok h st p"
  shows "if_not_null value (assign_CharSlot (CreateCharType (st_len st))) []
          = Some (string_of (spec_cell h st StringVariant value))"
    and "StringPayload (string_of (spec_cell h st StringVariant value))
          = spec_cell h st StringVariant value"
proof (atomize (full), cases "value")
  case None
  then show "if_not_null value (assign_CharSlot (CreateCharType (st_len st))) []
       = Some (string_of (spec_cell h st StringVariant value))
     \<and> StringPayload (string_of (spec_cell h st StringVariant value))
          = spec_cell h st StringVariant value"
    by (simp add: if_not_null_def spec_cell_def)
next
  case (Some p)
  with assms have pok: "pointee_ok h st p" by simp
  from assms(1) pok obtain s where "p = CharSlot s" "0 \<le> st_len st" "nat (st_len st) \<le> length s"
    by (rule pointee_ok_CharSlot)
  with Some show "if_not_null value (assign_CharSlot (CreateCharType (st_len st))) []
       = Some (string_of (spec_cell h st StringVariant value))
     \<and> StringPayload (string_of (spec_cell h st StringVariant value))
          = spec_cell h st StringVariant value"
    by (simp add: if_not_null_def spec_cell_def assign_CharSlot_def assign_Some CreateCharType_def)
qed

lemma cell_TIMESTAMP:
  assumes "st_type st = TPrimitiveType.TIMESTAMP"
    and "\<forall>p. value = Some p \<longrightarrow> pointee_ok h st p"
  shows "if_not_null value (PrintValue_timestamp h) []
          = Some (string_of (spec_cell h st StringVariant value))"
    and "StringPayload (string_of (spec_cell h st StringVariant value))
          = spec_cell h st StringVariant value"
proof -
  have "value = None \<or> (\<exists>x. value = Some (Timestamp x))"
  proof (cases "value")
    case None then show ?thesis by simp
  next
    case (Some p)
    with assms have "pointee_ok h st p" by simp
    with assms(1) Some show ?thesis by (cases p) (simp_all add: pointee_ok_def)
  qed
  then show "if_not_null value (PrintValue_timestamp h) []
          = Some (string_of (spec_cell h st StringVariant value))"
    and "StringPayload (string_of (spec_cell h st StringVariant value))
          = spec_cell h st StringVariant value"
    by (auto simp add: if_not_null_def spec_cell_def PrintValue_timestamp_def)
qed

lemma cell_DECIMAL4:
  assumes "st_type st = TPrimitiveType.DECIMAL" and "GetByteSize h st = 4"
    and "\<forall>p. value = Some p \<longrightarrow> pointee_ok h st p"
  shows "deref_or [] (\<lambda>p. do { d \<leftarrow> as_decimal4 p; Some (Decimal4Value_ToString h d st) }) value
          = Some (string_of (spec_cell h st StringVariant value))"
    and "StringPayload (string_of (spec_cell h st StringVariant value))
          = spec_cell h st StringVariant value"
proof -
  have "value = None \<or> (\<exists>x. value = Some (Decimal4 x))"
  proof (cases "value")
    case None then show ?thesis by simp
  next
    case (Some p)
    with assms have "pointee_ok h st p" by simp
    with assms(1,2) Some show ?thesis by (cases p) (simp_all add: pointee_ok_def)
  qed
  then show "deref_or [] (\<lambda>p. do { d \<leftarrow> as_decimal4 p; Some (Decimal4Value_ToString h d st) }) value
          = Some (string_of (spec_cell h st StringVariant value))"
    and "StringPayload (string_of (spec_cell h st StringVariant value))
          = spec_cell h st StringVariant value"
    by (auto simp add: deref_or_def spec_cell_def)
qed

lemma cell_DECIMAL8:
  assumes "st_type st = TPrimitiveType.DECIMAL" and "GetByteSize h st = 8"
    and "\<forall>p. value = Some p \<longrightarrow> pointee_ok h st p"
  shows "deref_or [] (\<lambda>p. do { d \<leftarrow> as_decimal8 p; Some (Decimal8Value_ToString h d st) }) value
          = Some (string_of (spec_cell h st StringVariant value))"
    and "StringPayload (string_of (spec_cell h st StringVariant value))
          = spec_cell h st StringVariant value"
proof -
  have "value = None \<or> (\<exists>x. value = Some (Decimal8 x))"
  proof (cases "value")
    case None then show ?thesis by simp
  next
    case (Some p)
    with assms have "pointee_ok h st p" by simp
    with assms(1,2) Some show ?thesis by (cases p) (simp_all add: pointee_ok_def)
  qed
  then show "deref_or [] (\<lambda>p. do { d \<leftarrow> as_decimal8 p; Some (Decimal8Value_ToString h d st) }) value
          = Some (string_of (spec_cell h st StringVariant value))"
    and "StringPayload (string_of (spec_cell h st StringVariant value))
          = spec_cell h st StringVariant value"
    by (auto simp add: deref_or_def spec_cell_def)
qed

lemma cell_DECIMAL16:
  assumes "st_type st = TPrimitiveType.DECIMAL" and "GetByteSize h st = 16"
    and "\<forall>p. value = Some p \<longrightarrow> pointee_ok h st p"
  shows "deref_or [] (\<lambda>p. do { d \<leftarrow> as_decimal16 p; Some (Decimal16Value_ToString h d st) }) value
          = Some (string_of (spec_cell h st StringVariant value))"
    and "StringPayload (string_of (spec_cell h st StringVariant value))
          = spec_cell h st StringVariant value"
proof -
  have "value = None \<or> (\<exists>x. value = Some (Decimal16 x))"
  proof (cases "value")
    case None then show ?thesis by simp
  next
    case (Some p)
    with assms have "pointee_ok h st p" by simp
    with assms(1,2) Some show ?thesis by (cases p) (simp_all add: pointee_ok_def)
  qed
  then show "deref_or [] (\<lambda>p. do { d \<leftarrow> as_decimal16 p; Some (Decimal16Value_ToString h d st) }) value
          = Some (string_of (spec_cell h st StringVariant value))"
    and "StringPayload (string_of (spec_cell h st StringVariant value))
          = spec_cell h st StringVariant value"
    by (auto simp add: deref_or_def spec_cell_def)
qed

lemma ExprValuesToHS2TColumn_cells:
  assumes fam: "spec_family (st_type st) = Some v"
    and tok: "type_ok h st"
    and b: "int (s + k) + 7 \<le> INT_MAX"
    and range: "s + k \<le> length rows"
    and ok: "\<forall>i < k. \<forall>p. rows ! (s + i) = Some p \<longrightarrow> pointee_ok h st p"
  shows "\<exists>column'. ExprValuesToHS2TColumn h rows (scalar_column_type st) s 0 (int k) TColumn_empty
             = Some column'
           \<and> column_payloads v column' = map (\<lambda>i. spec_cell h st v (rows ! (s + i))) [0..<k]
           \<and> bitmap_prefix k (\<lambda>i. rows ! (s + i) = None) (column_nulls v column')"
proof -
  have oki: "\<forall>p. rows ! (s + i) = Some p \<longrightarrow> pointee_ok h st p" if "i < k" for i
    using ok that by blast
  from fam show ?thesis
  proof (cases rule: spec_family_cases)
    case 1
    define vals where "vals = map (\<lambda>i. bool_of (spec_cell h st BoolVariant (rows ! (s + i)))) [0..<k]"
    have "\<exists>nulls. AddValues as_bool False (\<lambda>x. x) rows [] [] s 0 (int k) = Some (vals, nulls)
        \<and> bitmap_prefix k (\<lambda>i. rows ! (s + i) = None) nulls"
      unfolding vals_def AddValues_def
      by (rule append_rows_fresh [OF b range]) (rule cell_BOOLEAN(1) [OF 1(1) oki])
    then obtain nulls where add: "AddValues as_bool False (\<lambda>x. x) rows [] [] s 0 (int k) = Some (vals, nulls)"
      and bp: "bitmap_prefix k (\<lambda>i. rows ! (s + i) = None) nulls"
      by blast
    have wr: "map BoolPayload vals = map (\<lambda>i. spec_cell h st BoolVariant (rows ! (s + i))) [0..<k]"
      unfolding vals_def by (rule map_wrap_cells) (rule cell_BOOLEAN(2) [OF 1(1) oki])
    have "ExprValuesToHS2TColumn h rows (scalar_column_type st) s 0 (int k) TColumn_empty
        = Some (TColumn_empty\<lparr>boolVal := \<lparr>col_values = vals, col_nulls = nulls\<rparr>\<rparr>)"
      using 1 add by (simp add: ExprValuesToHS2TColumn_def TColumn_empty_def Let_def)
    with wr bp 1(2) show ?thesis by simp
  next
    case 2
    define vals where "vals = map (\<lambda>i. byte_of (spec_cell h st ByteVariant (rows ! (s + i)))) [0..<k]"
    have "\<exists>nulls. AddValues as_int8 0 (\<lambda>x. x) rows [] [] s 0 (int k) = Some (vals, nulls)
        \<and> bitmap_prefix k (\<lambda>i. rows ! (s + i) = None) nulls"
      unfolding vals_def AddValues_def
      by (rule append_rows_fresh [OF b range]) (rule cell_TINYINT(1) [OF 2(1) oki])
    then obtain nulls where add: "AddValues as_int8 0 (\<lambda>x. x) rows [] [] s 0 (int k) = Some (vals, nulls)"
      and bp: "bitmap_prefix k (\<lambda>i. rows ! (s + i) = None) nulls"
      by blast
    have wr: "map BytePayload vals = map (\<lambda>i. spec_cell h st ByteVariant (rows ! (s + i))) [0..<k]"
      unfolding vals_def by (rule map_wrap_cells) (rule cell_TINYINT(2) [OF 2(1) oki])
    have "ExprValuesToHS2TColumn h rows (scalar_column_type st) s 0 (int k) TColumn_empty
        = Some (TColumn_empty\<lparr>byteVal := \<lparr>col_values = vals, col_nulls = nulls\<rparr>\<rparr>)"
      using 2 add by (simp add: ExprValuesToHS2TColumn_def TColumn_empty_def Let_def)
    with wr bp 2(2) show ?thesis by simp
  next
    case 3
    define vals where "vals = map (\<lambda>i. i16_of (spec_cell h st I16Variant (rows ! (s + i)))) [0..<k]"
    have "\<exists>nulls. AddValues as_int16 0 (\<lambda>x. x) rows [] [] s 0 (int k) = Some (vals, nulls)
        \<and> bitmap_prefix k (\<lambda>i. rows ! (s + i) = None) nulls"
      unfolding vals_def AddValues_def
      by (rule append_rows_fresh [OF b range]) (rule cell_SMALLINT(1) [OF 3(1) oki])
    then obtain nulls where add: "AddValues as_int16 0 (\<lambda>x. x) rows [] [] s 0 (int k) = Some (vals, nulls)"
      and bp: "bitmap_prefix k (\<lambda>i. rows ! (s + i) = None) nulls"
      by blast
    have wr: "map I16Payload vals = map (\<lambda>i. spec_cell h st I16Variant (rows ! (s + i))) [0..<k]"
      unfolding vals_def by (rule map_wrap_cells) (rule cell_SMALLINT(2) [OF 3(1) oki])
    have "ExprValuesToHS2TColumn h rows (scalar_column_type st) s 0 (int k) TColumn_empty
        = Some (TColumn_empty\<lparr>i16Val := \<lparr>col_values = vals, col_nulls = nulls\<rparr>\<rparr>)"
      using 3 add by (simp add: ExprValuesToHS2TColumn_def TColumn_empty_def Let_def)
    with wr bp 3(2) show ?thesis by simp
  next
    case 4
    define vals where "vals = map (\<lambda>i. i32_of (spec_cell h st I32Variant (rows ! (s + i)))) [0..<k]"
    have "\<exists>nulls. AddValues as_int32 0 (\<lambda>x. x) rows [] [] s 0 (int k) = Some (vals, nulls)
        \<and> bitmap_prefix k (\<lambda>i. rows ! (s + i) = None) nulls"
      unfolding vals_def AddValues_def
      by (rule append_rows_fresh [OF b range]) (rule cell_INT(1) [OF 4(1) oki])
    then obtain nulls where add: "AddValues as_int32 0 (\<lambda>x. x) rows [] [] s 0 (int k) = Some (vals, nulls)"
      and bp: "bitmap_prefix k (\<lambda>i. rows ! (s + i) = None) nulls"
      by blast
    have wr: "map I32Payload vals = map (\<lambda>i. spec_cell h st I32Variant (rows ! (s + i))) [0..<k]"
      unfolding vals_def by (rule map_wrap_cells) (rule cell_INT(2) [OF 4(1) oki])
    have "ExprValuesToHS2TColumn h rows (scalar_column_type st) s 0 (int k) TColumn_empty
        = Some (TColumn_empty\<lparr>i32Val := \<lparr>col_values = vals, col_nulls = nulls\<rparr>\<rparr>)"
      using 4 add by (simp add: ExprValuesToHS2TColumn_def TColumn_empty_def Let_def)
    with wr bp 4(2) show ?thesis by simp
  next
    case 5
    define vals where "vals = map (\<lambda>i. i64_of (spec_cell h st I64Variant (rows ! (s + i)))) [0..<k]"
    have "\<exists>nulls. AddValues as_int64 0 (\<lambda>x. x) rows [] [] s 0 (int k) = Some (vals, nulls)
        \<and> bitmap_prefix k (\<lambda>i. rows ! (s + i) = None) nulls"
      unfolding vals_def AddValues_def
      by (rule append_rows_fresh [OF b range]) (rule cell_BIGINT(1) [OF 5(1) oki])
    then obtain nulls where add: "AddValues as_int64 0 (\<lambda>x. x) rows [] [] s 0 (int k) = Some (vals, nulls)"
      and bp: "bitmap_prefix k (\<lambda>i. rows ! (s + i) = None) nulls"
      by blast
    have wr: "map I64Payload vals = map (\<lambda>i. spec_cell h st I64Variant (rows ! (s + i))) [0..<k]"
      unfolding vals_def by (rule map_wrap_cells) (rule cell_BIGINT(2) [OF 5(1) oki])
    have "ExprValuesToHS2TColumn h rows (scalar_column_type st) s 0 (int k) TColumn_empty
        = Some (TColumn_empty\<lparr>i64Val := \<lparr>col_values = vals, col_nulls = nulls\<rparr>\<rparr>)"
      using 5 add by (simp add: ExprValuesToHS2TColumn_def TColumn_empty_def Let_def)
    with wr bp 5(2) show ?thesis by simp
  next
    case 6
    define vals where "vals = map (\<lambda>i. double_of (spec_cell h st DoubleVariant (rows ! (s + i)))) [0..<k]"
    have "\<exists>nulls. AddValues as_float 0 (\<lambda>x. x) rows [] [] s 0 (int k) = Some (vals, nulls)
        \<and> bitmap_prefix k (\<lambda>i. rows ! (s + i) = None) nulls"
      unfolding vals_def AddValues_def
      by (rule append_rows_fresh [OF b range]) (rule cell_FLOAT(1) [OF 6(1) oki])
    then obtain nulls where add: "AddValues as_float 0 (\<lambda>x. x) rows [] [] s 0 (int k) = Some (vals, nulls)"
      and bp: "bitmap_prefix k (\<lambda>i. rows ! (s + i) = None) nulls"
      by blast
    have wr: "map DoublePayload vals = map (\<lambda>i. spec_cell h st DoubleVariant (rows ! (s + i))) [0..<k]"
      unfolding vals_def by (rule map_wrap_cells) (rule cell_FLOAT(2) [OF 6(1) oki])
    have "ExprValuesToHS2TColumn h rows (scalar_column_type st) s 0 (int k) TColumn_empty
        = Some (TColumn_empty\<lparr>doubleVal := \<lparr>col_values = vals, col_nulls = nulls\<rparr>\<rparr>)"
      using 6 add by (simp add: ExprValuesToHS2TColumn_def TColumn_empty_def Let_def)
    with wr bp 6(2) show ?thesis by simp
  next
    case 7
    define vals where "vals = map (\<lambda>i. double_of (spec_cell h st DoubleVariant (rows ! (s + i)))) [0..<k]"
    have "\<exists>nulls. AddValues as_double 0 (\<lambda>x. x) rows [] [] s 0 (int k) = Some (vals, nulls)
        \<and> bitmap_prefix k (\<lambda>i. rows ! (s + i) = None) nulls"
      unfolding vals_def AddValues_def
      by (rule append_rows_fresh [OF b range]) (rule cell_DOUBLE(1) [OF 7(1) oki])
    then obtain nulls where add: "AddValues as_double 0 (\<lambda>x. x) rows [] [] s 0 (int k) = Some (vals, nulls)"
      and bp: "bitmap_prefix k (\<lambda>i. rows ! (s + i) = None) nulls"
      by blast
    have wr: "map DoublePayload vals = map (\<lambda>i. spec_cell h st DoubleVariant (rows ! (s + i))) [0..<k]"
      unfolding vals_def by (rule map_wrap_cells) (rule cell_DOUBLE(2) [OF 7(1) oki])
    have "ExprValuesToHS2TColumn h rows (scalar_column_type st) s 0 (int k) TColumn_empty
        = Some (TColumn_empty\<lparr>doubleVal := \<lparr>col_values = vals, col_nulls = nulls\<rparr>\<rparr>)"
      using 7 add by (simp add: ExprValuesToHS2TColumn_def TColumn_empty_def Let_def)
    with wr bp 7(2) show ?thesis by simp
  next
    case 8
    from 8(1) have sv: "st_type st = TPrimitiveType.STRING \<or> st_type st = TPrimitiveType.VARCHAR"
      by simp
    define vals where "vals = map (\<lambda>i. string_of (spec_cell h st StringVariant (rows ! (s + i)))) [0..<k]"
    have "\<exists>nulls. AddStringValues rows [] [] s 0 (int k) = Some (vals, nulls)
        \<and> bitmap_prefix k (\<lambda>i. rows ! (s + i) = None) nulls"
      unfolding vals_def AddStringValues_def
      by (rule append_rows_fresh [OF b range]) (rule cell_STRING(1) [OF sv oki])
    then obtain nulls where add: "AddStringValues rows [] [] s 0 (int k) = Some (vals, nulls)"
      and bp: "bitmap_prefix k (\<lambda>i. rows ! (s + i) = None) nulls"
      by blast
    have wr: "map StringPayload vals = map (\<lambda>i. spec_cell h st StringVariant (rows ! (s + i))) [0..<k]"
      unfolding vals_def by (rule map_wrap_cells) (rule cell_STRING(2) [OF sv oki])
    have "ExprValuesToHS2TColumn h rows (scalar_column_type st) s 0 (int k) TColumn_empty
        = Some (TColumn_empty\<lparr>stringVal := \<lparr>col_values = vals, col_nulls = nulls\<rparr>\<rparr>)"
      using 8 add by (simp add: ExprValuesToHS2TColumn_def TColumn_empty_def Let_def)
    with wr bp 8(2) show ?thesis by simp
  next
    case 9
    from 9(1) have sv: "st_type st = TPrimitiveType.STRING \<or> st_type st = TPrimitiveType.VARCHAR"
      by simp
    define vals where "vals = map (\<lambda>i. string_of (spec_cell h st StringVariant (rows ! (s + i)))) [0..<k]"
    have "\<exists>nulls. AddStringValues rows [] [] s 0 (int k) = Some (vals, nulls)
        \<and> bitmap_prefix k (\<lambda>i. rows ! (s + i) = None) nulls"
      unfolding vals_def AddStringValues_def
      by (rule append_rows_fresh [OF b range]) (rule cell_STRING(1) [OF sv oki])
    then obtain nulls where add: "AddStringValues rows [] [] s 0 (int k) = Some (vals, nulls)"
      and bp: "bitmap_prefix k (\<lambda>i. rows ! (s + i) = None) nulls"
      by blast
    have wr: "map StringPayload vals = map (\<lambda>i. spec_cell h st StringVariant (rows ! (s + i))) [0..<k]"
      unfolding vals_def by (rule map_wrap_cells) (rule cell_STRING(2) [OF sv oki])
    have "ExprValuesToHS2TColumn h rows (scalar_column_type st) s 0 (int k) TColumn_empty
        = Some (TColumn_empty\<lparr>stringVal := \<lparr>col_values = vals, col_nulls = nulls\<rparr>\<rparr>)"
      using 9 add by (simp add: ExprValuesToHS2TColumn_def TColumn_empty_def Let_def)
    with wr bp 9(2) show ?thesis by simp
  next
    case 10
    define vals where "vals = map (\<lambda>i. string_of (spec_cell h st StringVariant (rows ! (s + i)))) [0..<k]"
    have "\<exists>nulls. AddCharValues rows [] (CreateCharType (st_len st)) [] s 0 (int k) = Some (vals, nulls)
        \<and> bitmap_prefix k (\<lambda>i. rows ! (s + i) = None) nulls"
      unfolding vals_def AddCharValues_def
      by (rule append_rows_fresh [OF b range]) (rule cell_CHAR(1) [OF 10(1) oki])
    then obtain nulls where add: "AddCharValues rows [] (CreateCharType (st_len st)) [] s 0 (int k) = Some (vals, nulls)"
      and bp: "bitmap_prefix k (\<lambda>i. rows ! (s + i) = None) nulls"
      by blast
    have wr: "map StringPayload vals = map (\<lambda>i. spec_cell h st StringVariant (rows ! (s + i))) [0..<k]"
      unfolding vals_def by (rule map_wrap_cells) (rule cell_CHAR(2) [OF 10(1) oki])
    have "ExprValuesToHS2TColumn h rows (scalar_column_type st) s 0 (int k) TColumn_empty
        = Some (TColumn_empty\<lparr>stringVal := \<lparr>col_values = vals, col_nulls = nulls\<rparr>\<rparr>)"
      using 10 add by (simp add: ExprValuesToHS2TColumn_def TColumn_empty_def Let_def)
    with wr bp 10(2) show ?thesis by simp
  next
    case 11
    define vals where "vals = map (\<lambda>i. string_of (spec_cell h st StringVariant (rows ! (s + i)))) [0..<k]"
    have "\<exists>nulls. AddTimestampValues h rows [] [] s 0 (int k) = Some (vals, nulls)
        \<and> bitmap_prefix k (\<lambda>i. rows ! (s + i) = None) nulls"
      unfolding vals_def AddTimestampValues_def
      by (rule append_rows_fresh [OF b range]) (rule cell_TIMESTAMP(1) [OF 11(1) oki])
    then obtain nulls where add: "AddTimestampValues h rows [] [] s 0 (int k) = Some (vals, nulls)"
      and bp: "bitmap_prefix k (\<lambda>i. rows ! (s + i) = None) nulls"
      by blast
    have wr: "map StringPayload vals = map (\<lambda>i. spec_cell h st StringVariant (rows ! (s + i))) [0..<k]"
      unfolding vals_def by (rule map_wrap_cells) (rule cell_TIMESTAMP(2) [OF 11(1) oki])
    have "ExprValuesToHS2TColumn h rows (scalar_column_type st) s 0 (int k) TColumn_empty
        = Some (TColumn_empty\<lparr>stringVal := \<lparr>col_values = vals, col_nulls = nulls\<rparr>\<rparr>)"
      using 11 add by (simp add: ExprValuesToHS2TColumn_def TColumn_empty_def Let_def)
    with wr bp 11(2) show ?thesis by simp
  next
    case 12
    from tok 12(1) consider (w4) "GetByteSize h st = 4" | (w8) "GetByteSize h st = 8"
      | (w16) "GetByteSize h st = 16"
      by (auto simp add: type_ok_def)
    then show ?thesis
    proof cases
      case w4
      define vals where "vals = map (\<lambda>i. string_of (spec_cell h st StringVariant (rows ! (s + i)))) [0..<k]"
      have "\<exists>nulls. AddDecimalValues (\<lambda>p. do { d \<leftarrow> as_decimal4 p; Some (Decimal4Value_ToString h d st) }) rows [] [] s 0 (int k) = Some (vals, nulls)
          \<and> bitmap_prefix k (\<lambda>i. rows ! (s + i) = None) nulls"
        unfolding vals_def AddDecimalValues_def
        by (rule append_rows_fresh [OF b range]) (rule cell_DECIMAL4(1) [OF 12(1) w4 oki])
      then obtain nulls where add: "AddDecimalValues (\<lambda>p. do { d \<leftarrow> as_decimal4 p; Some (Decimal4Value_ToString h d st) }) rows [] [] s 0 (int k) = Some (vals, nulls)"
        and bp: "bitmap_prefix k (\<lambda>i. rows ! (s + i) = None) nulls"
        by blast
      have wr: "map StringPayload vals = map (\<lambda>i. spec_cell h st StringVariant (rows ! (s + i))) [0..<k]"
        unfolding vals_def by (rule map_wrap_cells) (rule cell_DECIMAL4(2) [OF 12(1) w4 oki])
      have "ExprValuesToHS2TColumn h rows (scalar_column_type st) s 0 (int k) TColumn_empty
          = Some (TColumn_empty\<lparr>stringVal := \<lparr>col_values = vals, col_nulls = nulls\<rparr>\<rparr>)"
        using 12 add by (simp add: ExprValuesToHS2TColumn_def TColumn_empty_def Let_def w4)
      with wr bp 12(2) show ?thesis by simp
    next
      case w8
      define vals where "vals = map (\<lambda>i. string_of (spec_cell h st StringVariant (rows ! (s + i)))) [0..<k]"
      have "\<exists>nulls. AddDecimalValues (\<lambda>p. do { d \<leftarrow> as_decimal8 p; Some (Decimal8Value_ToString h d st) }) rows [] [] s 0 (int k) = Some (vals, nulls)
          \<and> bitmap_prefix k (\<lambda>i. rows ! (s + i) = None) nulls"
        unfolding vals_def AddDecimalValues_def
        by (rule append_rows_fresh [OF b range]) (rule cell_DECIMAL8(1) [OF 12(1) w8 oki])
      then obtain nulls where add: "AddDecimalValues (\<lambda>p. do { d \<leftarrow> as_decimal8 p; Some (Decimal8Value_ToString h d st) }) rows [] [] s 0 (int k) = Some (vals, nulls)"
        and bp: "bitmap_prefix k (\<lambda>i. rows ! (s + i) = None) nulls"
        by blast
      have wr: "map StringPayload vals = map (\<lambda>i. spec_cell h st StringVariant (rows ! (s + i))) [0..<k]"
        unfolding vals_def by (rule map_wrap_cells) (rule cell_DECIMAL8(2) [OF 12(1) w8 oki])
      have "ExprValuesToHS2TColumn h rows (scalar_column_type st) s 0 (int k) TColumn_empty
          = Some (TColumn_empty\<lparr>stringVal := \<lparr>col_values = vals, col_nulls = nulls\<rparr>\<rparr>)"
        using 12 add by (simp add: ExprValuesToHS2TColumn_def TColumn_empty_def Let_def w8)
      with wr bp 12(2) show ?thesis by simp
    next
      case w16
      define vals where "vals = map (\<lambda>i. string_of (spec_cell h st StringVariant (rows ! (s + i)))) [0..<k]"
      have "\<exists>nulls. AddDecimalValues (\<lambda>p. do { d \<leftarrow> as_decimal16 p; Some (Decimal16Value_ToString h d st) }) rows [] [] s 0 (int k) = Some (vals, nulls)
          \<and> bitmap_prefix k (\<lambda>i. rows ! (s + i) = None) nulls"
        unfolding vals_def AddDecimalValues_def
        by (rule append_rows_fresh [OF b range]) (rule cell_DECIMAL16(1) [OF 12(1) w16 oki])
      then obtain nulls where add: "AddDecimalValues (\<lambda>p. do { d \<leftarrow> as_decimal16 p; Some (Decimal16Value_ToString h d st) }) rows [] [] s 0 (int k) = Some (vals, nulls)"
        and bp: "bitmap_prefix k (\<lambda>i. rows ! (s + i) = None) nulls"
        by blast
      have wr: "map StringPayload vals = map (\<lambda>i. spec_cell h st StringVariant (rows ! (s + i))) [0..<k]"
        unfolding vals_def by (rule map_wrap_cells) (rule cell_DECIMAL16(2) [OF 12(1) w16 oki])
      have "ExprValuesToHS2TColumn h rows (scalar_column_type st) s 0 (int k) TColumn_empty
          = Some (TColumn_empty\<lparr>stringVal := \<lparr>col_values = vals, col_nulls = nulls\<rparr>\<rparr>)"
        using 12 add by (simp add: ExprValuesToHS2TColumn_def TColumn_empty_def Let_def w16)
      with wr bp 12(2) show ?thesis by simp
    qed
  qed
qed

text \<open>
  Claim C2. For every family and every row batch, \<^verbatim>\<open>ExprValuesToHS2TColumn\<close> appending the
  rows \<open>[s, s + k)\<close> at position 0 of an empty column returns; the value array of the family
  has \<open>k\<close> entries, the placeholder of the family (zero or the empty text) at every null row
  and the converted value elsewhere; and the null bitmap of the family has \<open>ceil (k / 8)\<close>
  bytes whose set bits are exactly the bits of the null rows. This holds for every pattern
  of nulls, in particular where every other value is null. The pointers are well-typed and
  the row numbers stay within \<^verbatim>\<open>int\<close>.
\<close>

theorem ExprValuesToHS2TColumn_fresh:
  assumes fam: "spec_family (st_type st) = Some v"
    and tok: "type_ok h st"
    and b: "int (s + k) + 7 \<le> INT_MAX"
    and range: "s + k \<le> length rows"
    and ok: "\<forall>i < k. \<forall>p. rows ! (s + i) = Some p \<longrightarrow> pointee_ok h st p"
  shows "\<exists>column'. ExprValuesToHS2TColumn h rows (scalar_column_type st) s 0 (int k) TColumn_empty
             = Some column'
           \<and> column_payloads v column' = map (\<lambda>i. spec_cell h st v (rows ! (s + i))) [0..<k]
           \<and> bitmap_prefix k (\<lambda>i. rows ! (s + i) = None) (column_nulls v column')
           \<and> (\<forall>j < k. GetNullBit (column_nulls v column') j = Some (rows ! (s + j) = None))"
proof -
  from ExprValuesToHS2TColumn_cells [OF assms]
  obtain column' where c: "ExprValuesToHS2TColumn h rows (scalar_column_type st) s 0 (int k)
      TColumn_empty = Some column'"
    and p: "column_payloads v column' = map (\<lambda>i. spec_cell h st v (rows ! (s + i))) [0..<k]"
    and bp: "bitmap_prefix k (\<lambda>i. rows ! (s + i) = None) (column_nulls v column')"
    by blast
  have "GetNullBit (column_nulls v column') j = Some (rows ! (s + j) = None)" if j: "j < k" for j
  proof -
    from bp have len: "length (column_nulls v column') = (k + 7) div 8"
      by (simp add: bitmap_prefix_def)
    have cov: "j div 8 < length (column_nulls v column')"
      unfolding len using j by (rule div8_less_ceil)
    then have "j < 8 * length (column_nulls v column')"
      by (rule div8_less_imp_less)
    with bp j have tb: "test_bit (column_nulls v column') j = (rows ! (s + j) = None)"
      by (simp add: bitmap_prefix_def)
    have "int j + 8 \<le> INT_MAX" using j b by simp
    from GetNullBit_Some [OF this cov] tb show ?thesis by simp
  qed
  with c p bp show ?thesis by blast
qed

theorem ExprValuesToHS2TColumn_fresh_witness:
  "spec_family (st_type
       \<lparr>st_type = TPrimitiveType.INT, st_len = 0, st_precision = 0, st_scale = 0\<rparr>)
     = Some I32Variant
   \<and> type_ok sample_host
       \<lparr>st_type = TPrimitiveType.INT, st_len = 0, st_precision = 0, st_scale = 0\<rparr>
   \<and> int (0 + 5) + 7 \<le> INT_MAX
   \<and> 0 + 5 \<le> length [None, Some (Int32 7), None, Some (Int32 9), None]
   \<and> (\<exists>column'. ExprValuesToHS2TColumn sample_host
          [None, Some (Int32 7), None, Some (Int32 9), None]
          (scalar_column_type
             \<lparr>st_type = TPrimitiveType.INT, st_len = 0, st_precision = 0, st_scale = 0\<rparr>)
          0 0 (int 5) TColumn_empty = Some column'
        \<and> column_payloads I32Variant column'
            = [I32Payload 0, I32Payload 7, I32Payload 0, I32Payload 9, I32Payload 0]
        \<and> bitmap_prefix 5 (\<lambda>i. [None, Some (Int32 7), None, Some (Int32 9), None] ! (0 + i) = None)
            (column_nulls I32Variant column')
        \<and> (\<forall>j < 5. GetNullBit (column_nulls I32Variant column') j
              = Some ([None, Some (Int32 7), None, Some (Int32 9), None] ! (0 + j) = None)))"
proof -
  let ?st = "\<lparr>st_type = TPrimitiveType.INT, st_len = 0, st_precision = 0, st_scale = 0\<rparr>"
  let ?rows = "[None, Some (Int32 7), None, Some (Int32 9), None]"
  have fam: "spec_family (st_type ?st) = Some I32Variant"
    by (simp add: spec_family_def)
  have tok: "type_ok sample_host ?st"
    by (simp add: type_ok_def)
  have b: "int (0 + 5) + 7 \<le> INT_MAX"
    by (simp add: INT_MAX_def)
  have range: "0 + 5 \<le> length ?rows"
    by simp
  have ok: "\<forall>i < 5. \<forall>p. ?rows ! (0 + i) = Some p \<longrightarrow> pointee_ok sample_host ?st p"
  proof (intro allI impI)
    fix i :: nat and p
    assume "i < 5" and p: "?rows ! (0 + i) = Some p"
    then consider "i = 0" | "i = 1" | "i = 2" | "i = 3" | "i = 4" by linarith
    then show "pointee_ok sample_host ?st p"
      using p by cases (auto simp add: pointee_ok_def)
  qed
  have e: "map (\<lambda>i. spec_cell sample_host ?st I32Variant (?rows ! (0 + i))) [0..<5]
      = [I32Payload 0, I32Payload 7, I32Payload 0, I32Payload 9, I32Payload 0]"
    by (simp add: spec_cell_def upt_rec nth_Cons')
  from ExprValuesToHS2TColumn_fresh [OF fam tok b range ok]
  have w: "\<exists>column'. ExprValuesToHS2TColumn sample_host ?rows (scalar_column_type ?st)
          0 0 (int 5) TColumn_empty = Some column'
        \<and> column_payloads I32Variant column'
            = [I32Payload 0, I32Payload 7, I32Payload 0, I32Payload 9, I32Payload 0]
        \<and> bitmap_prefix 5 (\<lambda>i. ?rows ! (0 + i) = None) (column_nulls I32Variant column')
        \<and> (\<forall>j < 5. GetNullBit (column_nulls I32Variant column') j
              = Some (?rows ! (0 + j) = None))"
    unfolding e .
  show ?thesis
    by (rule conjI [OF fam conjI [OF tok conjI [OF b conjI [OF range w]]]])
qed

subsection \<open>Bulk and single appending of pre-decoded values\<close>

lemmas bitmap_eval =
  SetNullBit_def SetNullBitNoResize_def SetNullsSize_def GetNullsRequiredSize_def
  DCHECK_LE_size_def or_bit_def to_int_def to_uint32_def INT_MAX_def resize_def
  signed_divide_int_def

text \<open>
  Claim C1 fails on the code. One present string value, appended to an empty column:
  \<^verbatim>\<open>TColumnValueToHS2TColumn\<close> stores the string in \<^verbatim>\<open>stringVal.values\<close> and a clear bit in
  \<^verbatim>\<open>stringVal.nulls\<close>. \<^verbatim>\<open>TColumnValuesToHS2TColumn\<close> stores the one-character string made from
  \<^verbatim>\<open>long_val\<close> in \<^verbatim>\<open>stringVal.values\<close>, leaves \<^verbatim>\<open>stringVal.nulls\<close> empty and resizes
  \<^verbatim>\<open>i64Val.nulls\<close>. And for one present boolean value the bulk function sets the null bit
  that the single function leaves clear: it passes \<^verbatim>\<open>__isset.bool_val\<close> where the single
  function passes its negation.
\<close>

theorem TColumnValuesToHS2TColumn_diverges:
  "TColumnValueToHS2TColumn (TColumnValue_default\<lparr>string_val := ''hi'', isset_string_val := True\<rparr>)
     (scalar_column_type
        \<lparr>st_type = TPrimitiveType.STRING, st_len = 0, st_precision = 0, st_scale = 0\<rparr>)
     0 TColumn_empty
   = Some (TColumn_empty\<lparr>stringVal := \<lparr>col_values = [''hi''], col_nulls = [0]\<rparr>\<rparr>)
   \<and> TColumnValuesToHS2TColumn
     [TColumnValue_default\<lparr>string_val := ''hi'', isset_string_val := True\<rparr>]
     (scalar_column_type
        \<lparr>st_type = TPrimitiveType.STRING, st_len = 0, st_precision = 0, st_scale = 0\<rparr>)
     0 0 1 TColumn_empty
   = Some (TColumn_empty\<lparr>stringVal := \<lparr>col_values = [[CHR 0x00]], col_nulls = []\<rparr>,
                          i64Val := \<lparr>col_values = [], col_nulls = [0]\<rparr>\<rparr>)
   \<and> TColumnValueToHS2TColumn (TColumnValue_default\<lparr>bool_val := True, isset_bool_val := True\<rparr>)
     (scalar_column_type
        \<lparr>st_type = TPrimitiveType.BOOLEAN, st_len = 0, st_precision = 0, st_scale = 0\<rparr>)
     0 TColumn_empty
   = Some (TColumn_empty\<lparr>boolVal := \<lparr>col_values = [True], col_nulls = [0]\<rparr>\<rparr>)
   \<and> TColumnValuesToHS2TColumn
     [TColumnValue_default\<lparr>bool_val := True, isset_bool_val := True\<rparr>]
     (scalar_column_type
        \<lparr>st_type = TPrimitiveType.BOOLEAN, st_len = 0, st_precision = 0, st_scale = 0\<rparr>)
     0 0 1 TColumn_empty
   = Some (TColumn_empty\<lparr>boolVal := \<lparr>col_values = [True], col_nulls = [1]\<rparr>\<rparr>)"
  by (simp add: TColumnValueToHS2TColumn_def TColumnValuesToHS2TColumn_def push_back_value_def
      append_range_def col_vals_at_def index_in_def string_of_long_def for_loop.simps
      bitmap_eval TColumn_empty_def TColumnValue_default_def Let_def)

subsection \<open>Fixed-width character slots\<close>

lemma div8_less_ceil8:
  fixes r :: nat
  assumes "r mod 8 \<noteq> 0"
  shows "r div 8 < (r + 7) div 8"
proof -
  have "0 < r mod 8" using assms by simp
  then have "8 * (r div 8) + 8 \<le> r + 7"
    using mult_div_mod_eq [of 8 r] by linarith
  then have "8 * Suc (r div 8) \<le> r + 7"
    by simp
  then have "(8 * Suc (r div 8)) div 8 \<le> (r + 7) div 8"
    by (rule div_le_mono)
  then show ?thesis by simp
qed

lemma SetNullBit_returns:
  assumes "int row_idx + 7 \<le> INT_MAX" and "(row_idx + 7) div 8 \<le> length nulls"
  shows "\<exists>nulls'. SetNullBit row_idx f nulls = Some nulls'"
proof -
  let ?n = "if row_idx mod 8 = 0 then nulls @ [0] else nulls"
  have "row_idx div 8 < length ?n"
  proof (cases "row_idx mod 8 = 0")
    case True
    have "row_idx div 8 \<le> (row_idx + 7) div 8" by (rule div_le_mono) simp
    with assms(2) True show ?thesis by simp
  next
    case False
    with div8_less_ceil8 [of row_idx] assms(2) show ?thesis by simp
  qed
  then show ?thesis
    unfolding SetNullBit_Some [OF assms] by (simp add: or_bit_Some)
qed

lemma push_back_value_returns:
  assumes "int row_idx + 7 \<le> INT_MAX" and "(row_idx + 7) div 8 \<le> length (col_nulls col)"
  shows "\<exists>nulls'. push_back_value x f row_idx col
           = Some \<lparr>col_values = col_values col @ [x], col_nulls = nulls'\<rparr>"
  using SetNullBit_returns [OF assms, of f] by (auto simp add: push_back_value_def)

lemma assign_CharSlot_take:
  assumes "0 \<le> st_len st" and "nat (st_len st) \<le> length slot"
  shows "assign_CharSlot (CreateCharType (st_len st)) (CharSlot slot)
           = Some (take (nat (st_len st)) slot)"
  using assms by (simp add: assign_CharSlot_def CreateCharType_def assign_Some)

lemma ExprValueToHS2TColumn_CHAR:
  assumes ch: "st_type st = TPrimitiveType.CHAR"
    and n: "0 \<le> st_len st" "nat (st_len st) \<le> length slot"
    and b: "int row_idx + 7 \<le> INT_MAX"
    and c: "(row_idx + 7) div 8 \<le> length (col_nulls (stringVal column))"
  shows "\<exists>column'. ExprValueToHS2TColumn h (Some (CharSlot slot)) (scalar_column_type st)
             row_idx column = Some column'
           \<and> col_values (stringVal column')
               = col_values (stringVal column) @ [take (nat (st_len st)) slot]"
proof -
  from push_back_value_returns [OF b c, of "take (nat (st_len st)) slot" False]
  obtain nulls' where "push_back_value (take (nat (st_len st)) slot) False row_idx
      (stringVal column)
    = Some \<lparr>col_values = col_values (stringVal column) @ [take (nat (st_len st)) slot],
            col_nulls = nulls'\<rparr>"
    by blast
  with ch show ?thesis
    by (simp add: ExprValueToHS2TColumn_def Let_def if_not_null_def assign_CharSlot_take [OF n])
qed

lemma ExprValueToHS2TColumnValue_CHAR:
  assumes ch: "st_type st = TPrimitiveType.CHAR"
    and n: "0 \<le> st_len st" "nat (st_len st) \<le> length slot"
  shows "\<exists>out. ExprValueToHS2TColumnValue h (Some (CharSlot slot)) (scalar_column_type st)
             hs2_col_val = Some out
           \<and> val_isset_value (cv_stringVal out)
           \<and> val_value (cv_stringVal out) = take (nat (st_len st)) slot"
  using ch
  by (simp add: ExprValueToHS2TColumnValue_def Let_def if_not_null_def
      assign_CharSlot_take [OF n])

lemma ExprValuesToHS2TColumn_CHAR:
  assumes ch: "st_type st = TPrimitiveType.CHAR"
    and n: "0 \<le> st_len st" "nat (st_len st) \<le> length slot"
    and b: "int (s + k) + 7 \<le> INT_MAX"
    and range: "s + k \<le> length rows"
    and ok: "\<forall>i < k. \<forall>p. rows ! (s + i) = Some p \<longrightarrow> pointee_ok h st p"
    and i: "i < k" "rows ! (s + i) = Some (CharSlot slot)"
  shows "\<exists>column'. ExprValuesToHS2TColumn h rows (scalar_column_type st) s 0 (int k) TColumn_empty
             = Some column'
           \<and> length (col_values (stringVal column')) = k
           \<and> col_values (stringVal column') ! i = take (nat (st_len st)) slot"
proof -
  have fam: "spec_family (st_type st) = Some StringVariant"
    using ch by (simp add: spec_family_def)
  have tok: "type_ok h st"
    using ch by (simp add: type_ok_def)
  from ExprValuesToHS2TColumn_cells [OF fam tok b range ok]
  obtain column' where c: "ExprValuesToHS2TColumn h rows (scalar_column_type st) s 0 (int k)
      TColumn_empty = Some column'"
    and p: "column_payloads StringVariant column'
      = map (\<lambda>i. spec_cell h st StringVariant (rows ! (s + i))) [0..<k]"
    by blast
  from p have "length (map StringPayload (col_values (stringVal column')))
      = length (map (\<lambda>i. spec_cell h st StringVariant (rows ! (s + i))) [0..<k])"
    by simp
  then have len: "length (col_values (stringVal column')) = k"
    by simp
  from p have "map StringPayload (col_values (stringVal column')) ! i
      = map (\<lambda>i. spec_cell h st StringVariant (rows ! (s + i))) [0..<k] ! i"
    by simp
  with i len have "StringPayload (col_values (stringVal column') ! i)
      = StringPayload (take (nat (st_len st)) slot)"
    by (simp add: spec_cell_def)
  with c len show ?thesis by simp
qed

text \<open>
  Claim C9. For a \<open>char(N)\<close> column and a present value whose slot holds at least \<open>N\<close>
  characters, the three appenders of expression values return and copy exactly the first
  \<open>N\<close> characters of the slot, padding included: \<^verbatim>\<open>ExprValueToHS2TColumn\<close> appends them to
  \<^verbatim>\<open>stringVal.values\<close>, \<^verbatim>\<open>ExprValuesToHS2TColumn\<close> (through \<^verbatim>\<open>AddCharValues\<close>) stores them at
  the row's place, and the legacy \<^verbatim>\<open>ExprValueToHS2TColumnValue\<close> stores them in the text
  variant.
\<close>

theorem char_slot_copied_untrimmed:
  assumes "st_type st = TPrimitiveType.CHAR"
    and "0 \<le> st_len st" and "nat (st_len st) \<le> length slot"
  shows "length (take (nat (st_len st)) slot) = nat (st_len st)
    \<and> (int row_idx + 7 \<le> INT_MAX \<and> (row_idx + 7) div 8 \<le> length (col_nulls (stringVal column))
        \<longrightarrow> (\<exists>column'. ExprValueToHS2TColumn h (Some (CharSlot slot)) (scalar_column_type st)
               row_idx column = Some column'
             \<and> col_values (stringVal column')
                 = col_values (stringVal column) @ [take (nat (st_len st)) slot]))
    \<and> (int (s + k) + 7 \<le> INT_MAX \<and> s + k \<le> length rows
         \<and> (\<forall>i < k. \<forall>p. rows ! (s + i) = Some p \<longrightarrow> pointee_ok h st p)
         \<and> i < k \<and> rows ! (s + i) = Some (CharSlot slot)
        \<longrightarrow> (\<exists>column'. ExprValuesToHS2TColumn h rows (scalar_column_type st) s 0 (int k)
               TColumn_empty = Some column'
             \<and> length (col_values (stringVal column')) = k
             \<and> col_values (stringVal column') ! i = take (nat (st_len st)) slot))
    \<and> (\<exists>out. ExprValueToHS2TColumnValue h (Some (CharSlot slot)) (scalar_column_type st)
             hs2_col_val = Some out
           \<and> val_isset_value (cv_stringVal out)
           \<and> val_value (cv_stringVal out) = take (nat (st_len st)) slot)"
proof (intro conjI impI)
  show "length (take (nat (st_len st)) slot) = nat (st_len st)"
    using assms(3) by simp
next
  assume "int row_idx + 7 \<le> INT_MAX \<and> (row_idx + 7) div 8 \<le> length (col_nulls (stringVal column))"
  then show "\<exists>column'. ExprValueToHS2TColumn h (Some (CharSlot slot)) (scalar_column_type st)
               row_idx column = Some column'
             \<and> col_values (stringVal column')
                 = col_values (stringVal column) @ [take (nat (st_len st)) slot]"
    by (elim conjE) (rule ExprValueToHS2TColumn_CHAR [OF assms])
next
  assume a: "int (s + k) + 7 \<le> INT_MAX \<and> s + k \<le> length rows
         \<and> (\<forall>i < k. \<forall>p. rows ! (s + i) = Some p \<longrightarrow> pointee_ok h st p)
         \<and> i < k \<and> rows ! (s + i) = Some (CharSlot slot)"
  show "\<exists>column'. ExprValuesToHS2TColumn h rows (scalar_column_type st) s 0 (int k)
               TColumn_empty = Some column'
             \<and> length (col_values (stringVal column')) = k
             \<and> col_values (stringVal column') ! i = take (nat (st_len st)) slot"
  proof (rule ExprValuesToHS2TColumn_CHAR [OF assms])
    show "int (s + k) + 7 \<le> INT_MAX" using a by (elim conjE)
    show "s + k \<le> length rows" using a by (elim conjE)
    show "\<forall>i < k. \<forall>p. rows ! (s + i) = Some p \<longrightarrow> pointee_ok h st p" using a by (elim conjE)
    show "i < k" using a by (elim conjE)
    show "rows ! (s + i) = Some (CharSlot slot)" using a by (elim conjE)
  qed
next
  show "\<exists>out. ExprValueToHS2TColumnValue h (Some (CharSlot slot)) (scalar_column_type st)
             hs2_col_val = Some out
           \<and> val_isset_value (cv_stringVal out)
           \<and> val_value (cv_stringVal out) = take (nat (st_len st)) slot"
    by (rule ExprValueToHS2TColumnValue_CHAR [OF assms])
qed

theorem char_slot_copied_untrimmed_witness:
  "st_type \<lparr>st_type = TPrimitiveType.CHAR, st_len = 5, st_precision = 0, st_scale = 0\<rparr>
     = TPrimitiveType.CHAR
   \<and> 0 \<le> st_len \<lparr>st_type = TPrimitiveType.CHAR, st_len = 5, st_precision = 0, st_scale = 0\<rparr>
   \<and> nat (st_len \<lparr>st_type = TPrimitiveType.CHAR, st_len = 5, st_precision = 0, st_scale = 0\<rparr>)
       \<le> length ''ab   ''
   \<and> length (take 5 ''ab   '') = 5
   \<and> (\<exists>column'. ExprValueToHS2TColumn sample_host (Some (CharSlot ''ab   ''))
          (scalar_column_type
             \<lparr>st_type = TPrimitiveType.CHAR, st_len = 5, st_precision = 0, st_scale = 0\<rparr>)
          0 TColumn_empty = Some column'
        \<and> col_values (stringVal column') = [''ab   ''])
   \<and> (\<exists>column'. ExprValuesToHS2TColumn sample_host [Some (CharSlot ''ab   '')]
          (scalar_column_type
             \<lparr>st_type = TPrimitiveType.CHAR, st_len = 5, st_precision = 0, st_scale = 0\<rparr>)
          0 0 (int 1) TColumn_empty = Some column'
        \<and> length (col_values (stringVal column')) = 1
        \<and> col_values (stringVal column') ! 0 = ''ab   '')
   \<and> (\<exists>out. ExprValueToHS2TColumnValue sample_host (Some (CharSlot ''ab   ''))
          (scalar_column_type
             \<lparr>st_type = TPrimitiveType.CHAR, st_len = 5, st_precision = 0, st_scale = 0\<rparr>)
          hs2_TColumnValue_default = Some out
        \<and> val_isset_value (cv_stringVal out)
        \<and> val_value (cv_stringVal out) = ''ab   '')"
proof -
  let ?st = "\<lparr>st_type = TPrimitiveType.CHAR, st_len = 5, st_precision = 0, st_scale = 0\<rparr>"
  let ?rows = "[Some (CharSlot ''ab   '')]"
  have h1: "st_type ?st = TPrimitiveType.CHAR" by simp
  have h2: "0 \<le> st_len ?st" by simp
  have h3: "nat (st_len ?st) \<le> length ''ab   ''" by simp
  have tk: "take (nat (st_len ?st)) ''ab   '' = ''ab   ''" by simp
  have n5: "nat (st_len ?st) = 5" by simp
  have p1: "int 0 + 7 \<le> INT_MAX
      \<and> (0 + 7) div 8 \<le> length (col_nulls (stringVal TColumn_empty))"
    by (simp add: INT_MAX_def TColumn_empty_def)
  have p2: "int (0 + 1) + 7 \<le> INT_MAX \<and> 0 + 1 \<le> length ?rows
      \<and> (\<forall>i < 1. \<forall>p. ?rows ! (0 + i) = Some p \<longrightarrow> pointee_ok sample_host ?st p)
      \<and> (0::nat) < 1 \<and> ?rows ! (0 + 0) = Some (CharSlot ''ab   '')"
    by (simp add: INT_MAX_def pointee_ok_def)
  note w = char_slot_copied_untrimmed [OF h1 h2 h3, of 0 TColumn_empty sample_host 0 1 ?rows 0
      hs2_TColumnValue_default]
  have c0: "length (take 5 ''ab   '') = 5" by simp
  have c1: "\<exists>column'. ExprValueToHS2TColumn sample_host (Some (CharSlot ''ab   ''))
          (scalar_column_type ?st) 0 TColumn_empty = Some column'
        \<and> col_values (stringVal column')
            = col_values (stringVal TColumn_empty) @ [take (nat (st_len ?st)) ''ab   '']"
    by (rule w [THEN conjunct2, THEN conjunct1, THEN mp, OF p1])
  have e1: "col_values (stringVal TColumn_empty) @ [take (nat (st_len ?st)) ''ab   '']
      = [''ab   '']"
    by (simp add: TColumn_empty_def)
  have c2: "\<exists>column'. ExprValuesToHS2TColumn sample_host ?rows
          (scalar_column_type ?st) 0 0 (int 1) TColumn_empty = Some column'
        \<and> length (col_values (stringVal column')) = 1
        \<and> col_values (stringVal column') ! 0 = take (nat (st_len ?st)) ''ab   ''"
    by (rule w [THEN conjunct2, THEN conjunct2, THEN conjunct1, THEN mp, OF p2])
  have c3: "\<exists>out. ExprValueToHS2TColumnValue sample_host (Some (CharSlot ''ab   ''))
          (scalar_column_type ?st) hs2_TColumnValue_default = Some out
        \<and> val_isset_value (cv_stringVal out)
        \<and> val_value (cv_stringVal out) = take (nat (st_len ?st)) ''ab   ''"
    by (rule w [THEN conjunct2, THEN conjunct2, THEN conjunct2])
  show ?thesis
    using h1 h2 h3 c0 c1 [unfolded e1] c2 [unfolded tk] c3 [unfolded tk]
    by (intro conjI)
qed

subsection \<open>The type tag \<^verbatim>\<open>NULL_TYPE\<close>\<close>

lemma push_back_value_frame:
  "push_back_value x f row_idx col = Some col' \<Longrightarrow> col_values col' = col_values col @ [x]"
  by (auto simp add: push_back_value_def split: Option.bind_splits)

lemma TColumnValueToHS2TColumn_NULL_TYPE:
  assumes "st_type st = TPrimitiveType.NULL_TYPE \<or> st_type st = TPrimitiveType.BOOLEAN"
  shows "TColumnValueToHS2TColumn col_val (scalar_column_type st) row_idx column =
     do {
       c \<leftarrow> push_back_value (bool_val col_val) (\<not> isset_bool_val col_val) row_idx
              (boolVal column);
       Some (column\<lparr>boolVal := c\<rparr>)
     }"
  using assms by (auto simp add: TColumnValueToHS2TColumn_def Let_def)

lemma ExprValueToHS2TColumn_NULL_TYPE:
  assumes "st_type st = TPrimitiveType.NULL_TYPE \<or> st_type st = TPrimitiveType.BOOLEAN"
  shows "ExprValueToHS2TColumn h value (scalar_column_type st) row_idx column =
     do {
       v \<leftarrow> deref_or False as_bool value;
       c \<leftarrow> push_back_value v (value = None) row_idx (boolVal column);
       Some (column\<lparr>boolVal := c\<rparr>)
     }"
  using assms by (auto simp add: ExprValueToHS2TColumn_def Let_def)

lemma ExprValuesToHS2TColumn_NULL_TYPE:
  assumes "st_type st = TPrimitiveType.NULL_TYPE \<or> st_type st = TPrimitiveType.BOOLEAN"
  shows "ExprValuesToHS2TColumn h rows (scalar_column_type st) s r n column =
     do {
       (result, nulls) \<leftarrow> AddValues as_bool False (\<lambda>x. x) rows
          (col_values (boolVal column)) (col_nulls (boolVal column)) s r n;
       Some (column\<lparr>boolVal := \<lparr>col_values = result, col_nulls = nulls\<rparr>\<rparr>)
     }"
  using assms by (auto simp add: ExprValuesToHS2TColumn_def Let_def)

lemma TColumnValuesToHS2TColumn_NULL_TYPE:
  assumes "st_type st = TPrimitiveType.NULL_TYPE \<or> st_type st = TPrimitiveType.BOOLEAN"
  shows "TColumnValuesToHS2TColumn col_vals (scalar_column_type st) s r n column =
     do {
       (result, nulls) \<leftarrow> append_range (col_vals_at col_vals)
          (\<lambda>value old. Some (bool_val value)) isset_bool_val False
          (col_values (boolVal column)) (col_nulls (boolVal column)) s r n;
       Some (column\<lparr>boolVal := \<lparr>col_values = result, col_nulls = nulls\<rparr>\<rparr>)
     }"
  using assms by (auto simp add: TColumnValuesToHS2TColumn_def Let_def)

lemma boolVal_frame:
  "(column\<lparr>boolVal := c\<rparr>) = column\<lparr>boolVal := boolVal (column\<lparr>boolVal := c\<rparr>)\<rparr>"
  by simp

lemma bitmap_prefix_GetNullBit:
  assumes bp: "bitmap_prefix n Q nulls" and j: "j < n" and b: "int j + 8 \<le> INT_MAX"
  shows "GetNullBit nulls j = Some (Q j)"
proof -
  from bp have len: "length nulls = (n + 7) div 8"
    and bits: "\<And>q. q < 8 * length nulls \<Longrightarrow> test_bit nulls q = (q < n \<and> Q q)"
    by (simp_all add: bitmap_prefix_def)
  have cov: "j div 8 < length nulls" unfolding len using j by (rule div8_less_ceil)
  then have "j < 8 * length nulls" by (rule div8_less_imp_less)
  from bits [OF this] j have "test_bit nulls j = Q j" by simp
  with GetNullBit_Some [OF b cov] show ?thesis by simp
qed

lemma SetNullsSize_extend:
  assumes b: "int m + 7 \<le> INT_MAX" and l: "length nulls \<le> (m + 7) div 8"
  shows "SetNullsSize m nulls = Some (nulls @ replicate ((m + 7) div 8 - length nulls) 0)"
  using l by (simp add: SetNullsSize_def GetNullsRequiredSize_nat [OF b] resize_def)

lemma bitmap_prefix_extend:
  assumes bp: "bitmap_prefix r P nulls" and le: "r \<le> m"
    and q: "\<And>j. j < r \<Longrightarrow> Q j = P j"
  shows "bitmap_prefix_in ((m + 7) div 8) r Q
           (nulls @ replicate ((m + 7) div 8 - length nulls) 0)"
proof -
  let ?nb = "(m + 7) div 8"
  from bp have len: "length nulls = (r + 7) div 8"
    and bits: "\<And>j. j < 8 * length nulls \<Longrightarrow> test_bit nulls j = (j < r \<and> P j)"
    by (simp_all add: bitmap_prefix_def)
  from le have "r + 7 \<le> m + 7" by simp
  then have ll: "length nulls \<le> ?nb" unfolding len by (rule div_le_mono)
  have l': "length (nulls @ replicate (?nb - length nulls) 0) = ?nb" using ll by simp
  have "test_bit (nulls @ replicate (?nb - length nulls) 0) j = (j < r \<and> Q j)"
    if j: "j < 8 * ?nb" for j
  proof (cases "j div 8 < length nulls")
    case True
    then have "j < 8 * length nulls" by (rule div8_less_imp_less)
    from bits [OF this] q [of j] True show ?thesis
      by (auto simp add: test_bit_def nth_append)
  next
    case False
    have "\<not> j < r"
    proof
      assume "j < r"
      then have "j div 8 < (r + 7) div 8" by (rule div8_less_ceil)
      with False len show False by simp
    qed
    moreover from j have "j div 8 < ?nb"
      by (simp add: less_mult_imp_div_less mult.commute)
    then have "j div 8 - length nulls < ?nb - length nulls" using False by simp
    then have "\<not> test_bit (nulls @ replicate (?nb - length nulls) 0) j"
      using False by (simp add: test_bit_def nth_append)
    ultimately show ?thesis by simp
  qed
  with l' show ?thesis by (simp add: bitmap_prefix_in_def)
qed

lemma append_range_appends:
  assumes b: "int (s + k) + 7 \<le> INT_MAX" and b2: "int (r + k) + 7 \<le> INT_MAX"
    and get: "\<And>i. i < k \<Longrightarrow> get (int (s + i)) = Some (vals i)"
    and st: "\<And>i. i < k \<Longrightarrow> store (vals i) z = Some (out i)"
    and len: "length res0 = r"
    and bp0: "bitmap_prefix r P nulls0"
  shows "\<exists>nulls. append_range get store flag z res0 nulls0 s r (int k)
             = Some (res0 @ map out [0..<k], nulls)
           \<and> bitmap_prefix (r + k) (\<lambda>j. if j < r then P j else flag (vals (j - r))) nulls"
proof -
  let ?nb = "(r + k + 7) div 8"
  let ?body = "\<lambda>i (result_idx, result, nulls). do {
               value \<leftarrow> get i;
               _ \<leftarrow> index_in result_idx result;
               x \<leftarrow> store value (result ! result_idx);
               nulls \<leftarrow> SetNullBitNoResize result_idx (flag value) nulls;
               Some ((result_idx + 1) mod 2 ^ 32, result[result_idx := x], nulls)
             }"
  define Q where "Q = (\<lambda>j. if j < r then P j else flag (vals (j - r)))"
  define Inv where "Inv = (\<lambda>j t. case t of (ri, res, nl) \<Rightarrow>
      (\<exists>q. ri = r + q \<and> j = int (s + q) \<and> q \<le> k
        \<and> res = res0 @ (map out [0..<q] @ replicate (k - q) z)
        \<and> bitmap_prefix_in ?nb (r + q) Q nl))"
  let ?n1 = "nulls0 @ replicate (?nb - length nulls0) 0"
  have k32: "to_uint32 (int k) = k"
    using b by (subst to_uint32_small) simp_all
  have km: "(r + k) mod 2 ^ 32 = r + k" "(s + k) mod 2 ^ 32 = s + k"
    using b b2 by (simp_all add: INT_MAX_def)
  have si: "to_int s = int s"
    using b by (intro to_int_small) simp
  have rs: "resize (int (r + k)) z res0 = Some (res0 @ replicate k z)"
    using len by (simp add: resize_def)
  from bp0 have len0: "length nulls0 = (r + 7) div 8" by (simp add: bitmap_prefix_def)
  have "r + 7 \<le> r + k + 7" by simp
  then have ll: "length nulls0 \<le> ?nb" unfolding len0 by (rule div_le_mono)
  have ns: "SetNullsSize (r + k) nulls0 = Some ?n1"
    using b2 ll by (rule SetNullsSize_extend)
  have bp1: "bitmap_prefix_in ?nb r Q ?n1"
    by (rule bitmap_prefix_extend [OF bp0]) (simp_all add: Q_def)
  have loop: "\<exists>t. for_loop (int s) (s + k) ?body (r, res0 @ replicate k z, ?n1) = Some t
      \<and> Inv (int (s + k)) t"
  proof (rule for_loop_rule)
    have "r = r + 0 \<and> int s = int (s + 0) \<and> (0::nat) \<le> k
        \<and> res0 @ replicate k z = res0 @ (map out [0..<0] @ replicate (k - 0) z)
        \<and> bitmap_prefix_in ?nb (r + 0) Q ?n1"
      using bp1 by simp
    then show "Inv (int s) (r, res0 @ replicate k z, ?n1)"
      unfolding Inv_def prod.case by (rule exI)
    show "0 \<le> int s" by simp
    show "int s \<le> int (s + k)" by simp
    show "int (s + k) \<le> INT_MAX" using b by simp
  next
    fix j t
    assume j: "int s \<le> j" "j < int (s + k)" and inv: "Inv j t"
    obtain ri res nl where t: "t = (ri, res, nl)" by (cases t)
    from inv obtain q where ri: "ri = r + q" and jj: "j = int (s + q)"
      and res: "res = res0 @ (map out [0..<q] @ replicate (k - q) z)"
      and bp: "bitmap_prefix_in ?nb (r + q) Q nl"
      unfolding Inv_def t prod.case by blast
    from j jj have qk: "q < k" by linarith
    then have rik: "r + q < r + k" by simp
    have g: "get j = Some (vals q)" unfolding jj using qk by (rule get)
    have ix: "index_in ri res = Some ()"
      using qk len by (simp add: index_in_def res ri)
    have "res ! ri = (map out [0..<q] @ replicate (k - q) z) ! q"
      unfolding res ri len [symmetric] by (rule nth_append_length_plus)
    also have "\<dots> = z" using qk by (rule nth_prefix_replicate)
    finally have old: "res ! ri = z" .
    have s1: "store (vals q) (res ! ri) = Some (out q)" unfolding old using qk by (rule st)
    have bnd: "int (r + q) + 8 \<le> INT_MAX" using qk b2 by simp
    have "Q (r + q) = flag (vals q)" by (simp add: Q_def)
    then have tr: "Q(r + q := flag (vals q)) = Q"
      using fun_upd_triv [of Q "r + q"] by simp
    from SetNullBitNoResize_in [OF bnd rik bp, of "flag (vals q)"]
    obtain nl' where sn: "SetNullBitNoResize ri (flag (vals q)) nl = Some nl'"
      and bp': "bitmap_prefix_in ?nb (Suc (r + q)) Q nl'"
      unfolding tr ri by blast
    have m1: "(ri + 1) mod 2 ^ 32 = r + Suc q" unfolding ri using bnd by (simp add: INT_MAX_def)
    have "res[ri := out q] = res0 @ (map out [0..<q] @ replicate (k - q) z)[q := out q]"
      unfolding res ri using len by (simp add: list_update_append)
    also have "(map out [0..<q] @ replicate (k - q) z)[q := out q]
        = map out [0..<Suc q] @ replicate (k - Suc q) z"
      using qk by (rule list_update_prefix_replicate)
    finally have upd: "res[ri := out q]
        = res0 @ (map out [0..<Suc q] @ replicate (k - Suc q) z)" .
    have "?body j t = Some (r + Suc q, res[ri := out q], nl')"
      unfolding t by (simp only: prod.case g ix s1 sn m1 Option.bind.simps)
    moreover have "r + Suc q = r + Suc q \<and> j + 1 = int (s + Suc q) \<and> Suc q \<le> k
        \<and> res[ri := out q] = res0 @ (map out [0..<Suc q] @ replicate (k - Suc q) z)
        \<and> bitmap_prefix_in ?nb (r + Suc q) Q nl'"
      using jj qk upd bp' by simp
    then have "Inv (j + 1) (r + Suc q, res[ri := out q], nl')"
      unfolding Inv_def prod.case by (rule exI)
    ultimately show "\<exists>t'. ?body j t = Some t' \<and> Inv (j + 1) t'" by blast
  qed
  then obtain t where fl: "for_loop (int s) (s + k) ?body (r, res0 @ replicate k z, ?n1)
      = Some t" and inv: "Inv (int (s + k)) t"
    by blast
  obtain ri res nl where t: "t = (ri, res, nl)" by (cases t)
  from inv obtain q where jj: "int (s + k) = int (s + q)"
    and res': "res = res0 @ (map out [0..<q] @ replicate (k - q) z)"
    and bp: "bitmap_prefix_in ?nb (r + q) Q nl"
    unfolding Inv_def t prod.case by blast
  from jj have qk: "q = k" by simp
  from res' have res: "res = res0 @ map out [0..<k]" unfolding qk by simp
  from bp have bpk: "bitmap_prefix (r + k) Q nl"
    unfolding qk by (simp add: bitmap_prefix_in_def bitmap_prefix_def)
  have "append_range get store flag z res0 nulls0 s r (int k) = Some (res, nl)"
    unfolding append_range_def Let_def
    by (simp only: k32 km si rs ns fl t Option.bind.simps prod.case)
  with res bpk show ?thesis unfolding Q_def by simp
qed


lemma push_back_value_prefix:
  assumes "int row_idx + 7 \<le> INT_MAX" and "bitmap_prefix row_idx P (col_nulls col)"
  shows "\<exists>nulls'. push_back_value x f row_idx col
             = Some \<lparr>col_values = col_values col @ [x], col_nulls = nulls'\<rparr>
           \<and> bitmap_prefix (Suc row_idx) (P(row_idx := f)) nulls'"
  using SetNullBit_step [OF assms, of f] by (auto simp add: push_back_value_def)

lemma deref_or_bool:
  assumes n: "st_type st = TPrimitiveType.NULL_TYPE \<or> st_type st = TPrimitiveType.BOOLEAN"
    and ok: "\<forall>p. value = Some p \<longrightarrow> pointee_ok h st p"
  shows "deref_or False as_bool value = Some (value = Some (Bool True))"
proof (cases "value")
  case None then show ?thesis by (simp add: deref_or_def)
next
  case (Some p)
  with ok have "pointee_ok h st p" by simp
  with n obtain b where "p = Bool b" by (cases p; auto simp add: pointee_ok_def)
  with Some show ?thesis by (simp add: deref_or_def)
qed

lemma TColumnValueToHS2TColumn_bool_appends:
  assumes n: "st_type st = TPrimitiveType.NULL_TYPE \<or> st_type st = TPrimitiveType.BOOLEAN"
    and b: "int row_idx + 8 \<le> INT_MAX"
    and bp: "bitmap_prefix row_idx P (col_nulls (boolVal column))"
  shows "\<exists>column'. TColumnValueToHS2TColumn col_val (scalar_column_type st) row_idx column
             = Some column'
           \<and> col_values (boolVal column') = col_values (boolVal column) @ [bool_val col_val]
           \<and> bitmap_prefix (Suc row_idx) (P(row_idx := \<not> isset_bool_val col_val))
               (col_nulls (boolVal column'))
           \<and> GetNullBit (col_nulls (boolVal column')) row_idx
               = Some (\<not> isset_bool_val col_val)"
proof -
  from b have b7: "int row_idx + 7 \<le> INT_MAX" by simp
  from push_back_value_prefix [OF b7 bp, of "bool_val col_val" "\<not> isset_bool_val col_val"]
  obtain nulls' where p: "push_back_value (bool_val col_val) (\<not> isset_bool_val col_val) row_idx
        (boolVal column)
      = Some \<lparr>col_values = col_values (boolVal column) @ [bool_val col_val],
              col_nulls = nulls'\<rparr>"
    and bp': "bitmap_prefix (Suc row_idx) (P(row_idx := \<not> isset_bool_val col_val)) nulls'"
    by blast
  from bitmap_prefix_GetNullBit [OF bp' _ b]
  have g: "GetNullBit nulls' row_idx = Some (\<not> isset_bool_val col_val)" by simp
  show ?thesis
    unfolding TColumnValueToHS2TColumn_NULL_TYPE [OF n] p using bp' g by simp
qed

lemma ExprValueToHS2TColumn_bool_appends:
  assumes n: "st_type st = TPrimitiveType.NULL_TYPE \<or> st_type st = TPrimitiveType.BOOLEAN"
    and b: "int row_idx + 8 \<le> INT_MAX"
    and bp: "bitmap_prefix row_idx P (col_nulls (boolVal column))"
    and ok: "\<forall>p. value = Some p \<longrightarrow> pointee_ok h st p"
  shows "\<exists>column'. ExprValueToHS2TColumn h value (scalar_column_type st) row_idx column
             = Some column'
           \<and> col_values (boolVal column')
               = col_values (boolVal column) @ [value = Some (Bool True)]
           \<and> bitmap_prefix (Suc row_idx) (P(row_idx := (value = None)))
               (col_nulls (boolVal column'))
           \<and> GetNullBit (col_nulls (boolVal column')) row_idx = Some (value = None)"
proof -
  from b have b7: "int row_idx + 7 \<le> INT_MAX" by simp
  note v = deref_or_bool [OF n ok]
  from push_back_value_prefix [OF b7 bp, of "value = Some (Bool True)" "value = None"]
  obtain nulls' where p: "push_back_value (value = Some (Bool True)) (value = None) row_idx
        (boolVal column)
      = Some \<lparr>col_values = col_values (boolVal column) @ [value = Some (Bool True)],
              col_nulls = nulls'\<rparr>"
    and bp': "bitmap_prefix (Suc row_idx) (P(row_idx := (value = None))) nulls'"
    by blast
  from bitmap_prefix_GetNullBit [OF bp' _ b]
  have g: "GetNullBit nulls' row_idx = Some (value = None)" by simp
  show ?thesis
    unfolding ExprValueToHS2TColumn_NULL_TYPE [OF n] v Option.bind.simps p using bp' g by simp
qed

lemma appended_GetNullBit:
  assumes bp: "bitmap_prefix (r + k) (\<lambda>j. if j < r then P j else F (j - r)) nulls"
    and b2: "int (r + k) + 7 \<le> INT_MAX"
  shows "(\<forall>j < r. GetNullBit nulls j = Some (P j))
       \<and> (\<forall>i < k. GetNullBit nulls (r + i) = Some (F i))"
proof (intro conjI allI impI)
  fix j assume j: "j < r"
  then have "j < r + k" by simp
  moreover from j b2 have "int j + 8 \<le> INT_MAX" by simp
  ultimately show "GetNullBit nulls j = Some (P j)"
    using bitmap_prefix_GetNullBit [OF bp, of j] j by simp
next
  fix i assume i: "i < k"
  then have "r + i < r + k" by simp
  moreover from i b2 have "int (r + i) + 8 \<le> INT_MAX" by simp
  ultimately show "GetNullBit nulls (r + i) = Some (F i)"
    using bitmap_prefix_GetNullBit [OF bp, of "r + i"] by simp
qed

lemma ExprValuesToHS2TColumn_bool_appends:
  assumes n: "st_type st = TPrimitiveType.NULL_TYPE \<or> st_type st = TPrimitiveType.BOOLEAN"
    and b: "int (s + k) + 7 \<le> INT_MAX" and b2: "int (r + k) + 7 \<le> INT_MAX"
    and range: "s + k \<le> length rows"
    and ok: "\<forall>i < k. \<forall>p. rows ! (s + i) = Some p \<longrightarrow> pointee_ok h st p"
    and len: "length (col_values (boolVal column)) = r"
    and bp: "bitmap_prefix r P (col_nulls (boolVal column))"
  shows "\<exists>column'. ExprValuesToHS2TColumn h rows (scalar_column_type st) s r (int k) column
             = Some column'
           \<and> col_values (boolVal column')
               = col_values (boolVal column)
                 @ map (\<lambda>i. rows ! (s + i) = Some (Bool True)) [0..<k]
           \<and> bitmap_prefix (r + k) (\<lambda>j. if j < r then P j else rows ! (s + (j - r)) = None)
               (col_nulls (boolVal column'))
           \<and> (\<forall>j < r. GetNullBit (col_nulls (boolVal column')) j = Some (P j))
           \<and> (\<forall>i < k. GetNullBit (col_nulls (boolVal column')) (r + i)
                = Some (rows ! (s + i) = None))"
proof -
  have get: "GetValue rows (int (s + i)) = Some (rows ! (s + i))" if "i < k" for i
  proof -
    from that range have "s + i < length rows" by simp
    moreover have "nat (int (s + i)) = s + i" by (rule nat_int)
    ultimately show ?thesis
      unfolding GetValue_def by (simp only: of_nat_0_le_iff simp_thms if_True)
  qed
  have st: "map_option (\<lambda>x. x) (deref_or False as_bool (rows ! (s + i)))
      = Some (rows ! (s + i) = Some (Bool True))" if "i < k" for i
  proof -
    from ok that have "\<forall>p. rows ! (s + i) = Some p \<longrightarrow> pointee_ok h st p" by simp
    from deref_or_bool [OF n this] show ?thesis by simp
  qed
  from append_range_appends [where get = "GetValue rows"
      and store = "\<lambda>value old. map_option (\<lambda>x. x) (deref_or False as_bool value)"
      and vals = "\<lambda>i. rows ! (s + i)" and out = "\<lambda>i. rows ! (s + i) = Some (Bool True)"
      and flag = "\<lambda>value. value = None" and z = False, OF b b2 get st len bp]
  obtain nulls where a: "AddValues as_bool False (\<lambda>x. x) rows (col_values (boolVal column))
        (col_nulls (boolVal column)) s r (int k)
      = Some (col_values (boolVal column)
              @ map (\<lambda>i. rows ! (s + i) = Some (Bool True)) [0..<k], nulls)"
    and bp': "bitmap_prefix (r + k) (\<lambda>j. if j < r then P j else rows ! (s + (j - r)) = None)
        nulls"
    unfolding AddValues_def by blast
  note g = appended_GetNullBit [where F = "\<lambda>i. rows ! (s + i) = None", OF bp' b2]
  show ?thesis
    unfolding ExprValuesToHS2TColumn_NULL_TYPE [OF n] a using bp' g by simp
qed

lemma TColumnValuesToHS2TColumn_bool_appends:
  assumes n: "st_type st = TPrimitiveType.NULL_TYPE \<or> st_type st = TPrimitiveType.BOOLEAN"
    and b: "int (s + k) + 7 \<le> INT_MAX" and b2: "int (r + k) + 7 \<le> INT_MAX"
    and range: "s + k \<le> length col_vals"
    and len: "length (col_values (boolVal column)) = r"
    and bp: "bitmap_prefix r P (col_nulls (boolVal column))"
  shows "\<exists>column'. TColumnValuesToHS2TColumn col_vals (scalar_column_type st) s r (int k) column
             = Some column'
           \<and> col_values (boolVal column')
               = col_values (boolVal column) @ map (\<lambda>i. bool_val (col_vals ! (s + i))) [0..<k]
           \<and> bitmap_prefix (r + k)
               (\<lambda>j. if j < r then P j else isset_bool_val (col_vals ! (s + (j - r))))
               (col_nulls (boolVal column'))
           \<and> (\<forall>j < r. GetNullBit (col_nulls (boolVal column')) j = Some (P j))
           \<and> (\<forall>i < k. GetNullBit (col_nulls (boolVal column')) (r + i)
                = Some (isset_bool_val (col_vals ! (s + i))))"
proof -
  have get: "col_vals_at col_vals (int (s + i)) = Some (col_vals ! (s + i))" if "i < k" for i
  proof -
    from that range have "s + i < length col_vals" by simp
    moreover have "nat (int (s + i)) = s + i" by (rule nat_int)
    ultimately show ?thesis
      unfolding col_vals_at_def by (simp only: of_nat_0_le_iff simp_thms if_True)
  qed
  have st: "(\<lambda>value old. Some (bool_val value)) (col_vals ! (s + i)) False
      = Some (bool_val (col_vals ! (s + i)))" if "i < k" for i
    by simp
  from append_range_appends [where get = "col_vals_at col_vals"
      and store = "\<lambda>value old. Some (bool_val value)"
      and vals = "\<lambda>i. col_vals ! (s + i)" and out = "\<lambda>i. bool_val (col_vals ! (s + i))"
      and flag = isset_bool_val and z = False, OF b b2 get st len bp]
  obtain nulls where a: "append_range (col_vals_at col_vals) (\<lambda>value old. Some (bool_val value))
        isset_bool_val False (col_values (boolVal column)) (col_nulls (boolVal column))
        s r (int k)
      = Some (col_values (boolVal column) @ map (\<lambda>i. bool_val (col_vals ! (s + i))) [0..<k],
              nulls)"
    and bp': "bitmap_prefix (r + k)
        (\<lambda>j. if j < r then P j else isset_bool_val (col_vals ! (s + (j - r)))) nulls"
    by blast
  note g = appended_GetNullBit [where F = "\<lambda>i. isset_bool_val (col_vals ! (s + i))", OF bp' b2]
  show ?thesis
    unfolding TColumnValuesToHS2TColumn_NULL_TYPE [OF n] a using bp' g by simp
qed

text \<open>
  Claim C10. For \<^verbatim>\<open>NULL_TYPE\<close>, each of the four columnar appenders does what it does for
  \<^verbatim>\<open>BOOLEAN\<close>, and a column that it returns differs from the one it was given in the
  boolean value array and the boolean null bitmap only. On a boolean column that holds
  \<open>row_idx\<close> rows, with a bitmap of \<open>(row_idx + 7) div 8\<close> bytes whose bits are \<open>P\<close> on these rows
  and clear after them, the single-value appenders return: the value array has the value
  appended (\<^verbatim>\<open>false\<close> for a null pointer), the bitmap covers one more row, keeps the bits of
  the rows before and has the bit of \<open>row_idx\<close> equal to \<^verbatim>\<open>is_null\<close>, which \<^verbatim>\<open>GetNullBit\<close>
  returns. On such a column of \<open>r\<close> rows, the bulk appenders called with
  \<^verbatim>\<open>result_start_idx = r\<close> return: the value array has the \<open>k\<close> values of the range appended,
  the bitmap covers \<open>r + k\<close> rows, \<^verbatim>\<open>GetNullBit\<close> returns \<open>P\<close> on the rows before \<open>r\<close> and, at row
  \<open>r + i\<close>, the flag that the appender passes to \<^verbatim>\<open>SetNullBitNoResize\<close> for the value
  \<open>s + i\<close> of the source: \<^verbatim>\<open>value == NULL\<close> in \<^verbatim>\<open>ExprValuesToHS2TColumn\<close>, and
  \<^verbatim>\<open>__isset.bool_val\<close>, not negated, in \<^verbatim>\<open>TColumnValuesToHS2TColumn\<close>. The single-value
  appenders also return when the bitmap only covers the rows before \<open>row_idx\<close>. The legacy
  \<^verbatim>\<open>ExprValueToHS2TColumnValue\<close> selects the boolean variant and unsets its value-presence
  flag, whatever the value pointer is.
\<close>

theorem NULL_TYPE_boolean_branch:
  assumes "st_type st = TPrimitiveType.NULL_TYPE"
  shows "TColumnValueToHS2TColumn col_val (scalar_column_type st) row_idx column
       = TColumnValueToHS2TColumn col_val
           (scalar_column_type (st\<lparr>st_type := TPrimitiveType.BOOLEAN\<rparr>)) row_idx column
    \<and> ExprValueToHS2TColumn h value (scalar_column_type st) row_idx column
       = ExprValueToHS2TColumn h value
           (scalar_column_type (st\<lparr>st_type := TPrimitiveType.BOOLEAN\<rparr>)) row_idx column
    \<and> ExprValuesToHS2TColumn h rows (scalar_column_type st) s r n column
       = ExprValuesToHS2TColumn h rows
           (scalar_column_type (st\<lparr>st_type := TPrimitiveType.BOOLEAN\<rparr>)) s r n column
    \<and> TColumnValuesToHS2TColumn col_vals (scalar_column_type st) s r n column
       = TColumnValuesToHS2TColumn col_vals
           (scalar_column_type (st\<lparr>st_type := TPrimitiveType.BOOLEAN\<rparr>)) s r n column
    \<and> (\<forall>column'. TColumnValueToHS2TColumn col_val (scalar_column_type st) row_idx column
            = Some column'
          \<longrightarrow> column' = column\<lparr>boolVal := boolVal column'\<rparr>
            \<and> col_values (boolVal column') = col_values (boolVal column) @ [bool_val col_val])
    \<and> (\<forall>column'. ExprValueToHS2TColumn h value (scalar_column_type st) row_idx column
            = Some column'
          \<longrightarrow> column' = column\<lparr>boolVal := boolVal column'\<rparr>
            \<and> length (col_values (boolVal column')) = Suc (length (col_values (boolVal column))))
    \<and> (\<forall>column'. ExprValuesToHS2TColumn h rows (scalar_column_type st) s r n column
            = Some column'
          \<longrightarrow> column' = column\<lparr>boolVal := boolVal column'\<rparr>)
    \<and> (\<forall>column'. TColumnValuesToHS2TColumn col_vals (scalar_column_type st) s r n column
            = Some column'
          \<longrightarrow> column' = column\<lparr>boolVal := boolVal column'\<rparr>)
    \<and> (int row_idx + 7 \<le> INT_MAX \<and> (row_idx + 7) div 8 \<le> length (col_nulls (boolVal column))
          \<longrightarrow> (\<exists>column'. TColumnValueToHS2TColumn col_val (scalar_column_type st) row_idx column
                 = Some column')
            \<and> ((\<forall>p. value = Some p \<longrightarrow> pointee_ok h st p)
                 \<longrightarrow> (\<exists>column'. ExprValueToHS2TColumn h value (scalar_column_type st)
                        row_idx column = Some column')))
    \<and> (int row_idx + 8 \<le> INT_MAX \<and> bitmap_prefix row_idx P (col_nulls (boolVal column))
          \<longrightarrow> (\<exists>column'. TColumnValueToHS2TColumn col_val (scalar_column_type st) row_idx column
                 = Some column'
               \<and> col_values (boolVal column')
                   = col_values (boolVal column) @ [bool_val col_val]
               \<and> bitmap_prefix (Suc row_idx) (P(row_idx := \<not> isset_bool_val col_val))
                   (col_nulls (boolVal column'))
               \<and> GetNullBit (col_nulls (boolVal column')) row_idx
                   = Some (\<not> isset_bool_val col_val)))
    \<and> (int row_idx + 8 \<le> INT_MAX \<and> bitmap_prefix row_idx P (col_nulls (boolVal column))
         \<and> (\<forall>p. value = Some p \<longrightarrow> pointee_ok h st p)
          \<longrightarrow> (\<exists>column'. ExprValueToHS2TColumn h value (scalar_column_type st) row_idx column
                 = Some column'
               \<and> col_values (boolVal column')
                   = col_values (boolVal column) @ [value = Some (Bool True)]
               \<and> bitmap_prefix (Suc row_idx) (P(row_idx := (value = None)))
                   (col_nulls (boolVal column'))
               \<and> GetNullBit (col_nulls (boolVal column')) row_idx = Some (value = None)))
    \<and> (int (s + k) + 7 \<le> INT_MAX \<and> int (r + k) + 7 \<le> INT_MAX \<and> s + k \<le> length rows
         \<and> (\<forall>i < k. \<forall>p. rows ! (s + i) = Some p \<longrightarrow> pointee_ok h st p)
         \<and> length (col_values (boolVal column)) = r
         \<and> bitmap_prefix r P (col_nulls (boolVal column))
          \<longrightarrow> (\<exists>column'. ExprValuesToHS2TColumn h rows (scalar_column_type st) s r (int k)
                 column = Some column'
               \<and> col_values (boolVal column')
                   = col_values (boolVal column)
                     @ map (\<lambda>i. rows ! (s + i) = Some (Bool True)) [0..<k]
               \<and> bitmap_prefix (r + k)
                   (\<lambda>j. if j < r then P j else rows ! (s + (j - r)) = None)
                   (col_nulls (boolVal column'))
               \<and> (\<forall>j < r. GetNullBit (col_nulls (boolVal column')) j = Some (P j))
               \<and> (\<forall>i < k. GetNullBit (col_nulls (boolVal column')) (r + i)
                    = Some (rows ! (s + i) = None))))
    \<and> (int (s + k) + 7 \<le> INT_MAX \<and> int (r + k) + 7 \<le> INT_MAX \<and> s + k \<le> length col_vals
         \<and> length (col_values (boolVal column)) = r
         \<and> bitmap_prefix r P (col_nulls (boolVal column))
          \<longrightarrow> (\<exists>column'. TColumnValuesToHS2TColumn col_vals (scalar_column_type st) s r (int k)
                 column = Some column'
               \<and> col_values (boolVal column')
                   = col_values (boolVal column)
                     @ map (\<lambda>i. bool_val (col_vals ! (s + i))) [0..<k]
               \<and> bitmap_prefix (r + k)
                   (\<lambda>j. if j < r then P j else isset_bool_val (col_vals ! (s + (j - r))))
                   (col_nulls (boolVal column'))
               \<and> (\<forall>j < r. GetNullBit (col_nulls (boolVal column')) j = Some (P j))
               \<and> (\<forall>i < k. GetNullBit (col_nulls (boolVal column')) (r + i)
                    = Some (isset_bool_val (col_vals ! (s + i))))))
    \<and> ExprValueToHS2TColumnValue h value (scalar_column_type st) hs2_col_val
       = Some (hs2_col_val
           \<lparr>cv_isset_boolVal := True,
            cv_boolVal := (cv_boolVal hs2_col_val)\<lparr>val_isset_value := False\<rparr>\<rparr>)"
proof -
  let ?bt = "st\<lparr>st_type := TPrimitiveType.BOOLEAN\<rparr>"
  have n: "st_type st = TPrimitiveType.NULL_TYPE \<or> st_type st = TPrimitiveType.BOOLEAN"
    using assms by simp
  have bt: "st_type ?bt = TPrimitiveType.NULL_TYPE \<or> st_type ?bt = TPrimitiveType.BOOLEAN"
    by simp
  note e1 = TColumnValueToHS2TColumn_NULL_TYPE [OF n, of col_val row_idx column]
  note e2 = ExprValueToHS2TColumn_NULL_TYPE [OF n, of h "value" row_idx column]
  note e3 = ExprValuesToHS2TColumn_NULL_TYPE [OF n, of h rows s r n column]
  note e4 = TColumnValuesToHS2TColumn_NULL_TYPE [OF n, of col_vals s r n column]
  have c1: "TColumnValueToHS2TColumn col_val (scalar_column_type st) row_idx column
       = TColumnValueToHS2TColumn col_val (scalar_column_type ?bt) row_idx column"
    unfolding e1 TColumnValueToHS2TColumn_NULL_TYPE [OF bt] ..
  have c2: "ExprValueToHS2TColumn h value (scalar_column_type st) row_idx column
       = ExprValueToHS2TColumn h value (scalar_column_type ?bt) row_idx column"
    unfolding e2 ExprValueToHS2TColumn_NULL_TYPE [OF bt] ..
  have c3: "ExprValuesToHS2TColumn h rows (scalar_column_type st) s r n column
       = ExprValuesToHS2TColumn h rows (scalar_column_type ?bt) s r n column"
    unfolding e3 ExprValuesToHS2TColumn_NULL_TYPE [OF bt] ..
  have c4: "TColumnValuesToHS2TColumn col_vals (scalar_column_type st) s r n column
       = TColumnValuesToHS2TColumn col_vals (scalar_column_type ?bt) s r n column"
    unfolding e4 TColumnValuesToHS2TColumn_NULL_TYPE [OF bt] ..
  have c5: "\<forall>column'. TColumnValueToHS2TColumn col_val (scalar_column_type st) row_idx column
            = Some column'
          \<longrightarrow> column' = column\<lparr>boolVal := boolVal column'\<rparr>
            \<and> col_values (boolVal column') = col_values (boolVal column) @ [bool_val col_val]"
    unfolding e1 by (auto split: Option.bind_splits dest: push_back_value_frame)
  have c6: "\<forall>column'. ExprValueToHS2TColumn h value (scalar_column_type st) row_idx column
            = Some column'
          \<longrightarrow> column' = column\<lparr>boolVal := boolVal column'\<rparr>
            \<and> length (col_values (boolVal column')) = Suc (length (col_values (boolVal column)))"
    unfolding e2 by (auto split: Option.bind_splits dest: push_back_value_frame)
  have c7: "\<forall>column'. ExprValuesToHS2TColumn h rows (scalar_column_type st) s r n column
            = Some column'
          \<longrightarrow> column' = column\<lparr>boolVal := boolVal column'\<rparr>"
    unfolding e3 by (auto split: Option.bind_splits)
  have c8: "\<forall>column'. TColumnValuesToHS2TColumn col_vals (scalar_column_type st) s r n column
            = Some column'
          \<longrightarrow> column' = column\<lparr>boolVal := boolVal column'\<rparr>"
    unfolding e4 by (auto split: Option.bind_splits)
  have c9: "int row_idx + 7 \<le> INT_MAX \<and> (row_idx + 7) div 8 \<le> length (col_nulls (boolVal column))
          \<longrightarrow> (\<exists>column'. TColumnValueToHS2TColumn col_val (scalar_column_type st) row_idx column
                 = Some column')
            \<and> ((\<forall>p. value = Some p \<longrightarrow> pointee_ok h st p)
                 \<longrightarrow> (\<exists>column'. ExprValueToHS2TColumn h value (scalar_column_type st)
                        row_idx column = Some column'))"
  proof (intro impI conjI)
    assume a: "int row_idx + 7 \<le> INT_MAX
      \<and> (row_idx + 7) div 8 \<le> length (col_nulls (boolVal column))"
    then have a1: "int row_idx + 7 \<le> INT_MAX"
      and a2: "(row_idx + 7) div 8 \<le> length (col_nulls (boolVal column))"
      by simp_all
    from push_back_value_returns [OF a1 a2, of "bool_val col_val" "\<not> isset_bool_val col_val"]
    show "\<exists>column'. TColumnValueToHS2TColumn col_val (scalar_column_type st) row_idx column
        = Some column'"
      unfolding e1 by auto
    assume ok: "\<forall>p. value = Some p \<longrightarrow> pointee_ok h st p"
    note v = deref_or_bool [OF n ok]
    from push_back_value_returns [OF a1 a2, of "value = Some (Bool True)" "value = None"]
    show "\<exists>column'. ExprValueToHS2TColumn h value (scalar_column_type st) row_idx column
        = Some column'"
      unfolding e2 v by auto
  qed
  have c10: "int row_idx + 8 \<le> INT_MAX \<and> bitmap_prefix row_idx P (col_nulls (boolVal column))
          \<longrightarrow> (\<exists>column'. TColumnValueToHS2TColumn col_val (scalar_column_type st) row_idx column
                 = Some column'
               \<and> col_values (boolVal column')
                   = col_values (boolVal column) @ [bool_val col_val]
               \<and> bitmap_prefix (Suc row_idx) (P(row_idx := \<not> isset_bool_val col_val))
                   (col_nulls (boolVal column'))
               \<and> GetNullBit (col_nulls (boolVal column')) row_idx
                   = Some (\<not> isset_bool_val col_val))"
  proof
    assume "int row_idx + 8 \<le> INT_MAX \<and> bitmap_prefix row_idx P (col_nulls (boolVal column))"
    then have a1: "int row_idx + 8 \<le> INT_MAX"
      and a2: "bitmap_prefix row_idx P (col_nulls (boolVal column))"
      by (rule conjunct1, rule conjunct2)
    show "\<exists>column'. TColumnValueToHS2TColumn col_val (scalar_column_type st) row_idx column
                 = Some column'
               \<and> col_values (boolVal column')
                   = col_values (boolVal column) @ [bool_val col_val]
               \<and> bitmap_prefix (Suc row_idx) (P(row_idx := \<not> isset_bool_val col_val))
                   (col_nulls (boolVal column'))
               \<and> GetNullBit (col_nulls (boolVal column')) row_idx
                   = Some (\<not> isset_bool_val col_val)"
      by (rule TColumnValueToHS2TColumn_bool_appends [OF n a1 a2])
  qed
  have c11: "int row_idx + 8 \<le> INT_MAX \<and> bitmap_prefix row_idx P (col_nulls (boolVal column))
         \<and> (\<forall>p. value = Some p \<longrightarrow> pointee_ok h st p)
          \<longrightarrow> (\<exists>column'. ExprValueToHS2TColumn h value (scalar_column_type st) row_idx column
                 = Some column'
               \<and> col_values (boolVal column')
                   = col_values (boolVal column) @ [value = Some (Bool True)]
               \<and> bitmap_prefix (Suc row_idx) (P(row_idx := (value = None)))
                   (col_nulls (boolVal column'))
               \<and> GetNullBit (col_nulls (boolVal column')) row_idx = Some (value = None))"
  proof
    assume a: "int row_idx + 8 \<le> INT_MAX \<and> bitmap_prefix row_idx P (col_nulls (boolVal column))
         \<and> (\<forall>p. value = Some p \<longrightarrow> pointee_ok h st p)"
    note a1 = a [THEN conjunct1]
    note a2 = a [THEN conjunct2, THEN conjunct1]
    note a3 = a [THEN conjunct2, THEN conjunct2]
    show "\<exists>column'. ExprValueToHS2TColumn h value (scalar_column_type st) row_idx column
                 = Some column'
               \<and> col_values (boolVal column')
                   = col_values (boolVal column) @ [value = Some (Bool True)]
               \<and> bitmap_prefix (Suc row_idx) (P(row_idx := (value = None)))
                   (col_nulls (boolVal column'))
               \<and> GetNullBit (col_nulls (boolVal column')) row_idx = Some (value = None)"
      by (rule ExprValueToHS2TColumn_bool_appends [OF n a1 a2 a3])
  qed
  have c12: "int (s + k) + 7 \<le> INT_MAX \<and> int (r + k) + 7 \<le> INT_MAX \<and> s + k \<le> length rows
         \<and> (\<forall>i < k. \<forall>p. rows ! (s + i) = Some p \<longrightarrow> pointee_ok h st p)
         \<and> length (col_values (boolVal column)) = r
         \<and> bitmap_prefix r P (col_nulls (boolVal column))
          \<longrightarrow> (\<exists>column'. ExprValuesToHS2TColumn h rows (scalar_column_type st) s r (int k)
                 column = Some column'
               \<and> col_values (boolVal column')
                   = col_values (boolVal column)
                     @ map (\<lambda>i. rows ! (s + i) = Some (Bool True)) [0..<k]
               \<and> bitmap_prefix (r + k)
                   (\<lambda>j. if j < r then P j else rows ! (s + (j - r)) = None)
                   (col_nulls (boolVal column'))
               \<and> (\<forall>j < r. GetNullBit (col_nulls (boolVal column')) j = Some (P j))
               \<and> (\<forall>i < k. GetNullBit (col_nulls (boolVal column')) (r + i)
                    = Some (rows ! (s + i) = None)))"
  proof
    assume a: "int (s + k) + 7 \<le> INT_MAX \<and> int (r + k) + 7 \<le> INT_MAX \<and> s + k \<le> length rows
         \<and> (\<forall>i < k. \<forall>p. rows ! (s + i) = Some p \<longrightarrow> pointee_ok h st p)
         \<and> length (col_values (boolVal column)) = r
         \<and> bitmap_prefix r P (col_nulls (boolVal column))"
    note a1 = a [THEN conjunct1]
    note a2 = a [THEN conjunct2, THEN conjunct1]
    note a3 = a [THEN conjunct2, THEN conjunct2, THEN conjunct1]
    note a4 = a [THEN conjunct2, THEN conjunct2, THEN conjunct2, THEN conjunct1]
    note a5 = a [THEN conjunct2, THEN conjunct2, THEN conjunct2, THEN conjunct2, THEN conjunct1]
    note a6 = a [THEN conjunct2, THEN conjunct2, THEN conjunct2, THEN conjunct2, THEN conjunct2]
    show "\<exists>column'. ExprValuesToHS2TColumn h rows (scalar_column_type st) s r (int k)
                 column = Some column'
               \<and> col_values (boolVal column')
                   = col_values (boolVal column)
                     @ map (\<lambda>i. rows ! (s + i) = Some (Bool True)) [0..<k]
               \<and> bitmap_prefix (r + k)
                   (\<lambda>j. if j < r then P j else rows ! (s + (j - r)) = None)
                   (col_nulls (boolVal column'))
               \<and> (\<forall>j < r. GetNullBit (col_nulls (boolVal column')) j = Some (P j))
               \<and> (\<forall>i < k. GetNullBit (col_nulls (boolVal column')) (r + i)
                    = Some (rows ! (s + i) = None))"
      by (rule ExprValuesToHS2TColumn_bool_appends [OF n a1 a2 a3 a4 a5 a6])
  qed
  have c13: "int (s + k) + 7 \<le> INT_MAX \<and> int (r + k) + 7 \<le> INT_MAX \<and> s + k \<le> length col_vals
         \<and> length (col_values (boolVal column)) = r
         \<and> bitmap_prefix r P (col_nulls (boolVal column))
          \<longrightarrow> (\<exists>column'. TColumnValuesToHS2TColumn col_vals (scalar_column_type st) s r (int k)
                 column = Some column'
               \<and> col_values (boolVal column')
                   = col_values (boolVal column)
                     @ map (\<lambda>i. bool_val (col_vals ! (s + i))) [0..<k]
               \<and> bitmap_prefix (r + k)
                   (\<lambda>j. if j < r then P j else isset_bool_val (col_vals ! (s + (j - r))))
                   (col_nulls (boolVal column'))
               \<and> (\<forall>j < r. GetNullBit (col_nulls (boolVal column')) j = Some (P j))
               \<and> (\<forall>i < k. GetNullBit (col_nulls (boolVal column')) (r + i)
                    = Some (isset_bool_val (col_vals ! (s + i)))))"
  proof
    assume a: "int (s + k) + 7 \<le> INT_MAX \<and> int (r + k) + 7 \<le> INT_MAX \<and> s + k \<le> length col_vals
         \<and> length (col_values (boolVal column)) = r
         \<and> bitmap_prefix r P (col_nulls (boolVal column))"
    note a1 = a [THEN conjunct1]
    note a2 = a [THEN conjunct2, THEN conjunct1]
    note a3 = a [THEN conjunct2, THEN conjunct2, THEN conjunct1]
    note a4 = a [THEN conjunct2, THEN conjunct2, THEN conjunct2, THEN conjunct1]
    note a5 = a [THEN conjunct2, THEN conjunct2, THEN conjunct2, THEN conjunct2]
    show "\<exists>column'. TColumnValuesToHS2TColumn col_vals (scalar_column_type st) s r (int k)
                 column = Some column'
               \<and> col_values (boolVal column')
                   = col_values (boolVal column)
                     @ map (\<lambda>i. bool_val (col_vals ! (s + i))) [0..<k]
               \<and> bitmap_prefix (r + k)
                   (\<lambda>j. if j < r then P j else isset_bool_val (col_vals ! (s + (j - r))))
                   (col_nulls (boolVal column'))
               \<and> (\<forall>j < r. GetNullBit (col_nulls (boolVal column')) j = Some (P j))
               \<and> (\<forall>i < k. GetNullBit (col_nulls (boolVal column')) (r + i)
                    = Some (isset_bool_val (col_vals ! (s + i))))"
      by (rule TColumnValuesToHS2TColumn_bool_appends [OF n a1 a2 a3 a4 a5])
  qed
  have c14: "ExprValueToHS2TColumnValue h value (scalar_column_type st) hs2_col_val
       = Some (hs2_col_val
           \<lparr>cv_isset_boolVal := True,
            cv_boolVal := (cv_boolVal hs2_col_val)\<lparr>val_isset_value := False\<rparr>\<rparr>)"
    using assms by (simp add: ExprValueToHS2TColumnValue_def Let_def)
  show ?thesis
    by (rule conjI [OF c1 conjI [OF c2 conjI [OF c3 conjI [OF c4 conjI [OF c5 conjI [OF c6
        conjI [OF c7 conjI [OF c8 conjI [OF c9 conjI [OF c10 conjI [OF c11 conjI [OF c12
        conjI [OF c13 c14]]]]]]]]]]]]])
qed

theorem NULL_TYPE_boolean_branch_witness:
  "st_type \<lparr>st_type = TPrimitiveType.NULL_TYPE, st_len = 0, st_precision = 0, st_scale = 0\<rparr>
     = TPrimitiveType.NULL_TYPE
   \<and> int 1 + 8 \<le> INT_MAX \<and> int (0 + 2) + 7 \<le> INT_MAX \<and> int (1 + 2) + 7 \<le> INT_MAX
   \<and> length (col_values (boolVal (TColumn_empty\<lparr>boolVal := \<lparr>col_values = [True], col_nulls = [0]\<rparr>\<rparr>))) = 1
   \<and> bitmap_prefix 1 (\<lambda>j. False) (col_nulls (boolVal (TColumn_empty\<lparr>boolVal := \<lparr>col_values = [True], col_nulls = [0]\<rparr>\<rparr>)))
   \<and> (\<exists>column'. TColumnValueToHS2TColumn TColumnValue_default
          (scalar_column_type
          \<lparr>st_type = TPrimitiveType.NULL_TYPE, st_len = 0, st_precision = 0, st_scale = 0\<rparr>)
          1 (TColumn_empty\<lparr>boolVal := \<lparr>col_values = [True], col_nulls = [0]\<rparr>\<rparr>) = Some column'
        \<and> column' = (TColumn_empty\<lparr>boolVal := \<lparr>col_values = [True], col_nulls = [0]\<rparr>\<rparr>)\<lparr>boolVal := boolVal column'\<rparr>
        \<and> col_values (boolVal column') = [True, False]
        \<and> length (col_nulls (boolVal column')) = 1
        \<and> GetNullBit (col_nulls (boolVal column')) 1 = Some True)
   \<and> (\<exists>column'. ExprValueToHS2TColumn sample_host (Some (Bool True))
          (scalar_column_type
          \<lparr>st_type = TPrimitiveType.NULL_TYPE, st_len = 0, st_precision = 0, st_scale = 0\<rparr>)
          1 (TColumn_empty\<lparr>boolVal := \<lparr>col_values = [True], col_nulls = [0]\<rparr>\<rparr>) = Some column'
        \<and> col_values (boolVal column') = [True, True]
        \<and> GetNullBit (col_nulls (boolVal column')) 1 = Some False)
   \<and> (\<exists>column'. ExprValuesToHS2TColumn sample_host [None, Some (Bool True)]
          (scalar_column_type
          \<lparr>st_type = TPrimitiveType.NULL_TYPE, st_len = 0, st_precision = 0, st_scale = 0\<rparr>)
          0 1 (int 2) (TColumn_empty\<lparr>boolVal := \<lparr>col_values = [True], col_nulls = [0]\<rparr>\<rparr>) = Some column'
        \<and> col_values (boolVal column') = [True, False, True]
        \<and> GetNullBit (col_nulls (boolVal column')) 0 = Some False
        \<and> GetNullBit (col_nulls (boolVal column')) 1 = Some True
        \<and> GetNullBit (col_nulls (boolVal column')) 2 = Some False)
   \<and> (\<exists>column'. TColumnValuesToHS2TColumn
          [TColumnValue_default, TColumnValue_default\<lparr>bool_val := True, isset_bool_val := True\<rparr>]
          (scalar_column_type
          \<lparr>st_type = TPrimitiveType.NULL_TYPE, st_len = 0, st_precision = 0, st_scale = 0\<rparr>)
          0 1 (int 2) (TColumn_empty\<lparr>boolVal := \<lparr>col_values = [True], col_nulls = [0]\<rparr>\<rparr>) = Some column'
        \<and> col_values (boolVal column') = [True, False, True]
        \<and> GetNullBit (col_nulls (boolVal column')) 0 = Some False
        \<and> GetNullBit (col_nulls (boolVal column')) 1 = Some False
        \<and> GetNullBit (col_nulls (boolVal column')) 2 = Some True)
   \<and> ExprValueToHS2TColumnValue sample_host (Some (Bool True))
          (scalar_column_type
          \<lparr>st_type = TPrimitiveType.NULL_TYPE, st_len = 0, st_precision = 0, st_scale = 0\<rparr>)
          hs2_TColumnValue_default
       = Some (hs2_TColumnValue_default
           \<lparr>cv_isset_boolVal := True,
            cv_boolVal := (cv_boolVal hs2_TColumnValue_default)\<lparr>val_isset_value := False\<rparr>\<rparr>)"
proof -
  let ?st = "\<lparr>st_type = TPrimitiveType.NULL_TYPE, st_len = 0, st_precision = 0, st_scale = 0\<rparr>"
  let ?col = "(TColumn_empty\<lparr>boolVal := \<lparr>col_values = [True], col_nulls = [0]\<rparr>\<rparr>)"
  let ?rows = "[None, Some (Bool True)]"
  let ?cvs = "[TColumnValue_default, TColumnValue_default\<lparr>bool_val := True, isset_bool_val := True\<rparr>]"
  have h1: "st_type ?st = TPrimitiveType.NULL_TYPE" by simp
  have b1: "int 1 + 8 \<le> INT_MAX" by (simp add: INT_MAX_def)
  have b2: "int (0 + 2) + 7 \<le> INT_MAX" by (simp add: INT_MAX_def)
  have b3: "int (1 + 2) + 7 \<le> INT_MAX" by (simp add: INT_MAX_def)
  have len: "length (col_values (boolVal ?col)) = 1" by simp
  have "\<forall>j < 8. \<not> test_bit [0] j" by (simp add: test_bit_def)
  then have bp: "bitmap_prefix 1 (\<lambda>j. False) (col_nulls (boolVal ?col))"
    by (simp add: bitmap_prefix_def)
  have r1: "0 + 2 \<le> length ?rows" by simp
  have r2: "0 + 2 \<le> length ?cvs" by simp
  have ok1: "\<forall>p. Some (Bool True) = Some p \<longrightarrow> pointee_ok sample_host ?st p"
    by (simp add: pointee_ok_def)
  have ok2: "\<forall>i < 2. \<forall>p. ?rows ! (0 + i) = Some p \<longrightarrow> pointee_ok sample_host ?st p"
  proof (intro allI impI)
    fix i :: nat and p
    assume "i < 2" and p: "?rows ! (0 + i) = Some p"
    then consider "i = 0" | "i = 1" by linarith
    then show "pointee_ok sample_host ?st p"
      using p by cases (auto simp add: pointee_ok_def)
  qed
  have u: "[0..<2] = [0, Suc 0]" unfolding numeral_2_eq_2 by simp
  note w = NULL_TYPE_boolean_branch [OF h1, of TColumnValue_default 1 ?col sample_host "Some (Bool True)" ?rows 0 1 "int 2" ?cvs
      "\<lambda>j. False" 2 hs2_TColumnValue_default]
  note c5 = w [THEN conjunct2, THEN conjunct2, THEN conjunct2, THEN conjunct2, THEN conjunct1]
  note c10 = w [THEN conjunct2, THEN conjunct2, THEN conjunct2, THEN conjunct2, THEN conjunct2, THEN conjunct2, THEN conjunct2, THEN conjunct2, THEN conjunct2, THEN conjunct1]
  note c11 = w [THEN conjunct2, THEN conjunct2, THEN conjunct2, THEN conjunct2, THEN conjunct2, THEN conjunct2, THEN conjunct2, THEN conjunct2, THEN conjunct2, THEN conjunct2, THEN conjunct1]
  note c12 = w [THEN conjunct2, THEN conjunct2, THEN conjunct2, THEN conjunct2, THEN conjunct2, THEN conjunct2, THEN conjunct2, THEN conjunct2, THEN conjunct2, THEN conjunct2, THEN conjunct2, THEN conjunct1]
  note c13 = w [THEN conjunct2, THEN conjunct2, THEN conjunct2, THEN conjunct2, THEN conjunct2, THEN conjunct2, THEN conjunct2, THEN conjunct2, THEN conjunct2, THEN conjunct2, THEN conjunct2, THEN conjunct2, THEN conjunct1]
  note c14 = w [THEN conjunct2, THEN conjunct2, THEN conjunct2, THEN conjunct2, THEN conjunct2, THEN conjunct2, THEN conjunct2, THEN conjunct2, THEN conjunct2, THEN conjunct2, THEN conjunct2, THEN conjunct2, THEN conjunct2]
  from c10 [THEN mp, OF conjI [OF b1 bp]]
  obtain x1 where x1: "TColumnValueToHS2TColumn TColumnValue_default (scalar_column_type ?st) 1 ?col = Some x1"
    and v1: "col_values (boolVal x1) = col_values (boolVal ?col) @ [bool_val TColumnValue_default]"
    and p1: "bitmap_prefix (Suc 1) ((\<lambda>j. False)(1 := \<not> isset_bool_val TColumnValue_default))
        (col_nulls (boolVal x1))"
    and g1: "GetNullBit (col_nulls (boolVal x1)) 1 = Some (\<not> isset_bool_val TColumnValue_default)"
    by blast
  note f1 = c5 [THEN spec, THEN mp, OF x1, THEN conjunct1]
  from v1 have v1': "col_values (boolVal x1) = [True, False]"
    by (simp add: TColumnValue_default_def)
  from p1 have l1: "length (col_nulls (boolVal x1)) = 1" by (simp add: bitmap_prefix_def)
  from g1 have g1': "GetNullBit (col_nulls (boolVal x1)) 1 = Some True"
    by (simp add: TColumnValue_default_def)
  have d1: "\<exists>column'. TColumnValueToHS2TColumn TColumnValue_default (scalar_column_type ?st) 1 ?col = Some column'
        \<and> column' = ?col\<lparr>boolVal := boolVal column'\<rparr>
        \<and> col_values (boolVal column') = [True, False]
        \<and> length (col_nulls (boolVal column')) = 1
        \<and> GetNullBit (col_nulls (boolVal column')) 1 = Some True"
    by (rule exI [of _ x1]) (rule conjI [OF x1 conjI [OF f1 conjI [OF v1' conjI [OF l1 g1']]]])
  from c11 [THEN mp, OF conjI [OF b1 conjI [OF bp ok1]]]
  obtain x2 where x2: "ExprValueToHS2TColumn sample_host (Some (Bool True))
        (scalar_column_type ?st) 1 ?col = Some x2"
    and v2: "col_values (boolVal x2)
        = col_values (boolVal ?col) @ [Some (Bool True) = Some (Bool True)]"
    and g2: "GetNullBit (col_nulls (boolVal x2)) 1 = Some (Some (Bool True) = None)"
    by blast
  from v2 have v2': "col_values (boolVal x2) = [True, True]" by simp
  from g2 have g2': "GetNullBit (col_nulls (boolVal x2)) 1 = Some False" by simp
  have d2: "\<exists>column'. ExprValueToHS2TColumn sample_host (Some (Bool True))
          (scalar_column_type ?st) 1 ?col = Some column'
        \<and> col_values (boolVal column') = [True, True]
        \<and> GetNullBit (col_nulls (boolVal column')) 1 = Some False"
    by (rule exI [of _ x2]) (rule conjI [OF x2 conjI [OF v2' g2']])
  from c12 [THEN mp, OF conjI [OF b2 conjI [OF b3 conjI [OF r1 conjI [OF ok2 conjI [OF len bp]]]]]]
  obtain x3 where x3: "ExprValuesToHS2TColumn sample_host ?rows (scalar_column_type ?st)
        0 1 (int 2) ?col = Some x3"
    and v3: "col_values (boolVal x3)
        = col_values (boolVal ?col) @ map (\<lambda>i. ?rows ! (0 + i) = Some (Bool True)) [0..<2]"
    and e3: "\<forall>j < 1. GetNullBit (col_nulls (boolVal x3)) j = Some False"
    and a3: "\<forall>i < 2. GetNullBit (col_nulls (boolVal x3)) (1 + i) = Some (?rows ! (0 + i) = None)"
    by blast
  from v3 have v3': "col_values (boolVal x3) = [True, False, True]" unfolding u by simp
  from e3 [THEN spec, of 0] have g30: "GetNullBit (col_nulls (boolVal x3)) 0 = Some False"
    by simp
  from a3 [THEN spec, of 0] have g31: "GetNullBit (col_nulls (boolVal x3)) 1 = Some True"
    by simp
  from a3 [THEN spec, of 1] have g32: "GetNullBit (col_nulls (boolVal x3)) 2 = Some False"
    by (simp add: numeral_2_eq_2)
  have d3: "\<exists>column'. ExprValuesToHS2TColumn sample_host ?rows (scalar_column_type ?st)
          0 1 (int 2) ?col = Some column'
        \<and> col_values (boolVal column') = [True, False, True]
        \<and> GetNullBit (col_nulls (boolVal column')) 0 = Some False
        \<and> GetNullBit (col_nulls (boolVal column')) 1 = Some True
        \<and> GetNullBit (col_nulls (boolVal column')) 2 = Some False"
    by (rule exI [of _ x3]) (rule conjI [OF x3 conjI [OF v3' conjI [OF g30 conjI [OF g31 g32]]]])
  from c13 [THEN mp, OF conjI [OF b2 conjI [OF b3 conjI [OF r2 conjI [OF len bp]]]]]
  obtain x4 where x4: "TColumnValuesToHS2TColumn ?cvs (scalar_column_type ?st)
        0 1 (int 2) ?col = Some x4"
    and v4: "col_values (boolVal x4)
        = col_values (boolVal ?col) @ map (\<lambda>i. bool_val (?cvs ! (0 + i))) [0..<2]"
    and e4: "\<forall>j < 1. GetNullBit (col_nulls (boolVal x4)) j = Some False"
    and a4: "\<forall>i < 2. GetNullBit (col_nulls (boolVal x4)) (1 + i)
        = Some (isset_bool_val (?cvs ! (0 + i)))"
    by blast
  from v4 have v4': "col_values (boolVal x4) = [True, False, True]"
    unfolding u by (simp add: TColumnValue_default_def)
  from e4 [THEN spec, of 0] have g40: "GetNullBit (col_nulls (boolVal x4)) 0 = Some False"
    by simp
  from a4 [THEN spec, of 0] have g41: "GetNullBit (col_nulls (boolVal x4)) 1 = Some False"
    by (simp add: TColumnValue_default_def)
  from a4 [THEN spec, of 1] have g42: "GetNullBit (col_nulls (boolVal x4)) 2 = Some True"
    by (simp add: numeral_2_eq_2)
  have d4: "\<exists>column'. TColumnValuesToHS2TColumn ?cvs (scalar_column_type ?st)
          0 1 (int 2) ?col = Some column'
        \<and> col_values (boolVal column') = [True, False, True]
        \<and> GetNullBit (col_nulls (boolVal column')) 0 = Some False
        \<and> GetNullBit (col_nulls (boolVal column')) 1 = Some False
        \<and> GetNullBit (col_nulls (boolVal column')) 2 = Some True"
    by (rule exI [of _ x4]) (rule conjI [OF x4 conjI [OF v4' conjI [OF g40 conjI [OF g41 g42]]]])
  show ?thesis
    by (rule conjI [OF h1 conjI [OF b1 conjI [OF b2 conjI [OF b3 conjI [OF len conjI [OF bp
        conjI [OF d1 conjI [OF d2 conjI [OF d3 conjI [OF d4 c14]]]]]]]]]])
qed

end
